(* ===== verification/Gcip_Prelude.thy ===== *)
theory Gcip_Prelude
  imports Main "HOL-Library.Word"
begin

unbundle bit_operations_syntax

text \<open>
  What the components of the development share: the C integer types of the driver sources as
  words, the error numbers they return, the named collections of rewrite rules that carry the
  component proofs, arithmetic of power-of-two masks on words, small facts on lists, and the
  interface (a locale) between a step relation and an invariant of it.
\<close>

section \<open>Integer types and error numbers\<close>

type_synonym u8 = "8 word"
type_synonym u16 = "16 word"
type_synonym u32 = "32 word"
type_synonym u64 = "64 word"

text \<open>
  Kernel functions return 0 on success and a negative error number otherwise; such an \<open>int\<close> result
  is an \<^typ>\<open>int\<close> here. The numbers are those of the Linux ABI.
\<close>

abbreviation ENOENT :: int where "ENOENT \<equiv> 2"
abbreviation EIO :: int where "EIO \<equiv> 5"
abbreviation EAGAIN :: int where "EAGAIN \<equiv> 11"
abbreviation ENOMEM :: int where "ENOMEM \<equiv> 12"
abbreviation EBUSY :: int where "EBUSY \<equiv> 16"
abbreviation EEXIST :: int where "EEXIST \<equiv> 17"
abbreviation ENODEV :: int where "ENODEV \<equiv> 19"
abbreviation EINVAL :: int where "EINVAL \<equiv> 22"
abbreviation ENOSPC :: int where "ENOSPC \<equiv> 28"
abbreviation ERANGE :: int where "ERANGE \<equiv> 34"
abbreviation ENOMSG :: int where "ENOMSG \<equiv> 42"
abbreviation EBADMSG :: int where "EBADMSG \<equiv> 74"
abbreviation EOVERFLOW :: int where "EOVERFLOW \<equiv> 75"
abbreviation EOPNOTSUPP :: int where "EOPNOTSUPP \<equiv> 95"
abbreviation ETIMEDOUT :: int where "ETIMEDOUT \<equiv> 110"

text \<open>A C truth value: any non-zero word.\<close>

abbreviation c_true :: "'a::len word \<Rightarrow> bool" where "c_true w \<equiv> w \<noteq> 0"

text \<open>An object in kernel memory is named by an address; \<open>None\<close> is the null pointer.\<close>

type_synonym ptr = nat

section \<open>Masks of powers of two\<close>

named_theorems mask_simps \<open>index arithmetic of power-of-two masks\<close>

lemma unat_and_mask_exp [mask_simps]:
  "unat (x AND (2 ^ k - 1)) = unat x mod 2 ^ k" for x :: "'a::len word"
  by (simp add: unsigned_take_bit_eq flip: take_bit_eq_mask mask_eq_exp_minus_1 take_bit_eq_mod)

lemma and_exp_eq [mask_simps]:
  "x AND 2 ^ k = (if bit x k then 2 ^ k else 0)" for x :: "'a::len word"
  by (rule bit_word_eqI) (auto simp: bit_simps)

lemma unat_of_nat_lt: "n < 2 ^ LENGTH('a) \<Longrightarrow> unat (word_of_nat n :: 'a::len word) = n"
  by (simp add: unat_of_nat)

lemma word_of_nat_inj:
  "m < 2 ^ LENGTH('a) \<Longrightarrow> n < 2 ^ LENGTH('a) \<Longrightarrow>
    (word_of_nat m :: 'a::len word) = word_of_nat n \<longleftrightarrow> m = n"
  by (metis unat_of_nat_lt)

lemma unat_exp: "k < LENGTH('a) \<Longrightarrow> unat ((2::'a::len word) ^ k) = 2 ^ k"
  using unat_of_nat_lt [of "2 ^ k", where 'a = 'a] by simp

lemma and_not_mask_0_iff:
  "x AND NOT (mask k) = 0 \<longleftrightarrow> take_bit k x = x" for x :: "'a::len word"
proof
  assume "x AND NOT (mask k) = 0"
  then have "\<not> (bit x n \<and> n < LENGTH('a) \<and> k \<le> n)" for n
    by (metis bit_0_eq bit_and_iff bit_not_iff bit_mask_iff bot_apply bot_bool_def linorder_not_le
        possible_bit_word)
  then show "take_bit k x = x"
    by (intro bit_word_eqI) (auto simp: bit_simps not_le)
next
  assume "take_bit k x = x"
  then have "x = x AND mask k"
    by (simp add: take_bit_eq_mask)
  then show "x AND NOT (mask k) = 0"
    by (metis and.assoc and_zero_eq bit.conj_cancel_right)
qed

end
