(* ===== verification/Circ_Queue.thy ===== *)
theory Circ_Queue
  imports Gcip_Prelude
begin

text \<open>
  The mirrored circular queue of \<^verbatim>\<open>include/gcip/gcip-mailbox.h\<close>: head and tail are 32-bit
  indices whose wrap bit tells the even from the odd rounds, so that a full and an empty queue
  differ.
\<close>

section \<open>The index macros and functions\<close>

definition CIRC_QUEUE_WRAPPED :: "'a::len word \<Rightarrow> 'a word \<Rightarrow> 'a word" where
  "CIRC_QUEUE_WRAPPED idx wrap_bit = idx AND wrap_bit"

definition CIRC_QUEUE_INDEX_MASK :: "'a::len word \<Rightarrow> 'a word" where
  "CIRC_QUEUE_INDEX_MASK wrap_bit = wrap_bit - 1"

definition CIRC_QUEUE_VALID_MASK :: "'a::len word \<Rightarrow> 'a word" where
  "CIRC_QUEUE_VALID_MASK wrap_bit = CIRC_QUEUE_INDEX_MASK wrap_bit OR wrap_bit"

definition CIRC_QUEUE_REAL_INDEX :: "'a::len word \<Rightarrow> 'a word \<Rightarrow> 'a word" where
  "CIRC_QUEUE_REAL_INDEX idx wrap_bit = idx AND CIRC_QUEUE_INDEX_MASK wrap_bit"

definition CIRC_QUEUE_MAX_SIZE :: "'a::len word \<Rightarrow> 'a word" where
  "CIRC_QUEUE_MAX_SIZE wrap_bit = wrap_bit - 1"

definition gcip_circ_queue_cnt :: "u32 \<Rightarrow> u32 \<Rightarrow> u32 \<Rightarrow> u32 \<Rightarrow> u32" where
  "gcip_circ_queue_cnt head tail queue_size wrap_bit =
     (let ret = (if CIRC_QUEUE_WRAPPED tail wrap_bit \<noteq> CIRC_QUEUE_WRAPPED head wrap_bit
                 then queue_size - CIRC_QUEUE_REAL_INDEX head wrap_bit
                      + CIRC_QUEUE_REAL_INDEX tail wrap_bit
                 else tail - head)
      in if ret > queue_size then 0 else ret)"

definition gcip_circ_queue_inc :: "u32 \<Rightarrow> u32 \<Rightarrow> u32 \<Rightarrow> u32 \<Rightarrow> u32" where
  "gcip_circ_queue_inc index inc queue_size wrap_bit =
     (let new_index = CIRC_QUEUE_REAL_INDEX index wrap_bit + inc
      in if new_index \<ge> queue_size then (index + inc - queue_size) XOR wrap_bit
         else index + inc)"

definition gcip_valid_circ_queue_size :: "u32 \<Rightarrow> u32 \<Rightarrow> bool" where
  "gcip_valid_circ_queue_size sz wrap_bit =
     (if \<not> c_true sz \<or> sz > CIRC_QUEUE_MAX_SIZE wrap_bit then False else True)"

section \<open>Normal form of an index\<close>

lemmas circ_defs = CIRC_QUEUE_WRAPPED_def CIRC_QUEUE_INDEX_MASK_def CIRC_QUEUE_VALID_MASK_def
  CIRC_QUEUE_REAL_INDEX_def CIRC_QUEUE_MAX_SIZE_def

text \<open>
  Geometry of a queue: the wrap bit is one bit \<open>2 ^ k\<close> and the size fits below it. An index is
  valid when its real index is inside the queue and no bit above the wrap bit is set.
\<close>

definition circ_geometry :: "u32 \<Rightarrow> u32 \<Rightarrow> bool" where
  "circ_geometry sz wrap_bit \<longleftrightarrow>
     (\<exists>k < 32. wrap_bit = 2 ^ k) \<and> gcip_valid_circ_queue_size sz wrap_bit"

definition circ_valid :: "u32 \<Rightarrow> u32 \<Rightarrow> u32 \<Rightarrow> bool" where
  "circ_valid sz wrap_bit i \<longleftrightarrow> circ_geometry sz wrap_bit \<and>
     CIRC_QUEUE_REAL_INDEX i wrap_bit < sz \<and> i AND NOT (CIRC_QUEUE_VALID_MASK wrap_bit) = 0"

text \<open>The position of an index on the ring of \<open>2 * size\<close> positions that the wrap bit makes.\<close>

definition circ_pos :: "u32 \<Rightarrow> u32 \<Rightarrow> u32 \<Rightarrow> nat" where
  "circ_pos sz wrap_bit i =
     unat (CIRC_QUEUE_REAL_INDEX i wrap_bit) +
     (if c_true (CIRC_QUEUE_WRAPPED i wrap_bit) then unat sz else 0)"

definition mk_index :: "nat \<Rightarrow> bool \<Rightarrow> nat \<Rightarrow> u32" where
  "mk_index k w r = word_of_nat (r + (if w then 2 ^ k else 0))"

lemma unat_mk_index: "k < 32 \<Longrightarrow> r < 2 ^ k \<Longrightarrow> unat (mk_index k w r) = r + (if w then 2 ^ k else 0)"
proof -
  assume k: "k < 32" and r: "r < 2 ^ k"
  have "(2::nat) ^ Suc k \<le> 2 ^ 32"
    using k by (intro power_increasing) auto
  with r have "r + (if w then 2 ^ k else 0) < 2 ^ 32"
    by auto
  then show ?thesis
    unfolding mk_index_def by (intro unat_of_nat_lt) simp
qed

lemma bit_mk_index: "k < 32 \<Longrightarrow> r < 2 ^ k \<Longrightarrow> bit (mk_index k w r) k = w"
proof -
  assume k: "k < 32" and r: "r < 2 ^ k"
  have "bit (mk_index k w r) k = bit (unat (mk_index k w r)) k"
    by (simp add: bit_unsigned_iff)
  also have "\<dots> = w"
    using r by (simp add: unat_mk_index [OF k r] bit_iff_odd div_add_self2)
  finally show ?thesis .
qed

lemma unat_real_mk_index:
  "k < 32 \<Longrightarrow> r < 2 ^ k \<Longrightarrow> unat (CIRC_QUEUE_REAL_INDEX (mk_index k w r) (2 ^ k)) = r"
  by (simp add: circ_defs mask_simps unat_mk_index)

lemma wrapped_mk_index:
  "k < 32 \<Longrightarrow> r < 2 ^ k \<Longrightarrow> CIRC_QUEUE_WRAPPED (mk_index k w r) (2 ^ k) = (if w then 2 ^ k else 0)"
  by (simp add: circ_defs and_exp_eq bit_mk_index)

lemma unat_exp_u32: "k < 32 \<Longrightarrow> unat ((2::u32) ^ k) = 2 ^ k"
  by (simp add: unat_exp)

lemma mk_index_high:
  assumes "k < 32" and "r < 2 ^ k"
  shows "mk_index k w r AND NOT (CIRC_QUEUE_VALID_MASK (2 ^ k)) = 0"
proof -
  have "mk_index k w r AND NOT (mask (Suc k)) = 0"
  proof (rule bit_word_eqI)
    fix n
    have "unat (mk_index k w r) < 2 ^ Suc k"
      using assms by (simp add: unat_mk_index)
    then have "\<not> bit (unat (mk_index k w r)) n" if "n > k"
    proof -
      have "(2::nat) ^ Suc k \<le> 2 ^ n" using that by (intro power_increasing) auto
      then have "unat (mk_index k w r) < 2 ^ n"
        using \<open>unat (mk_index k w r) < 2 ^ Suc k\<close> by linarith
      then show ?thesis by (simp add: bit_iff_odd)
    qed
    then show "bit (mk_index k w r AND NOT (mask (Suc k))) n = bit (0::u32) n"
      by (auto simp: bit_simps less_Suc_eq_le not_le)
  qed
  then show ?thesis
    by (simp add: circ_defs mask_Suc_exp or.commute flip: mask_eq_exp_minus_1)
qed

lemma index_decompose:
  assumes "i AND NOT (CIRC_QUEUE_VALID_MASK (2 ^ k)) = (0::u32)" and "k < 32"
  shows "i = mk_index k (bit i k) (unat i mod 2 ^ k)"
proof -
  have "i AND NOT (mask (Suc k)) = 0"
    using assms(1) by (simp add: circ_defs mask_Suc_exp or.commute flip: mask_eq_exp_minus_1)
  then have "take_bit (Suc k) i = i"
    by (simp only: and_not_mask_0_iff)
  then have "unat i = take_bit (Suc k) (unat i)"
    by (metis unsigned_take_bit_eq)
  also have "\<dots> = unat i mod 2 ^ k + (if bit i k then 2 ^ k else 0)"
    by (simp only: take_bit_Suc_from_most bit_unsigned_iff) (simp add: take_bit_eq_mod)
  finally have "unat i = unat (mk_index k (bit i k) (unat i mod 2 ^ k))"
    using assms(2) by (simp add: unat_mk_index)
  then show ?thesis by (rule word_unat_eq_iff [THEN iffD2])
qed

lemma xor_mk_index:
  assumes "k < 32" and "r < 2 ^ k"
  shows "mk_index k w r XOR 2 ^ k = mk_index k (\<not> w) r"
proof -
  have "mk_index k w r XOR 2 ^ k = flip_bit k (mk_index k w r)"
    by (simp add: flip_bit_eq_xor)
  also have "\<dots> = mk_index k (\<not> w) r"
    using bit_mk_index [OF assms, of w]
    by (cases w) (simp_all add: flip_bit_eq_if unset_bit_eq set_bit_eq, simp_all add: mk_index_def)
  finally show ?thesis .
qed

lemma geometryE:
  assumes "circ_geometry sz wb"
  obtains k where "k < 32" and "wb = 2 ^ k" and "0 < unat sz" and "unat sz < 2 ^ k"
proof -
  from assms obtain k where k: "k < 32" "wb = 2 ^ k" and v: "gcip_valid_circ_queue_size sz wb"
    by (auto simp: circ_geometry_def)
  have "sz \<noteq> 0" "sz \<le> 2 ^ k - 1"
    using v k by (auto simp: gcip_valid_circ_queue_size_def circ_defs split: if_splits)
  moreover have "unat ((2::u32) ^ k - 1) = 2 ^ k - 1"
    using k(1) unat_exp_u32 [OF k(1)] by (simp add: unat_minus_one)
  ultimately have "0 < unat sz" "unat sz \<le> 2 ^ k - 1"
    by (auto simp: word_le_nat_alt unat_gt_0)
  then have "unat sz < 2 ^ k"
    by (metis Suc_pred' le_imp_less_Suc zero_less_numeral zero_less_power)
  with k \<open>0 < unat sz\<close> that show ?thesis by blast
qed

lemma validE:
  assumes "circ_valid sz wb i"
  obtains k w r where "k < 32" and "wb = 2 ^ k" and "unat sz < 2 ^ k" and "r < unat sz"
    and "i = mk_index k w r"
proof -
  from assms obtain k where k: "k < 32" "wb = 2 ^ k" "unat sz < 2 ^ k"
    by (auto simp: circ_valid_def elim: geometryE)
  let ?r = "unat i mod 2 ^ k"
  have i: "i = mk_index k (bit i k) ?r"
    using assms k by (intro index_decompose) (auto simp: circ_valid_def)
  have "?r < unat sz"
    using assms k by (simp add: circ_valid_def word_less_nat_alt circ_defs mask_simps)
  with k i that show ?thesis by blast
qed

lemma valid_mk_index:
  assumes "circ_geometry sz (2 ^ k)" and "k < 32" and "unat sz < 2 ^ k" and "r < unat sz"
  shows "circ_valid sz (2 ^ k) (mk_index k w r)"
  using assms by (simp add: circ_valid_def word_less_nat_alt unat_real_mk_index mk_index_high)

lemma circ_pos_mk_index:
  "k < 32 \<Longrightarrow> r < 2 ^ k \<Longrightarrow>
    circ_pos sz (2 ^ k) (mk_index k w r) = r + (if w then unat sz else 0)"
  by (simp add: circ_pos_def unat_real_mk_index wrapped_mk_index exp_eq_zero_iff)

section \<open>Increment and count\<close>

lemma inc_mk_index:
  assumes "k < 32" and "unat sz < 2 ^ k" and "r < unat sz" and "unat n \<le> unat sz"
  shows "gcip_circ_queue_inc (mk_index k w r) n sz (2 ^ k) =
    (if r + unat n < unat sz then mk_index k w (r + unat n)
     else mk_index k (\<not> w) (r + unat n - unat sz))"
proof -
  let ?real = "CIRC_QUEUE_REAL_INDEX (mk_index k w r) (2 ^ k)"
  have pk: "(2::nat) ^ k \<le> 2 ^ 31" using assms(1) by (intro power_increasing) auto
  have real: "unat (?real + n) = r + unat n"
    using assms pk by (simp add: unat_word_ariths unat_real_mk_index)
  have n: "n = word_of_nat (unat n)" and sz: "sz = word_of_nat (unat sz)" by simp_all
  show ?thesis
  proof (cases "r + unat n < unat sz")
    case True
    have "mk_index k w r + n = mk_index k w (r + unat n)"
      by (subst n) (simp add: mk_index_def)
    with True show ?thesis
      by (simp add: gcip_circ_queue_inc_def Let_def word_le_nat_alt real)
  next
    case False
    then have "mk_index k w r + n - sz = mk_index k w (r + unat n - unat sz)"
      by (simp add: mk_index_def of_nat_diff)
    moreover have "r + unat n - unat sz < 2 ^ k" using assms by linarith
    ultimately show ?thesis
      using False assms(1)
      by (simp add: gcip_circ_queue_inc_def Let_def word_le_nat_alt real xor_mk_index)
  qed
qed

lemma cnt_mk_index:
  assumes "k < 32" and "unat sz < 2 ^ k" and "rh < unat sz" and "rt < unat sz"
  shows "unat (gcip_circ_queue_cnt (mk_index k wh rh) (mk_index k wt rt) sz (2 ^ k)) =
    (if wh = wt then (if rh \<le> rt then rt - rh else 0)
     else (if rt \<le> rh then unat sz - rh + rt else 0))"
proof -
  let ?h = "mk_index k wh rh" and ?t = "mk_index k wt rt"
  have pk: "(2::nat) ^ k \<le> 2 ^ 31" using assms(1) by (intro power_increasing) auto
  have rl: "rh < 2 ^ k" "rt < 2 ^ k" using assms by auto
  have wr: "CIRC_QUEUE_WRAPPED ?t (2 ^ k) = CIRC_QUEUE_WRAPPED ?h (2 ^ k) \<longleftrightarrow> wh = wt"
    using assms(1) rl by (auto simp: wrapped_mk_index exp_eq_zero_iff)
  show ?thesis
  proof (cases "wh = wt")
    case False
    have "unat (sz - CIRC_QUEUE_REAL_INDEX ?h (2 ^ k) + CIRC_QUEUE_REAL_INDEX ?t (2 ^ k))
        = unat sz - rh + rt"
      using assms rl pk
      by (simp add: unat_word_ariths unat_real_mk_index unat_sub word_le_nat_alt)
    with False wr assms show ?thesis
      by (auto simp: gcip_circ_queue_cnt_def Let_def word_less_nat_alt)
  next
    case True
    have d: "?t - ?h = word_of_nat rt - word_of_nat rh"
      using True by (simp add: mk_index_def)
    show ?thesis
    proof (cases "rh \<le> rt")
      case le: True
      then have "?t - ?h = word_of_nat (rt - rh)" by (simp add: d of_nat_diff)
      then have "unat (?t - ?h) = rt - rh"
        using assms pk by (simp add: unat_of_nat_lt)
      with True le wr assms show ?thesis
        by (auto simp: gcip_circ_queue_cnt_def Let_def word_less_nat_alt)
    next
      case gt: False
      then have "unat (?t - ?h) = 2 ^ 32 - (rh - rt)"
        using assms pk by (simp add: d unat_sub_if_size unat_of_nat_lt word_size)
      with True gt wr assms pk show ?thesis
        by (auto simp: gcip_circ_queue_cnt_def Let_def word_less_nat_alt)
    qed
  qed
qed

text \<open>
  The distance from one position to another on the ring of \<open>2 * sz\<close> positions. A queue whose
  head and tail are at most \<open>sz\<close> apart holds that many elements.
\<close>

definition ring_dist :: "nat \<Rightarrow> nat \<Rightarrow> nat \<Rightarrow> nat" where
  "ring_dist n from to = (to + 2 * n - from) mod (2 * n)"

lemma ring_dist_add:
  "a < 2 * n \<Longrightarrow> b < 2 * n \<Longrightarrow> (a + ring_dist n a b) mod (2 * n) = b"
  by (simp add: ring_dist_def mod_add_right_eq)

lemma ring_dist_unique:
  assumes "a < 2 * n" and "d < 2 * n"
  shows "ring_dist n a ((a + d) mod (2 * n)) = d"
proof (cases "a + d < 2 * n")
  case True
  then have "(a + d) mod (2 * n) + 2 * n - a = d + 2 * n" by simp
  with assms(2) show ?thesis by (simp add: ring_dist_def)
next
  case False
  then have "(a + d) mod (2 * n) = a + d - 2 * n"
    using assms by (simp add: mod_if)
  then have "(a + d) mod (2 * n) + 2 * n - a = d" using False by simp
  with assms(2) show ?thesis by (simp add: ring_dist_def)
qed

lemma ring_dist_less: "0 < n \<Longrightarrow> ring_dist n a b < 2 * n"
  by (simp add: ring_dist_def)

lemma ring_dist_pop:
  assumes "a < 2 * n" and "b < 2 * n" and "k \<le> ring_dist n a b"
  shows "ring_dist n ((a + k) mod (2 * n)) b = ring_dist n a b - k"
proof -
  obtain e where e: "ring_dist n a b = k + e" using assms(3) by (auto simp: le_iff_add)
  have n: "0 < n" using assms(1) by simp
  have b: "((a + k) mod (2 * n) + e) mod (2 * n) = b"
    using ring_dist_add [OF assms(1,2)] by (simp add: e mod_add_left_eq add.assoc)
  have "ring_dist n ((a + k) mod (2 * n)) (((a + k) mod (2 * n) + e) mod (2 * n)) = e"
    by (rule ring_dist_unique) (use n e ring_dist_less [OF n, of a b] in auto)
  then show ?thesis by (simp add: b e)
qed

lemma ring_dist_push:
  assumes "a < 2 * n" and "b < 2 * n" and "ring_dist n a b + k < 2 * n"
  shows "ring_dist n a ((b + k) mod (2 * n)) = ring_dist n a b + k"
proof -
  have b: "(b + k) mod (2 * n) = (a + (ring_dist n a b + k)) mod (2 * n)"
    using ring_dist_add [OF assms(1,2)] by (metis add.assoc mod_add_left_eq)
  show ?thesis unfolding b using assms by (intro ring_dist_unique) auto
qed

lemma circ_inc_valid:
  assumes "circ_valid sz wb i" and "n \<le> sz"
  shows "circ_valid sz wb (gcip_circ_queue_inc i n sz wb)"
proof -
  from assms(1) obtain k w r where k: "k < 32" "wb = 2 ^ k" "unat sz < 2 ^ k" "r < unat sz"
    and i: "i = mk_index k w r" by (rule validE)
  have "circ_geometry sz (2 ^ k)" using assms(1) k by (simp add: circ_valid_def)
  with k i assms(2) show ?thesis
    by (simp add: inc_mk_index valid_mk_index word_le_nat_alt)
qed

lemma circ_inc_pos:
  assumes "circ_valid sz wb i" and "n \<le> sz"
  shows "circ_pos sz wb (gcip_circ_queue_inc i n sz wb) =
    (circ_pos sz wb i + unat n) mod (2 * unat sz)"
proof -
  from assms(1) obtain k w r where k: "k < 32" "wb = 2 ^ k" "unat sz < 2 ^ k" "r < unat sz"
    and i: "i = mk_index k w r" by (rule validE)
  then show ?thesis
    using assms(2) by (auto simp: inc_mk_index circ_pos_mk_index word_le_nat_alt mod_if)
qed

lemma circ_cnt_dist:
  assumes "circ_valid sz wb h" and "circ_valid sz wb t"
  shows "unat (gcip_circ_queue_cnt h t sz wb) =
    (let d = ring_dist (unat sz) (circ_pos sz wb h) (circ_pos sz wb t)
     in if d \<le> unat sz then d else 0)"
proof -
  from assms(1) obtain k w r where k: "k < 32" "wb = 2 ^ k" "unat sz < 2 ^ k" "r < unat sz"
    and h: "h = mk_index k w r" by (rule validE)
  from assms(2) obtain k' w' r' where k': "k' < 32" "wb = 2 ^ k'" "r' < unat sz"
    and t: "t = mk_index k' w' r'" by (rule validE)
  have "unat wb = 2 ^ k" "unat wb = 2 ^ k'" using k k' unat_exp_u32 by metis+
  then have "k' = k" by simp
  with k k' h t show ?thesis
    by (auto simp: cnt_mk_index circ_pos_mk_index ring_dist_def mod_if Let_def)
qed

lemma circ_pos_less:
  assumes "circ_valid sz wb i"
  shows "circ_pos sz wb i < 2 * unat sz"
proof -
  from assms obtain k w r where "k < 32" "wb = 2 ^ k" "unat sz < 2 ^ k" "r < unat sz"
    and "i = mk_index k w r" by (rule validE)
  then show ?thesis by (simp add: circ_pos_mk_index)
qed

lemma circ_real_pos:
  assumes "circ_valid sz wb i"
  shows "unat (CIRC_QUEUE_REAL_INDEX i wb) = circ_pos sz wb i mod unat sz"
proof -
  from assms obtain k w r where "k < 32" "wb = 2 ^ k" "unat sz < 2 ^ k" "r < unat sz"
    and "i = mk_index k w r" by (rule validE)
  then show ?thesis by (simp add: circ_pos_mk_index unat_real_mk_index)
qed

section \<open>The interface of a ring buffer index\<close>

text \<open>
  What the users of head and tail indices rely on: \<open>ok g h t\<close> says that head \<open>h\<close> and tail \<open>t\<close>
  are consistent for the geometry \<open>g\<close>, \<open>cnt\<close> is the number of elements between them, \<open>inc\<close> moves
  an index, \<open>real\<close> is the slot an index names, \<open>cap\<close> the number of slots and \<open>lim\<close> how many
  elements the queue may hold.
\<close>

definition ring_list :: "(nat \<Rightarrow> 'a) \<Rightarrow> nat \<Rightarrow> nat \<Rightarrow> nat \<Rightarrow> 'a list" where
  "ring_list mem cap start n = map (\<lambda>i. mem ((start + i) mod cap)) [0..<n]"

lemma length_ring_list [simp]: "length (ring_list mem cap start n) = n"
  by (simp add: ring_list_def)

lemma nth_ring_list [simp]: "i < n \<Longrightarrow> ring_list mem cap start n ! i = mem ((start + i) mod cap)"
  by (simp add: ring_list_def)

lemma ring_list_0 [simp]: "ring_list mem cap start 0 = []"
  by (simp add: ring_list_def)

lemma ring_list_add:
  "ring_list mem cap start (m + n) =
    ring_list mem cap start m @ ring_list mem cap ((start + m) mod cap) n"
proof (rule nth_equalityI)
  fix i assume "i < length (ring_list mem cap start (m + n))"
  then show "ring_list mem cap start (m + n) ! i =
      (ring_list mem cap start m @ ring_list mem cap ((start + m) mod cap) n) ! i"
  proof (cases "i < m")
    case False
    then obtain j where "i = m + j" by (auto simp: not_less le_iff_add)
    with \<open>i < _\<close> show ?thesis by (simp add: nth_append mod_add_left_eq add.assoc)
  qed (simp add: nth_append)
qed simp

lemma ring_slot_neq:
  assumes "i < n" and "n < cap"
  shows "(start + i) mod cap \<noteq> (start + n) mod (cap::nat)"
proof
  assume "(start + i) mod cap = (start + n) mod cap"
  then have "cap dvd (start + n) - (start + i)"
    using assms(1) by (metis mod_eq_dvd_iff_nat add_le_cancel_left less_imp_le)
  then have "cap dvd n - i" by simp
  moreover have "0 < n - i" "n - i < cap" using assms by auto
  ultimately show False by (simp add: nat_dvd_not_less)
qed

lemma ring_list_upd_other:
  assumes "n < cap"
  shows "ring_list (mem((start + n) mod cap := x)) cap start n = ring_list mem cap start n"
  using assms ring_slot_neq by (simp add: ring_list_def)

locale ring_index =
  fixes ok :: "'g \<Rightarrow> 'i \<Rightarrow> 'i \<Rightarrow> bool"
    and cnt :: "'g \<Rightarrow> 'i \<Rightarrow> 'i \<Rightarrow> nat"
    and inc :: "'g \<Rightarrow> 'i \<Rightarrow> nat \<Rightarrow> 'i"
    and slot :: "'g \<Rightarrow> 'i \<Rightarrow> nat"
    and cap :: "'g \<Rightarrow> nat"
    and lim :: "'g \<Rightarrow> nat"
  assumes slot_less: "ok g h t \<Longrightarrow> slot g h < cap g"
    and lim_le: "ok g h t \<Longrightarrow> lim g \<le> cap g"
    and cnt_le: "ok g h t \<Longrightarrow> cnt g h t \<le> lim g"
    and slot_inc: "ok g h t \<Longrightarrow> n \<le> cnt g h t \<Longrightarrow> slot g (inc g h n) = (slot g h + n) mod cap g"
    and slot_tail: "ok g h t \<Longrightarrow> slot g t = (slot g h + cnt g h t) mod cap g"
    and ok_pop: "ok g h t \<Longrightarrow> n \<le> cnt g h t \<Longrightarrow> ok g (inc g h n) t"
    and cnt_pop: "ok g h t \<Longrightarrow> n \<le> cnt g h t \<Longrightarrow> cnt g (inc g h n) t = cnt g h t - n"
    and ok_push: "ok g h t \<Longrightarrow> cnt g h t + n \<le> lim g \<Longrightarrow> ok g h (inc g t n)"
    and cnt_push: "ok g h t \<Longrightarrow> cnt g h t + n \<le> lim g \<Longrightarrow> cnt g h (inc g t n) = cnt g h t + n"
begin

lemma pop_contents:
  assumes "ok g h t" and "n \<le> cnt g h t"
  shows "ring_list mem (cap g) (slot g h) (cnt g h t) =
    ring_list mem (cap g) (slot g h) n @
    ring_list mem (cap g) (slot g (inc g h n)) (cnt g (inc g h n) t)"
  using ring_list_add [of mem "cap g" "slot g h" n "cnt g h t - n"] assms
  by (simp add: slot_inc cnt_pop)

lemma push_contents:
  assumes "ok g h t" and "cnt g h t < lim g"
  shows "ring_list (mem(slot g t := x)) (cap g) (slot g h) (cnt g h (inc g t 1)) =
    ring_list mem (cap g) (slot g h) (cnt g h t) @ [x]"
proof -
  have lim: "cnt g h t < cap g" using assms lim_le by fastforce
  have c: "cnt g h (inc g t 1) = cnt g h t + 1"
    using assms by (simp add: cnt_push)
  show ?thesis
    unfolding c slot_tail [OF assms(1)]
    by (subst ring_list_add) (simp add: ring_list_upd_other [OF lim], simp add: ring_list_def)
qed

lemma push_slot_fresh:
  assumes "ok g h t" and "cnt g h t < lim g" and "i < cnt g h t"
  shows "(slot g h + i) mod cap g \<noteq> slot g t"
proof -
  have "cnt g h t < cap g" using assms lim_le by fastforce
  then show ?thesis
    using assms by (simp add: slot_tail ring_slot_neq)
qed

end

text \<open>
  The mirrored queue provides the interface: the geometry is the pair of queue size and wrap bit,
  and head and tail are consistent when both are valid and at most one round apart.
\<close>

definition circ_ok :: "u32 \<times> u32 \<Rightarrow> u32 \<Rightarrow> u32 \<Rightarrow> bool" where
  "circ_ok g h t \<longleftrightarrow> (case g of (sz, wb) \<Rightarrow> circ_valid sz wb h \<and> circ_valid sz wb t \<and>
     ring_dist (unat sz) (circ_pos sz wb h) (circ_pos sz wb t) \<le> unat sz)"

definition circ_cnt :: "u32 \<times> u32 \<Rightarrow> u32 \<Rightarrow> u32 \<Rightarrow> nat" where
  "circ_cnt g h t = (case g of (sz, wb) \<Rightarrow> unat (gcip_circ_queue_cnt h t sz wb))"

definition circ_inc :: "u32 \<times> u32 \<Rightarrow> u32 \<Rightarrow> nat \<Rightarrow> u32" where
  "circ_inc g i n = (case g of (sz, wb) \<Rightarrow> gcip_circ_queue_inc i (word_of_nat n) sz wb)"

definition circ_slot :: "u32 \<times> u32 \<Rightarrow> u32 \<Rightarrow> nat" where
  "circ_slot g i = (case g of (sz, wb) \<Rightarrow> unat (CIRC_QUEUE_REAL_INDEX i wb))"

lemma circ_valid_size: "circ_valid sz wb i \<Longrightarrow> 0 < unat sz"
  by (auto simp: circ_valid_def elim: geometryE)

lemma circ_inc_nat:
  assumes "circ_valid sz wb i" and "n \<le> unat sz"
  shows "circ_valid sz wb (gcip_circ_queue_inc i (word_of_nat n) sz wb)"
    and "circ_pos sz wb (gcip_circ_queue_inc i (word_of_nat n) sz wb) =
      (circ_pos sz wb i + n) mod (2 * unat sz)"
proof -
  have "unat (word_of_nat n :: u32) = n" using assms(2) by (rule le_unat_uoi)
  moreover from this have "(word_of_nat n :: u32) \<le> sz"
    using assms(2) by (simp add: word_le_nat_alt)
  ultimately show "circ_valid sz wb (gcip_circ_queue_inc i (word_of_nat n) sz wb)"
    and "circ_pos sz wb (gcip_circ_queue_inc i (word_of_nat n) sz wb) =
      (circ_pos sz wb i + n) mod (2 * unat sz)"
    using assms(1) by (simp_all add: circ_inc_valid circ_inc_pos)
qed

lemma circ_slot_inc:
  assumes "circ_valid sz wb i" and "n \<le> unat sz"
  shows "unat (CIRC_QUEUE_REAL_INDEX (gcip_circ_queue_inc i (word_of_nat n) sz wb) wb) =
    (unat (CIRC_QUEUE_REAL_INDEX i wb) + n) mod unat sz"
  using assms
  by (simp add: circ_real_pos [OF circ_inc_nat(1)] circ_real_pos circ_inc_nat mod_add_left_eq
      mod_mod_cancel)

lemmas circ_if_defs = circ_ok_def circ_cnt_def circ_inc_def circ_slot_def

lemma circ_okD:
  assumes "circ_ok (sz, wb) h t"
  shows "circ_valid sz wb h" and "circ_valid sz wb t"
    and "circ_cnt (sz, wb) h t = ring_dist (unat sz) (circ_pos sz wb h) (circ_pos sz wb t)"
    and "circ_cnt (sz, wb) h t \<le> unat sz"
    and "circ_pos sz wb h < 2 * unat sz" and "circ_pos sz wb t < 2 * unat sz"
  using assms by (simp_all add: circ_if_defs circ_cnt_dist Let_def circ_pos_less)

lemma circ_okI:
  assumes "circ_valid sz wb h" and "circ_valid sz wb t"
    and "ring_dist (unat sz) (circ_pos sz wb h) (circ_pos sz wb t) \<le> unat sz"
  shows "circ_ok (sz, wb) h t"
    and "circ_cnt (sz, wb) h t = ring_dist (unat sz) (circ_pos sz wb h) (circ_pos sz wb t)"
  using assms by (simp_all add: circ_if_defs circ_cnt_dist Let_def)

lemma circ_ok_pop:
  assumes ok: "circ_ok (sz, wb) h t" and n: "n \<le> circ_cnt (sz, wb) h t"
  shows "circ_ok (sz, wb) (circ_inc (sz, wb) h n) t"
    and "circ_cnt (sz, wb) (circ_inc (sz, wb) h n) t = circ_cnt (sz, wb) h t - n"
proof -
  note d = circ_okD [OF ok]
  have le: "n \<le> unat sz" using n d(4) by simp
  let ?h = "circ_inc (sz, wb) h n"
  have v: "circ_valid sz wb ?h" using circ_inc_nat(1) [OF d(1) le] by (simp add: circ_inc_def)
  have "ring_dist (unat sz) (circ_pos sz wb ?h) (circ_pos sz wb t) = circ_cnt (sz, wb) h t - n"
    using ring_dist_pop [OF d(5,6)] n by (simp add: circ_inc_nat(2) [OF d(1) le] circ_inc_def d(3))
  with circ_okI [OF v d(2)] d(4)
  show "circ_ok (sz, wb) ?h t" and "circ_cnt (sz, wb) ?h t = circ_cnt (sz, wb) h t - n" by auto
qed

lemma circ_ok_push:
  assumes ok: "circ_ok (sz, wb) h t" and n: "circ_cnt (sz, wb) h t + n \<le> unat sz"
  shows "circ_ok (sz, wb) h (circ_inc (sz, wb) t n)"
    and "circ_cnt (sz, wb) h (circ_inc (sz, wb) t n) = circ_cnt (sz, wb) h t + n"
proof -
  note d = circ_okD [OF ok]
  have le: "n \<le> unat sz" and pos: "0 < unat sz"
    using n d(1) by (auto simp: circ_valid_size)
  let ?t = "circ_inc (sz, wb) t n"
  have v: "circ_valid sz wb ?t" using circ_inc_nat(1) [OF d(2) le] by (simp add: circ_inc_def)
  have "ring_dist (unat sz) (circ_pos sz wb h) (circ_pos sz wb t) + n < 2 * unat sz"
    using n pos d(3) by linarith
  then have "ring_dist (unat sz) (circ_pos sz wb h) (circ_pos sz wb ?t) = circ_cnt (sz, wb) h t + n"
    using ring_dist_push [OF d(5,6)] by (simp add: circ_inc_nat(2) [OF d(2) le] circ_inc_def d(3))
  with circ_okI [OF d(1) v] n
  show "circ_ok (sz, wb) h ?t" and "circ_cnt (sz, wb) h ?t = circ_cnt (sz, wb) h t + n" by auto
qed

lemma circ_slot_tail:
  assumes "circ_ok (sz, wb) h t"
  shows "circ_slot (sz, wb) t = (circ_slot (sz, wb) h + circ_cnt (sz, wb) h t) mod unat sz"
proof -
  note d = circ_okD [OF assms]
  have "circ_pos sz wb t = (circ_pos sz wb h + circ_cnt (sz, wb) h t) mod (2 * unat sz)"
    using ring_dist_add [OF d(5,6)] d(3) by simp
  then have "circ_pos sz wb t mod unat sz =
      (circ_pos sz wb h + circ_cnt (sz, wb) h t) mod unat sz"
    by (simp add: mod_mod_cancel)
  then show ?thesis
    by (simp add: circ_slot_def circ_real_pos [OF d(1)] circ_real_pos [OF d(2)] mod_add_left_eq)
qed

interpretation circ: ring_index circ_ok circ_cnt circ_inc circ_slot "\<lambda>g. unat (fst g)"
  "\<lambda>g. unat (fst g)"
proof (unfold_locales, goal_cases)
  case (1 g h t)
  then show ?case
    by (cases g) (auto simp: circ_slot_def circ_valid_def word_less_nat_alt dest: circ_okD(1))
next
  case (3 g h t)
  then show ?case by (cases g) (auto dest: circ_okD(4))
next
  case (4 g h t n)
  obtain sz wb where g: "g = (sz, wb)" by force
  with 4 have "circ_valid sz wb h" "n \<le> unat sz" by (auto dest: circ_okD)
  with g show ?case by (simp add: circ_slot_inc circ_slot_def circ_inc_def)
next
  case (5 g h t)
  then show ?case by (cases g) (simp add: circ_slot_tail)
next
  case (6 g h t n)
  then show ?case by (cases g) (simp add: circ_ok_pop)
next
  case (7 g h t n)
  then show ?case by (cases g) (simp add: circ_ok_pop)
next
  case (8 g h t n)
  then show ?case by (cases g) (simp add: circ_ok_push)
next
  case (9 g h t n)
  then show ?case by (cases g) (simp add: circ_ok_push)
qed simp

lemma circ_pos_inj:
  assumes "circ_valid sz wb i" and "circ_valid sz wb j" and "circ_pos sz wb i = circ_pos sz wb j"
  shows "i = j"
proof -
  obtain k w r where i: "k < 32" "wb = 2 ^ k" "unat sz < 2 ^ k" "r < unat sz" "i = mk_index k w r"
    using assms(1) by (rule validE)
  obtain k' w' r' where j: "k' < 32" "wb = 2 ^ k'" "r' < unat sz" "j = mk_index k' w' r'"
    using assms(2) by (rule validE)
  have "unat ((2::u32) ^ k) = unat ((2::u32) ^ k')" using i(2) j(2) by simp
  then have "k' = k" using i(1) j(1) by (simp add: unat_exp_u32)
  with assms(3) i j show ?thesis
    by (auto simp: circ_pos_mk_index split: if_splits)
qed

lemma circ_inc_inc:
  assumes "circ_valid sz wb i" and "a + b \<le> unat sz"
  shows "circ_inc (sz, wb) (circ_inc (sz, wb) i a) b = circ_inc (sz, wb) i (a + b)"
proof -
  have v: "circ_valid sz wb (circ_inc (sz, wb) i a)"
    using assms by (simp add: circ_inc_def circ_inc_nat)
  moreover have "circ_valid sz wb (circ_inc (sz, wb) i (a + b))"
    using circ_inc_nat(1) [OF assms] by (simp add: circ_inc_def)
  moreover have "circ_valid sz wb (circ_inc (sz, wb) (circ_inc (sz, wb) i a) b)"
    using circ_inc_nat(1) [OF v, of b] assms(2) by (simp add: circ_inc_def)
  moreover have "circ_pos sz wb (circ_inc (sz, wb) (circ_inc (sz, wb) i a) b) =
      (circ_pos sz wb i + (a + b)) mod (2 * unat sz)"
    using circ_inc_nat(2) [OF v, of b] circ_inc_nat(2) [OF assms(1), of a] assms(2)
    by (simp add: circ_inc_def mod_simps add.assoc)
  moreover have "circ_pos sz wb (circ_inc (sz, wb) i (a + b)) =
      (circ_pos sz wb i + (a + b)) mod (2 * unat sz)"
    using circ_inc_nat(2) [OF assms] by (simp add: circ_inc_def)
  ultimately show ?thesis by (metis circ_pos_inj)
qed

lemma circ_inc_0:
  assumes "circ_valid sz wb i"
  shows "circ_inc (sz, wb) i 0 = i"
proof -
  have "circ_valid sz wb (circ_inc (sz, wb) i 0)"
    using circ_inc_nat(1) [OF assms, of 0] by (simp add: circ_inc_def)
  moreover have "circ_pos sz wb (circ_inc (sz, wb) i 0) = circ_pos sz wb i"
    using circ_inc_nat(2) [OF assms, of 0] circ_pos_less [OF assms] by (simp add: circ_inc_def)
  ultimately show ?thesis using assms by (metis circ_pos_inj)
qed

lemma circ_inc_full:
  assumes "circ_valid sz wb i"
  shows "circ_inc (sz, wb) i (unat sz) = i XOR wb"
proof -
  obtain k w r where k: "k < 32" "wb = 2 ^ k" "unat sz < 2 ^ k" "r < unat sz" "i = mk_index k w r"
    using assms by (rule validE)
  then have "circ_inc (sz, wb) i (unat sz) = mk_index k (\<not> w) r"
    by (simp add: circ_inc_def inc_mk_index)
  also have "\<dots> = i XOR wb" using k by (simp add: xor_mk_index)
  finally show ?thesis .
qed

text \<open>A queue is full exactly when head and tail differ in the wrap bit only.\<close>

lemma circ_full_iff:
  assumes "circ_ok (sz, wb) h t"
  shows "circ_cnt (sz, wb) h t = unat sz \<longleftrightarrow> h = t XOR wb"
proof -
  note d = circ_okD [OF assms]
  have h: "circ_inc (sz, wb) h (unat sz) = h XOR wb" using d(1) by (rule circ_inc_full)
  have pos: "circ_pos sz wb (h XOR wb) = (circ_pos sz wb h + unat sz) mod (2 * unat sz)"
    and v: "circ_valid sz wb (h XOR wb)"
    using circ_inc_nat [OF d(1), of "unat sz"] h by (simp_all add: circ_inc_def)
  have t: "circ_pos sz wb t = (circ_pos sz wb h + circ_cnt (sz, wb) h t) mod (2 * unat sz)"
    using ring_dist_add [OF d(5,6)] d(3) by simp
  have sym: "h = t XOR wb \<longleftrightarrow> t = h XOR wb" by (auto simp: xor.assoc)
  show ?thesis
  proof
    assume "circ_cnt (sz, wb) h t = unat sz"
    then have "circ_pos sz wb t = circ_pos sz wb (h XOR wb)" using t pos by simp
    then show "h = t XOR wb" unfolding sym using circ_pos_inj [OF d(2) v] by simp
  next
    assume "h = t XOR wb"
    then have "t = h XOR wb" by (simp only: sym)
    then have "ring_dist (unat sz) (circ_pos sz wb h) (circ_pos sz wb t) = unat sz"
      using pos ring_dist_unique [OF d(5), of "unat sz"] circ_valid_size [OF d(1)] by simp
    then show "circ_cnt (sz, wb) h t = unat sz" by (simp add: d(3))
  qed
qed

text \<open>What a queue holds, oldest element first.\<close>

definition circ_contents :: "(nat \<Rightarrow> 'a) \<Rightarrow> u32 \<Rightarrow> u32 \<Rightarrow> u32 \<Rightarrow> u32 \<Rightarrow> 'a list" where
  "circ_contents mem sz wb h t = ring_list mem (unat sz) (unat (CIRC_QUEUE_REAL_INDEX h wb))
     (unat (gcip_circ_queue_cnt h t sz wb))"

section \<open>Correctness of the queue\<close>

text \<open>C7: for valid indices \<open>gcip_circ_queue_cnt\<close> is the distance from head to tail on the ring of
  \<open>2 * queue_size\<close> positions that the wrap bit makes, and 0 when the two are more than one round
  apart; no subtraction or addition of the function wraps around in a way that shows.\<close>

theorem gcip_circ_queue_cnt_correct:
  assumes "circ_valid queue_size wrap_bit head" and "circ_valid queue_size wrap_bit tail"
  shows "unat (gcip_circ_queue_cnt head tail queue_size wrap_bit) =
    (let d = ring_dist (unat queue_size) (circ_pos queue_size wrap_bit head)
               (circ_pos queue_size wrap_bit tail)
     in if d \<le> unat queue_size then d else 0)"
  using assms by (rule circ_cnt_dist)

text \<open>C6: increasing the tail after writing its slot appends the element to what the queue holds,
  increasing the head by \<open>n\<close> drops the first \<open>n\<close> elements, and both keep the indices consistent:
  the index functions refine a bounded first-in first-out list.\<close>

theorem circ_queue_refines_list:
  assumes "circ_ok (queue_size, wrap_bit) head tail"
  shows "(gcip_circ_queue_cnt head tail queue_size wrap_bit < queue_size \<longrightarrow>
      circ_contents (mem(unat (CIRC_QUEUE_REAL_INDEX tail wrap_bit) := x)) queue_size wrap_bit head
          (gcip_circ_queue_inc tail 1 queue_size wrap_bit) =
        circ_contents mem queue_size wrap_bit head tail @ [x] \<and>
      circ_ok (queue_size, wrap_bit) head (gcip_circ_queue_inc tail 1 queue_size wrap_bit)) \<and>
    (n \<le> gcip_circ_queue_cnt head tail queue_size wrap_bit \<longrightarrow>
      circ_contents mem queue_size wrap_bit (gcip_circ_queue_inc head n queue_size wrap_bit) tail =
        drop (unat n) (circ_contents mem queue_size wrap_bit head tail) \<and>
      circ_ok (queue_size, wrap_bit) (gcip_circ_queue_inc head n queue_size wrap_bit) tail)"
  using circ.push_contents [OF assms, of mem x] circ.ok_push [OF assms, of 1]
    circ.pop_contents [OF assms, of "unat n" mem] circ.ok_pop [OF assms, of "unat n"]
  by (auto simp: circ_contents_def circ_cnt_def circ_inc_def circ_slot_def word_less_nat_alt
      word_le_nat_alt)

lemma circ_ok_example: "circ_ok (4, 8) 3 9"
proof -
  have "\<exists>k < 32. (8::u32) = 2 ^ k" by (rule exI [of _ 3]) simp
  then show ?thesis
    by (simp add: circ_ok_def circ_valid_def circ_geometry_def gcip_valid_circ_queue_size_def
        circ_pos_def ring_dist_def circ_defs)
qed

theorem gcip_circ_queue_cnt_correct_witness:
  "unat (gcip_circ_queue_cnt 3 9 4 8) =
    (let d = ring_dist (unat (4::u32)) (circ_pos 4 8 3) (circ_pos 4 8 9)
     in if d \<le> unat (4::u32) then d else 0) \<and> gcip_circ_queue_cnt 3 9 4 8 = 2"
  using gcip_circ_queue_cnt_correct [of 4 8 3 9] circ_okD(1,2) [OF circ_ok_example]
  by (simp add: gcip_circ_queue_cnt_def circ_defs)

theorem circ_queue_refines_list_witness:
  "circ_ok (4, 8) 3 9 \<and>
   circ_contents ((\<lambda>i. i)(1 := 77)) 4 8 3 10 = circ_contents (\<lambda>i. i) 4 8 3 9 @ [77] \<and>
   circ_contents (\<lambda>i. i) 4 8 9 9 = drop 2 (circ_contents (\<lambda>i. i) 4 8 3 9)"
  using circ_queue_refines_list [OF circ_ok_example, of "\<lambda>i. i" 77 2] circ_ok_example
  by (simp add: gcip_circ_queue_cnt_def gcip_circ_queue_inc_def circ_defs)

end
