(* ===== verification/Mailbox.thy ===== *)
theory Mailbox
  imports Circ_Queue
begin

text \<open>
  The generic mailbox of \<^verbatim>\<open>drivers/gcip/gcip-mailbox.c\<close> and \<^verbatim>\<open>include/gcip/gcip-mailbox.h\<close>.

  One mailbox is one record. The element types of the two queues are the type variables \<open>'c\<close>
  (what the host transmits) and \<open>'r\<close> (what it receives); a queue is its memory, indexed by element.
  The objects that the code reaches through pointers (response buffers, \<open>async_resp\<close> structures,
  awaiters) live in stores indexed by their address. Dereferencing a null pointer, touching an
  awaiter that was freed, and dropping a reference that is not there all set \<open>mb_fault\<close>. The user
  data of the mailbox (registers, locks, chip state) is \<open>mb_world\<close>.

  The operators \<open>gcip_mailbox_ops\<close> are a record of optional functions on the mailbox state, since
  the code tests each pointer for null. The kernel services the code calls (allocation, waiting for
  an event, waiting for a running work) are the functions of a record \<open>kernel\<close>. Locks are taken and
  released through the operators; a section under a lock is one step of the model. Log messages are
  not part of the model.
\<close>

section \<open>Constants\<close>

definition GCIP_MAILBOX_MODE_TX_CMD :: u8 where "GCIP_MAILBOX_MODE_TX_CMD = 1"
definition GCIP_MAILBOX_MODE_RX_RSP :: u8 where "GCIP_MAILBOX_MODE_RX_RSP = 2"
definition GCIP_MAILBOX_MODE_RX_CMD :: u8 where "GCIP_MAILBOX_MODE_RX_CMD = 4"
definition GCIP_MAILBOX_MODE_TX_RSP :: u8 where "GCIP_MAILBOX_MODE_TX_RSP = 8"
definition GCIP_MAILBOX_MODE_FORWARD :: u8 where
  "GCIP_MAILBOX_MODE_FORWARD = GCIP_MAILBOX_MODE_TX_CMD OR GCIP_MAILBOX_MODE_RX_RSP"
definition GCIP_MAILBOX_MODE_BACKWARD :: u8 where
  "GCIP_MAILBOX_MODE_BACKWARD = GCIP_MAILBOX_MODE_RX_CMD OR GCIP_MAILBOX_MODE_TX_RSP"
definition GCIP_MAILBOX_MODE_ALL :: u8 where
  "GCIP_MAILBOX_MODE_ALL = GCIP_MAILBOX_MODE_FORWARD OR GCIP_MAILBOX_MODE_BACKWARD"

lemmas mode_defs = GCIP_MAILBOX_MODE_TX_CMD_def GCIP_MAILBOX_MODE_RX_RSP_def
  GCIP_MAILBOX_MODE_RX_CMD_def GCIP_MAILBOX_MODE_TX_RSP_def GCIP_MAILBOX_MODE_FORWARD_def
  GCIP_MAILBOX_MODE_BACKWARD_def GCIP_MAILBOX_MODE_ALL_def

definition GCIP_MAILBOX_STATUS_OK :: u16 where "GCIP_MAILBOX_STATUS_OK = 0"
definition GCIP_MAILBOX_STATUS_WAITING_RESPONSE :: u16 where
  "GCIP_MAILBOX_STATUS_WAITING_RESPONSE = 1"

definition GCIP_MAILBOX_CMD_FLAGS_SKIP_ASSIGN_SEQ :: u32 where
  "GCIP_MAILBOX_CMD_FLAGS_SKIP_ASSIGN_SEQ = 1"
definition GCIP_MAILBOX_CMD_FLAGS_NO_TIMEOUT :: u32 where
  "GCIP_MAILBOX_CMD_FLAGS_NO_TIMEOUT = 2"

section \<open>State\<close>

record async_resp =
  ar_status :: u16
  ar_resp :: "ptr option"

text \<open>A delayed work is idle, pending with its delay in milliseconds, or running.\<close>

datatype delayed_work = WorkIdle | WorkPending u32 | WorkRunning

text \<open>
  The \<open>async_resp\<close> of an awaiter is its first member, so its address is that of the awaiter.
  \<open>aw_release_data\<close> tells whether the callback pointer copied from the operators is not null.
\<close>

record 'd resp_awaiter =
  aw_timeout_work :: delayed_work
  aw_data :: 'd
  aw_refs :: nat
  aw_release_data :: bool

record wait_list_elem =
  wl_async_resp :: ptr
  wl_awaiter :: "ptr option"

record ('c, 'r, 'd, 'w) mailbox =
  mb_mode :: u8
  mb_queue_wrap_bit :: u64
  mb_cur_seq :: u64
  mb_tx_queue :: "nat \<Rightarrow> 'c"
  mb_rx_queue :: "nat \<Rightarrow> 'r"
  mb_wait_list :: "wait_list_elem list"
  mb_timeout :: u32
  mb_ops :: bool
  mb_async_resps :: "ptr \<Rightarrow> async_resp"
  mb_resp_bufs :: "ptr \<Rightarrow> 'r"
  mb_awaiters :: "ptr \<rightharpoonup> 'd resp_awaiter"
  mb_fault :: bool
  mb_world :: 'w

text \<open>
  The lock operators take the \<open>try\<close> argument and the incoming value of \<open>*atomic\<close> and give the
  return value and the new \<open>*atomic\<close>. Reading the receive tail is a step of the state, since the
  device may publish more elements between two reads.
\<close>

record ('c, 'r, 'd, 's) mailbox_ops =
  op_get_tx_queue_tail :: "('s \<Rightarrow> u32) option"
  op_inc_tx_queue_tail :: "(u32 \<Rightarrow> 's \<Rightarrow> 's) option"
  op_acquire_tx_queue_lock :: "(bool \<Rightarrow> bool \<Rightarrow> 's \<Rightarrow> int \<times> bool \<times> 's) option"
  op_release_tx_queue_lock :: "('s \<Rightarrow> 's) option"
  op_get_cmd_elem_seq :: "('c \<Rightarrow> u64) option"
  op_set_cmd_elem_seq :: "('c \<Rightarrow> u64 \<Rightarrow> 'c) option"
  op_wait_for_tx_queue_not_full :: "('s \<Rightarrow> int \<times> 's) option"
  op_get_rx_queue_size :: "('s \<Rightarrow> u32) option"
  op_get_rx_queue_head :: "('s \<Rightarrow> u32) option"
  op_get_rx_queue_tail :: "('s \<Rightarrow> u32 \<times> 's) option"
  op_inc_rx_queue_head :: "(u32 \<Rightarrow> 's \<Rightarrow> 's) option"
  op_acquire_rx_queue_lock :: "(bool \<Rightarrow> bool \<Rightarrow> 's \<Rightarrow> int \<times> bool \<times> 's) option"
  op_release_rx_queue_lock :: "('s \<Rightarrow> 's) option"
  op_get_resp_elem_seq :: "('r \<Rightarrow> u64) option"
  op_set_resp_elem_seq :: "('r \<Rightarrow> u64 \<Rightarrow> 'r) option"
  op_is_rx_elem_reversed :: "('r \<Rightarrow> 's \<Rightarrow> bool) option"
  op_handle_reversed_command :: "('r \<Rightarrow> 's \<Rightarrow> int \<times> 's) option"
  op_before_enqueue_wait_list :: "(ptr \<Rightarrow> ptr option \<Rightarrow> 's \<Rightarrow> int \<times> 's) option"
  op_after_enqueue_cmd :: "('c \<Rightarrow> 's \<Rightarrow> int \<times> 's) option"
  op_after_fetch_resps :: "(u32 \<Rightarrow> 's \<Rightarrow> 's) option"
  op_handle_awaiter_arrived :: "(ptr \<Rightarrow> 's \<Rightarrow> 's) option"
  op_handle_awaiter_timedout :: "(ptr \<Rightarrow> 's \<Rightarrow> 's) option"
  op_handle_awaiter_flushed :: "(ptr \<Rightarrow> 's \<Rightarrow> 's) option"
  op_release_awaiter_data :: "('d \<Rightarrow> 's \<Rightarrow> 's) option"
  op_is_block_off :: "('s \<Rightarrow> bool) option"
  op_get_cmd_timeout :: "('c \<Rightarrow> ptr option \<Rightarrow> 'd \<Rightarrow> 's \<Rightarrow> u32) option"
  op_on_error :: "(int \<Rightarrow> 's \<Rightarrow> 's) option"
  op_does_response_match_waiter :: "('r \<Rightarrow> 'r \<Rightarrow> bool) option"

type_synonym ('c, 'r, 'd, 'w) mbox_ops = "('c, 'r, 'd, ('c, 'r, 'd, 'w) mailbox) mailbox_ops"

text \<open>
  Kernel services: \<open>kzalloc\<close> with the atomic flag, \<open>krealloc\<close> of a number of elements (whether it
  succeeded), \<open>wait_event_timeout\<close> with a condition and a delay (0 when it timed out), and waiting
  until the running timeout work of an awaiter has finished.
\<close>

record 's kernel =
  k_kzalloc :: "bool \<Rightarrow> 's \<Rightarrow> ptr option \<times> 's"
  k_krealloc :: "u32 \<Rightarrow> bool \<Rightarrow> 's \<Rightarrow> bool \<times> 's"
  k_wait_event_timeout :: "('s \<Rightarrow> bool) \<Rightarrow> u32 \<Rightarrow> 's \<Rightarrow> int \<times> 's"
  k_wait_work :: "ptr \<Rightarrow> 's \<Rightarrow> 's"

type_synonym ('c, 'r, 'd, 'w) mbox_kernel = "('c, 'r, 'd, 'w) mailbox kernel"

section \<open>Awaiters\<close>

definition fault :: "('c, 'r, 'd, 'w) mailbox \<Rightarrow> ('c, 'r, 'd, 'w) mailbox" where
  "fault s = s\<lparr>mb_fault := True\<rparr>"

definition set_awaiter ::
  "ptr \<Rightarrow> 'd resp_awaiter \<Rightarrow> ('c, 'r, 'd, 'w) mailbox \<Rightarrow> ('c, 'r, 'd, 'w) mailbox" where
  "set_awaiter p a s = s\<lparr>mb_awaiters := (mb_awaiters s)(p \<mapsto> a)\<rparr>"

definition gcip_mailbox_awaiter_release ::
  "('c, 'r, 'd, 'w) mbox_ops \<Rightarrow> ptr \<Rightarrow> ('c, 'r, 'd, 'w) mailbox \<Rightarrow> ('c, 'r, 'd, 'w) mailbox" where
  "gcip_mailbox_awaiter_release ops p s =
     (case mb_awaiters s p of
        None \<Rightarrow> fault s
      | Some a \<Rightarrow>
          let s = (if aw_release_data a
                   then (case op_release_awaiter_data ops of
                           Some f \<Rightarrow> f (aw_data a) s | None \<Rightarrow> fault s)
                   else s)
          in s\<lparr>mb_awaiters := (mb_awaiters s)(p := None)\<rparr>)"

definition gcip_mailbox_awaiter_dec_refs ::
  "('c, 'r, 'd, 'w) mbox_ops \<Rightarrow> ptr \<Rightarrow> ('c, 'r, 'd, 'w) mailbox \<Rightarrow> ('c, 'r, 'd, 'w) mailbox" where
  "gcip_mailbox_awaiter_dec_refs ops p s =
     (case mb_awaiters s p of
        None \<Rightarrow> fault s
      | Some a \<Rightarrow>
          if aw_refs a = 0 then fault s
          else let s = set_awaiter p (a\<lparr>aw_refs := aw_refs a - 1\<rparr>) s
               in if aw_refs a = 1 then gcip_mailbox_awaiter_release ops p s else s)"

definition refcount_inc_awaiter ::
  "ptr \<Rightarrow> ('c, 'r, 'd, 'w) mailbox \<Rightarrow> ('c, 'r, 'd, 'w) mailbox" where
  "refcount_inc_awaiter p s =
     (case mb_awaiters s p of
        None \<Rightarrow> fault s
      | Some a \<Rightarrow> if aw_refs a = 0 then fault s
                 else set_awaiter p (a\<lparr>aw_refs := aw_refs a + 1\<rparr>) s)"

text \<open>
  \<open>cancel_delayed_work\<close> cancels a pending work and tells whether there was one;
  \<open>cancel_delayed_work_sync\<close> also waits for a running one.
\<close>

definition cancel_delayed_work ::
  "ptr \<Rightarrow> ('c, 'r, 'd, 'w) mailbox \<Rightarrow> bool \<times> ('c, 'r, 'd, 'w) mailbox" where
  "cancel_delayed_work p s =
     (case mb_awaiters s p of
        None \<Rightarrow> (False, fault s)
      | Some a \<Rightarrow>
          (case aw_timeout_work a of
             WorkPending d \<Rightarrow> (True, set_awaiter p (a\<lparr>aw_timeout_work := WorkIdle\<rparr>) s)
           | _ \<Rightarrow> (False, s)))"

definition cancel_delayed_work_sync ::
  "('c, 'r, 'd, 'w) mbox_kernel \<Rightarrow> ptr \<Rightarrow> ('c, 'r, 'd, 'w) mailbox \<Rightarrow>
     bool \<times> ('c, 'r, 'd, 'w) mailbox" where
  "cancel_delayed_work_sync K p s =
     (case mb_awaiters s p of
        None \<Rightarrow> (False, fault s)
      | Some a \<Rightarrow>
          (case aw_timeout_work a of
             WorkPending d \<Rightarrow> (True, set_awaiter p (a\<lparr>aw_timeout_work := WorkIdle\<rparr>) s)
           | WorkIdle \<Rightarrow> (False, s)
           | WorkRunning \<Rightarrow> (False, k_wait_work K p s)))"

definition gcip_mailbox_cancel_awaiter_timeout ::
  "('c, 'r, 'd, 'w) mbox_kernel \<Rightarrow> ('c, 'r, 'd, 'w) mbox_ops \<Rightarrow> ptr \<Rightarrow>
     ('c, 'r, 'd, 'w) mailbox \<Rightarrow> ('c, 'r, 'd, 'w) mailbox" where
  "gcip_mailbox_cancel_awaiter_timeout K ops p s =
     (let (cancelled, s) = cancel_delayed_work_sync K p s
      in if cancelled then gcip_mailbox_awaiter_dec_refs ops p s else s)"

definition gcip_mailbox_release_awaiter ::
  "('c, 'r, 'd, 'w) mbox_ops \<Rightarrow> ptr \<Rightarrow> ('c, 'r, 'd, 'w) mailbox \<Rightarrow> ('c, 'r, 'd, 'w) mailbox" where
  "gcip_mailbox_release_awaiter ops p s = gcip_mailbox_awaiter_dec_refs ops p s"

section \<open>The wait list\<close>

text \<open>The first element of a list with a property, and the list without it.\<close>

fun take_first :: "('a \<Rightarrow> bool) \<Rightarrow> 'a list \<Rightarrow> ('a \<times> 'a list) option" where
  "take_first P [] = None"
| "take_first P (x # xs) =
     (if P x then Some (x, xs) else map_option (\<lambda>(y, ys). (y, x # ys)) (take_first P xs))"

definition resp_seq ::
  "('c, 'r, 'd, 'w) mbox_ops \<Rightarrow> ('c, 'r, 'd, 'w) mailbox \<Rightarrow> ptr \<Rightarrow> u64 option" where
  "resp_seq ops s ar =
     map_option (\<lambda>b. the (op_get_resp_elem_seq ops) (mb_resp_bufs s b)) (ar_resp (mb_async_resps s ar))"

definition gcip_mailbox_del_wait_resp ::
  "('c, 'r, 'd, 'w) mbox_ops \<Rightarrow> ptr \<Rightarrow> ('c, 'r, 'd, 'w) mailbox \<Rightarrow>
     bool \<times> ('c, 'r, 'd, 'w) mailbox" where
  "gcip_mailbox_del_wait_resp ops ar s =
     (case resp_seq ops s ar of
        None \<Rightarrow> (False, fault s)
      | Some seq \<Rightarrow>
          (case take_first (\<lambda>cur. resp_seq ops s (wl_async_resp cur) = Some seq) (mb_wait_list s) of
             None \<Rightarrow> (False, s)
           | Some (cur, rest) \<Rightarrow>
               let s = s\<lparr>mb_wait_list := rest\<rparr>;
                   s = (case wl_awaiter cur of
                          Some p \<Rightarrow> gcip_mailbox_awaiter_dec_refs ops p s
                        | None \<Rightarrow> s)
               in (True, s)))"

definition gcip_mailbox_push_wait_resp ::
  "('c, 'r, 'd, 'w) mbox_kernel \<Rightarrow> ('c, 'r, 'd, 'w) mbox_ops \<Rightarrow> ptr \<Rightarrow> ptr option \<Rightarrow> bool \<Rightarrow>
     ('c, 'r, 'd, 'w) mailbox \<Rightarrow> int \<times> ('c, 'r, 'd, 'w) mailbox" where
  "gcip_mailbox_push_wait_resp K ops ar awaiter atomic s =
     (let (entry, s) = k_kzalloc K atomic s
      in if entry = None then (- ENOMEM, s)
         else
           let (ret, s) = (case op_before_enqueue_wait_list ops of
                             Some f \<Rightarrow> f (the (ar_resp (mb_async_resps s ar))) awaiter s
                           | None \<Rightarrow> (0, s))
           in if ret \<noteq> 0 then (ret, s)
              else
                let s = (case awaiter of Some p \<Rightarrow> refcount_inc_awaiter p s | None \<Rightarrow> s)
                in (0, s\<lparr>mb_wait_list := mb_wait_list s @
                          [\<lparr>wl_async_resp = ar, wl_awaiter = awaiter\<rparr>]\<rparr>))"

section \<open>Sending commands\<close>

text \<open>The locked increment returns \<open>uint\<close>, 32 bits, of the 64-bit sequence number.\<close>

definition gcip_mailbox_inc_seq_num_locked ::
  "u32 \<Rightarrow> ('c, 'r, 'd, 'w) mailbox \<Rightarrow> u32 \<times> ('c, 'r, 'd, 'w) mailbox" where
  "gcip_mailbox_inc_seq_num_locked n s =
     (let ret = ucast (mb_cur_seq s)
      in (ret, s\<lparr>mb_cur_seq := mb_cur_seq s + ucast n\<rparr>))"

definition gcip_mailbox_inc_seq_num ::
  "('c, 'r, 'd, 'w) mbox_ops \<Rightarrow> u32 \<Rightarrow> ('c, 'r, 'd, 'w) mailbox \<Rightarrow>
     u32 \<times> ('c, 'r, 'd, 'w) mailbox" where
  "gcip_mailbox_inc_seq_num ops n s =
     (let (_, _, s) = the (op_acquire_tx_queue_lock ops) False False s;
          (ret, s) = gcip_mailbox_inc_seq_num_locked n s
      in (ret, the (op_release_tx_queue_lock ops) s))"

definition should_maintain_seq_num :: "u8 \<Rightarrow> bool" where
  "should_maintain_seq_num mode \<longleftrightarrow>
     c_true (mode AND GCIP_MAILBOX_MODE_TX_CMD) \<and> c_true (mode AND GCIP_MAILBOX_MODE_RX_RSP)"

definition assigns_seq :: "u32 \<Rightarrow> ('c, 'r, 'd, 'w) mailbox \<Rightarrow> bool" where
  "assigns_seq flags s \<longleftrightarrow> should_maintain_seq_num (mb_mode s) \<and>
     \<not> c_true (flags AND GCIP_MAILBOX_CMD_FLAGS_SKIP_ASSIGN_SEQ)"

text \<open>Registers the response of \<open>cmd\<close> in the wait list: the code under \<open>if (async_resp->resp)\<close>.\<close>

definition enqueue_wait_resp ::
  "('c, 'r, 'd, 'w) mbox_kernel \<Rightarrow> ('c, 'r, 'd, 'w) mbox_ops \<Rightarrow> 'c \<Rightarrow> ptr \<Rightarrow> ptr option \<Rightarrow> bool \<Rightarrow>
     ('c, 'r, 'd, 'w) mailbox \<Rightarrow> int \<times> ('c, 'r, 'd, 'w) mailbox" where
  "enqueue_wait_resp K ops cmd ar awaiter atomic s =
     (case ar_resp (mb_async_resps s ar) of
        None \<Rightarrow> (0, s)
      | Some b \<Rightarrow>
          let s = s\<lparr>mb_resp_bufs := (mb_resp_bufs s)
                    (b := the (op_set_resp_elem_seq ops) (mb_resp_bufs s b)
                            (the (op_get_cmd_elem_seq ops) cmd))\<rparr>;
              s = s\<lparr>mb_async_resps := (mb_async_resps s)
                    (ar := (mb_async_resps s ar)
                       \<lparr>ar_status := GCIP_MAILBOX_STATUS_WAITING_RESPONSE\<rparr>)\<rparr>
          in gcip_mailbox_push_wait_resp K ops ar awaiter atomic s)"

text \<open>Writes \<open>cmd\<close> to the slot of the tail and moves the tail.\<close>

definition enqueue_copy ::
  "('c, 'r, 'd, 'w) mbox_ops \<Rightarrow> 'c \<Rightarrow> ('c, 'r, 'd, 'w) mailbox \<Rightarrow> ('c, 'r, 'd, 'w) mailbox" where
  "enqueue_copy ops cmd s =
     (let i = CIRC_QUEUE_REAL_INDEX (ucast (the (op_get_tx_queue_tail ops) s)) (mb_queue_wrap_bit s);
          s = s\<lparr>mb_tx_queue := (mb_tx_queue s)(unat i := cmd)\<rparr>
      in the (op_inc_tx_queue_tail ops) 1 s)"

text \<open>
  The section between acquiring and releasing the transmit lock; a \<open>goto out\<close> is an early result.
  The command is returned too, since its sequence number is written in the caller's object.
\<close>

definition enqueue_cmd_locked ::
  "('c, 'r, 'd, 'w) mbox_kernel \<Rightarrow> ('c, 'r, 'd, 'w) mbox_ops \<Rightarrow> 'c \<Rightarrow> ptr \<Rightarrow> ptr option \<Rightarrow> u32 \<Rightarrow>
     bool \<Rightarrow> ('c, 'r, 'd, 'w) mailbox \<Rightarrow> int \<times> 'c \<times> ('c, 'r, 'd, 'w) mailbox" where
  "enqueue_cmd_locked K ops cmd ar awaiter flags atomic s =
     (let cmd = (if assigns_seq flags s then the (op_set_cmd_elem_seq ops) cmd (mb_cur_seq s) else cmd);
          (ret, s) = the (op_wait_for_tx_queue_not_full ops) s
      in if ret \<noteq> 0 then (ret, cmd, s)
         else
           let (ret, s) = enqueue_wait_resp K ops cmd ar awaiter atomic s
           in if ret \<noteq> 0 then (ret, cmd, s)
              else
                let s = enqueue_copy ops cmd s;
                    (ret, s) = (case op_after_enqueue_cmd ops of
                                  Some f \<Rightarrow> f cmd s | None \<Rightarrow> (0, s))
                in if ret \<noteq> 0 then (ret, cmd, s)
                   else
                     let s = (if assigns_seq flags s
                              then snd (gcip_mailbox_inc_seq_num_locked 1 s) else s)
                     in (0, cmd, s))"

definition gcip_mailbox_enqueue_cmd ::
  "('c, 'r, 'd, 'w) mbox_kernel \<Rightarrow> ('c, 'r, 'd, 'w) mbox_ops \<Rightarrow> 'c \<Rightarrow> ptr \<Rightarrow> ptr option \<Rightarrow> u32 \<Rightarrow>
     ('c, 'r, 'd, 'w) mailbox \<Rightarrow> int \<times> 'c \<times> ('c, 'r, 'd, 'w) mailbox" where
  "gcip_mailbox_enqueue_cmd K ops cmd ar awaiter flags s =
     (let (_, atomic, s) = the (op_acquire_tx_queue_lock ops) False False s;
          (ret, cmd, s) = enqueue_cmd_locked K ops cmd ar awaiter flags atomic s
      in (ret, cmd, the (op_release_tx_queue_lock ops) s))"

section \<open>Receiving responses\<close>

definition does_response_match_waiter ::
  "('c, 'r, 'd, 'w) mbox_ops \<Rightarrow> 'r \<Rightarrow> 'r \<Rightarrow> bool" where
  "does_response_match_waiter ops incoming_resp waiting_resp =
     (case op_does_response_match_waiter ops of
        Some f \<Rightarrow> f incoming_resp waiting_resp
      | None \<Rightarrow> the (op_get_resp_elem_seq ops) incoming_resp =
                the (op_get_resp_elem_seq ops) waiting_resp)"

text \<open>
  The section under \<open>wait_list_lock\<close>: the first waiter that matches gets the response and the
  status, and leaves the list; its awaiter is returned.
\<close>

definition waiter_matches ::
  "('c, 'r, 'd, 'w) mbox_ops \<Rightarrow> 'r \<Rightarrow> ('c, 'r, 'd, 'w) mailbox \<Rightarrow> wait_list_elem \<Rightarrow> bool" where
  "waiter_matches ops resp s cur =
     (case ar_resp (mb_async_resps s (wl_async_resp cur)) of
        Some b \<Rightarrow> does_response_match_waiter ops resp (mb_resp_bufs s b)
      | None \<Rightarrow> False)"

definition handle_response_locked ::
  "('c, 'r, 'd, 'w) mbox_ops \<Rightarrow> 'r \<Rightarrow> ('c, 'r, 'd, 'w) mailbox \<Rightarrow>
     ptr option \<times> ('c, 'r, 'd, 'w) mailbox" where
  "handle_response_locked ops resp s =
     (case take_first (waiter_matches ops resp s) (mb_wait_list s) of
        None \<Rightarrow> (None, s)
      | Some (cur, rest) \<Rightarrow>
          let ar = wl_async_resp cur;
              b = the (ar_resp (mb_async_resps s ar));
              s = s\<lparr>mb_resp_bufs := (mb_resp_bufs s)(b := resp)\<rparr>;
              s = s\<lparr>mb_async_resps := (mb_async_resps s)
                    (ar := (mb_async_resps s ar)\<lparr>ar_status := GCIP_MAILBOX_STATUS_OK\<rparr>)\<rparr>
          in (wl_awaiter cur, s\<lparr>mb_wait_list := rest\<rparr>))"

definition gcip_mailbox_handle_response ::
  "('c, 'r, 'd, 'w) mbox_ops \<Rightarrow> 'r \<Rightarrow> ('c, 'r, 'd, 'w) mailbox \<Rightarrow> ('c, 'r, 'd, 'w) mailbox" where
  "gcip_mailbox_handle_response ops resp s =
     (let (awaiter, s) = handle_response_locked ops resp s
      in case awaiter of
           None \<Rightarrow> s
         | Some p \<Rightarrow>
             let (cancelled, s) = cancel_delayed_work p s;
                 s = (if cancelled then gcip_mailbox_awaiter_dec_refs ops p s else s);
                 s = (case op_handle_awaiter_arrived ops of Some f \<Rightarrow> f p s | None \<Rightarrow> s)
             in gcip_mailbox_awaiter_dec_refs ops p s)"

definition gcip_mailbox_handle_rx_elem ::
  "('c, 'r, 'd, 'w) mbox_ops \<Rightarrow> 'r \<Rightarrow> ('c, 'r, 'd, 'w) mailbox \<Rightarrow> ('c, 'r, 'd, 'w) mailbox" where
  "gcip_mailbox_handle_rx_elem ops elem s =
     (let is_reversed_cmd = (case op_is_rx_elem_reversed ops of
                               Some f \<Rightarrow> f elem s
                             | None \<Rightarrow> c_true (mb_mode s AND GCIP_MAILBOX_MODE_RX_CMD))
      in if is_reversed_cmd then snd (the (op_handle_reversed_command ops) elem s)
         else gcip_mailbox_handle_response ops elem s)"

text \<open>
  The pointer that \<open>gcip_mailbox_fetch_responses\<close> returns: null, an error pointer, or an array.
\<close>

datatype 'r fetched = FetchNull | FetchErr int | FetchArr "'r list"

definition IS_BLOCK_OFF :: "('c, 'r, 'd, 'w) mbox_ops \<Rightarrow> ('c, 'r, 'd, 'w) mailbox \<Rightarrow> bool" where
  "IS_BLOCK_OFF ops s = (case op_is_block_off ops of Some f \<Rightarrow> f s | None \<Rightarrow> False)"

text \<open>The copy loop: \<open>count\<close> elements of the queue memory from slot \<open>j\<close> on, modulo \<open>size\<close>.\<close>

fun copy_resps :: "(nat \<Rightarrow> 'r) \<Rightarrow> u32 \<Rightarrow> nat \<Rightarrow> u32 \<Rightarrow> 'r list" where
  "copy_resps mem sz 0 j = []"
| "copy_resps mem sz (Suc i) j = mem (unat j) # copy_resps mem sz i ((j + 1) mod sz)"

fun fetched_list :: "'r fetched \<Rightarrow> 'r list" where
  "fetched_list (FetchArr rs) = rs"
| "fetched_list _ = []"

text \<open>The \<open>while (1)\<close> loop. It need not end, since the device may keep publishing elements.\<close>

partial_function (option) fetch_loop ::
  "('c, 'r, 'd, 'w) mbox_kernel \<Rightarrow> ('c, 'r, 'd, 'w) mbox_ops \<Rightarrow> u32 \<Rightarrow> u32 \<Rightarrow> bool \<Rightarrow> u32 \<Rightarrow>
     'r fetched \<Rightarrow> u32 \<Rightarrow> ('c, 'r, 'd, 'w) mailbox \<Rightarrow>
     ('r fetched \<times> u32 \<times> ('c, 'r, 'd, 'w) mailbox) option" where
  "fetch_loop K ops sz wrap_bit atomic head ret tot s =
     (case the (op_get_rx_queue_tail ops) s of (tail, s) \<Rightarrow>
        if c_true (tail AND NOT (CIRC_QUEUE_VALID_MASK wrap_bit)) \<or>
           CIRC_QUEUE_REAL_INDEX tail wrap_bit \<ge> sz then Some (ret, tot, s)
        else
          let count = gcip_circ_queue_cnt head tail sz wrap_bit
          in if count = 0 then Some (ret, tot, s)
             else
               case k_krealloc K (tot + count) atomic s of (grown, s) \<Rightarrow>
                 if \<not> grown then
                   Some (if ret = FetchNull then FetchErr (- ENOMEM) else ret, tot, s)
                 else
                   let rs = copy_resps (mb_rx_queue s) sz (unat count)
                              (CIRC_QUEUE_REAL_INDEX head wrap_bit)
                   in fetch_loop K ops sz wrap_bit atomic
                        (gcip_circ_queue_inc head count sz wrap_bit)
                        (FetchArr (fetched_list ret @ rs)) (tot + count) s)"

definition gcip_mailbox_fetch_responses ::
  "('c, 'r, 'd, 'w) mbox_kernel \<Rightarrow> ('c, 'r, 'd, 'w) mbox_ops \<Rightarrow> bool \<Rightarrow>
     ('c, 'r, 'd, 'w) mailbox \<Rightarrow> ('r fetched \<times> u32 \<times> ('c, 'r, 'd, 'w) mailbox) option" where
  "gcip_mailbox_fetch_responses K ops trylock s =
     (let wrap_bit = ucast (mb_queue_wrap_bit s);
          sz = the (op_get_rx_queue_size ops) s
      in if IS_BLOCK_OFF ops s then Some (FetchNull, 0, s)
         else
           case the (op_acquire_rx_queue_lock ops) trylock False s of (acquired, atomic, s) \<Rightarrow>
             if acquired = 0 then Some (FetchNull, 0, s)
             else
               case fetch_loop K ops sz wrap_bit atomic (the (op_get_rx_queue_head ops) s)
                      FetchNull 0 s of
                 None \<Rightarrow> None
               | Some (ret, tot, s) \<Rightarrow>
                   let s = the (op_inc_rx_queue_head ops) tot s;
                       s = the (op_release_rx_queue_lock ops) s;
                       s = (case op_after_fetch_resps ops of Some f \<Rightarrow> f tot s | None \<Rightarrow> s)
                   in Some (ret, tot, s))"

text \<open>The result is the number of responses fetched, 0 or 1, with the response.\<close>

definition gcip_mailbox_fetch_one_response ::
  "('c, 'r, 'd, 'w) mbox_ops \<Rightarrow> ('c, 'r, 'd, 'w) mailbox \<Rightarrow>
     'r option \<times> ('c, 'r, 'd, 'w) mailbox" where
  "gcip_mailbox_fetch_one_response ops s =
     (if IS_BLOCK_OFF ops s then (None, s)
      else
        let (acquired, atomic, s) = the (op_acquire_rx_queue_lock ops) True False s
        in if acquired = 0 then (None, s)
           else
             let head = the (op_get_rx_queue_head ops) s;
                 (tail, s) = the (op_get_rx_queue_tail ops) s
             in if head = tail then (None, the (op_release_rx_queue_lock ops) s)
                else
                  let i = CIRC_QUEUE_REAL_INDEX (ucast head) (mb_queue_wrap_bit s);
                      resp = mb_rx_queue s (unat i);
                      s = the (op_inc_rx_queue_head ops) 1 s;
                      s = the (op_release_rx_queue_lock ops) s;
                      s = (case op_after_fetch_resps ops of Some f \<Rightarrow> f 1 s | None \<Rightarrow> s)
                  in (Some resp, s))"

fun handle_rx_elems ::
  "('c, 'r, 'd, 'w) mbox_ops \<Rightarrow> 'r list \<Rightarrow> ('c, 'r, 'd, 'w) mailbox \<Rightarrow> ('c, 'r, 'd, 'w) mailbox" where
  "handle_rx_elems ops [] s = s"
| "handle_rx_elems ops (r # rs) s = handle_rx_elems ops rs (gcip_mailbox_handle_rx_elem ops r s)"

definition gcip_mailbox_do_consume_responses ::
  "('c, 'r, 'd, 'w) mbox_kernel \<Rightarrow> ('c, 'r, 'd, 'w) mbox_ops \<Rightarrow> bool \<Rightarrow>
     ('c, 'r, 'd, 'w) mailbox \<Rightarrow> ('c, 'r, 'd, 'w) mailbox option" where
  "gcip_mailbox_do_consume_responses K ops trylock s =
     (case gcip_mailbox_fetch_responses K ops trylock s of
        None \<Rightarrow> None
      | Some (responses, count, s) \<Rightarrow>
          if count = 0 then Some s
          else
            case responses of
              FetchErr e \<Rightarrow> Some s
            | _ \<Rightarrow> Some (handle_rx_elems ops (take (unat count) (fetched_list responses)) s))"

definition gcip_mailbox_consume_responses_work ::
  "('c, 'r, 'd, 'w) mbox_kernel \<Rightarrow> ('c, 'r, 'd, 'w) mbox_ops \<Rightarrow>
     ('c, 'r, 'd, 'w) mailbox \<Rightarrow> ('c, 'r, 'd, 'w) mailbox option" where
  "gcip_mailbox_consume_responses_work K ops s = gcip_mailbox_do_consume_responses K ops True s"

definition gcip_mailbox_consume_responses ::
  "('c, 'r, 'd, 'w) mbox_kernel \<Rightarrow> ('c, 'r, 'd, 'w) mbox_ops \<Rightarrow>
     ('c, 'r, 'd, 'w) mailbox \<Rightarrow> ('c, 'r, 'd, 'w) mailbox option" where
  "gcip_mailbox_consume_responses K ops s = gcip_mailbox_do_consume_responses K ops False s"

definition gcip_mailbox_consume_one_response ::
  "('c, 'r, 'd, 'w) mbox_ops \<Rightarrow> ('c, 'r, 'd, 'w) mailbox \<Rightarrow> ('c, 'r, 'd, 'w) mailbox" where
  "gcip_mailbox_consume_one_response ops s =
     (case gcip_mailbox_fetch_one_response ops s of
        (None, s) \<Rightarrow> s
      | (Some resp, s) \<Rightarrow> gcip_mailbox_handle_rx_elem ops resp s)"

section \<open>Timeouts, cancellation and flushing\<close>

text \<open>The handler of the timeout work of awaiter \<open>p\<close>.\<close>

definition gcip_mailbox_async_cmd_timeout_work ::
  "('c, 'r, 'd, 'w) mbox_ops \<Rightarrow> ptr \<Rightarrow> ('c, 'r, 'd, 'w) mailbox \<Rightarrow> ('c, 'r, 'd, 'w) mailbox" where
  "gcip_mailbox_async_cmd_timeout_work ops p s =
     (let (removed, s) = gcip_mailbox_del_wait_resp ops p s;
          s = (case op_handle_awaiter_timedout ops of
                 Some f \<Rightarrow> if removed then f p s else s
               | None \<Rightarrow> s)
      in gcip_mailbox_awaiter_dec_refs ops p s)"

definition gcip_mailbox_cancel_awaiter ::
  "('c, 'r, 'd, 'w) mbox_kernel \<Rightarrow> ('c, 'r, 'd, 'w) mbox_ops \<Rightarrow> ptr \<Rightarrow>
     ('c, 'r, 'd, 'w) mailbox \<Rightarrow> bool \<times> ('c, 'r, 'd, 'w) mailbox" where
  "gcip_mailbox_cancel_awaiter K ops p s =
     (let (removed, s) = gcip_mailbox_del_wait_resp ops p s
      in (removed, gcip_mailbox_cancel_awaiter_timeout K ops p s))"

text \<open>
  The first loop of the flush, under \<open>wait_list_lock\<close>: every element leaves the wait list, those
  with an awaiter are collected in order and lose the reference of the arrived handler.
\<close>

fun flush_collect ::
  "('c, 'r, 'd, 'w) mbox_ops \<Rightarrow> wait_list_elem list \<Rightarrow> ('c, 'r, 'd, 'w) mailbox \<Rightarrow>
     ptr list \<times> ('c, 'r, 'd, 'w) mailbox" where
  "flush_collect ops [] s = ([], s)"
| "flush_collect ops (cur # nxt) s =
     (let s = s\<lparr>mb_wait_list := nxt\<rparr>
      in case wl_awaiter cur of
           Some p \<Rightarrow>
             let (ps, s) = flush_collect ops nxt (gcip_mailbox_awaiter_dec_refs ops p s)
             in (p # ps, s)
         | None \<Rightarrow> flush_collect ops nxt s)"

fun flush_resps ::
  "('c, 'r, 'd, 'w) mbox_kernel \<Rightarrow> ('c, 'r, 'd, 'w) mbox_ops \<Rightarrow> ptr list \<Rightarrow>
     ('c, 'r, 'd, 'w) mailbox \<Rightarrow> ('c, 'r, 'd, 'w) mailbox" where
  "flush_resps K ops [] s = s"
| "flush_resps K ops (p # ps) s =
     (let s = gcip_mailbox_cancel_awaiter_timeout K ops p s;
          s = (case op_handle_awaiter_flushed ops of
                 Some f \<Rightarrow> f p s
               | None \<Rightarrow> gcip_mailbox_awaiter_dec_refs ops p s)
      in flush_resps K ops ps s)"

definition gcip_mailbox_flush_awaiter ::
  "('c, 'r, 'd, 'w) mbox_kernel \<Rightarrow> ('c, 'r, 'd, 'w) mbox_ops \<Rightarrow>
     ('c, 'r, 'd, 'w) mailbox \<Rightarrow> ('c, 'r, 'd, 'w) mailbox" where
  "gcip_mailbox_flush_awaiter K ops s =
     (if \<not> mb_ops s then s
      else let (resps_to_flush, s) = flush_collect ops (mb_wait_list s) s
           in flush_resps K ops resps_to_flush s)"

section \<open>Set-up and the client calls\<close>

definition gcip_mailbox_ops_verify :: "('c, 'r, 'd, 's) mailbox_ops option \<Rightarrow> u8 \<Rightarrow> int" where
  "gcip_mailbox_ops_verify ops_ptr mode =
     (case ops_ptr of
        None \<Rightarrow> - EINVAL
      | Some ops \<Rightarrow>
          if (c_true (mode AND GCIP_MAILBOX_MODE_TX_CMD) \<or> c_true (mode AND GCIP_MAILBOX_MODE_TX_RSP)) \<and>
             (op_get_tx_queue_tail ops = None \<or> op_inc_tx_queue_tail ops = None \<or>
              op_acquire_tx_queue_lock ops = None \<or> op_release_tx_queue_lock ops = None \<or>
              op_wait_for_tx_queue_not_full ops = None)
          then - EINVAL
          else if (c_true (mode AND GCIP_MAILBOX_MODE_RX_RSP) \<or>
                   c_true (mode AND GCIP_MAILBOX_MODE_RX_CMD)) \<and>
             (op_get_rx_queue_size ops = None \<or> op_get_rx_queue_head ops = None \<or>
              op_get_rx_queue_tail ops = None \<or> op_inc_rx_queue_head ops = None \<or>
              op_acquire_rx_queue_lock ops = None \<or> op_release_rx_queue_lock ops = None)
          then - EINVAL
          else if should_maintain_seq_num mode \<and>
             (op_get_cmd_elem_seq ops = None \<or> op_set_cmd_elem_seq ops = None \<or>
              op_get_resp_elem_seq ops = None \<or> op_set_resp_elem_seq ops = None)
          then - EINVAL
          else if c_true (mode AND GCIP_MAILBOX_MODE_RX_CMD) \<and> op_handle_reversed_command ops = None
          then - EINVAL
          else if c_true (mode AND GCIP_MAILBOX_MODE_RX_RSP) \<and>
             c_true (mode AND GCIP_MAILBOX_MODE_RX_CMD) \<and> op_is_rx_elem_reversed ops = None
          then - EINVAL
          else 0)"

record ('c, 'r, 'd, 'w) mailbox_args =
  arg_mode :: u8
  arg_queue_wrap_bit :: u32
  arg_tx_queue :: "nat \<Rightarrow> 'c"
  arg_rx_queue :: "nat \<Rightarrow> 'r"
  arg_timeout :: u32
  arg_ops :: "('c, 'r, 'd, 'w) mbox_ops option"
  arg_data :: 'w

definition gcip_mailbox_init ::
  "('c, 'r, 'd, 'w) mailbox_args \<Rightarrow> ('c, 'r, 'd, 'w) mailbox \<Rightarrow> int \<times> ('c, 'r, 'd, 'w) mailbox" where
  "gcip_mailbox_init args s =
     (if \<not> c_true (arg_mode args) then (- EINVAL, s)
      else
        let ret = gcip_mailbox_ops_verify (arg_ops args) (arg_mode args)
        in if ret \<noteq> 0 then (ret, s)
           else (0, s\<lparr>mb_mode := arg_mode args,
                      mb_queue_wrap_bit := ucast (arg_queue_wrap_bit args),
                      mb_tx_queue := arg_tx_queue args,
                      mb_rx_queue := arg_rx_queue args,
                      mb_timeout := arg_timeout args,
                      mb_cur_seq := 0,
                      mb_ops := True,
                      mb_world := arg_data args,
                      mb_wait_list := []\<rparr>))"

definition gcip_mailbox_release ::
  "('c, 'r, 'd, 'w) mbox_kernel \<Rightarrow> ('c, 'r, 'd, 'w) mbox_ops \<Rightarrow>
     ('c, 'r, 'd, 'w) mailbox \<Rightarrow> ('c, 'r, 'd, 'w) mailbox" where
  "gcip_mailbox_release K ops s = (gcip_mailbox_flush_awaiter K ops s)\<lparr>mb_ops := False\<rparr>"

text \<open>
  The synchronous call. \<open>ar\<close> is the address of the \<open>async_resp\<close> on the caller's stack, \<open>resp\<close> that
  of the caller's buffer.
\<close>

definition on_error ::
  "('c, 'r, 'd, 'w) mbox_ops \<Rightarrow> int \<Rightarrow> ('c, 'r, 'd, 'w) mailbox \<Rightarrow> ('c, 'r, 'd, 'w) mailbox" where
  "on_error ops e s = (case op_on_error ops of Some f \<Rightarrow> f e s | None \<Rightarrow> s)"

definition gcip_mailbox_send_cmd ::
  "('c, 'r, 'd, 'w) mbox_kernel \<Rightarrow> ('c, 'r, 'd, 'w) mbox_ops \<Rightarrow> ptr \<Rightarrow> 'c \<Rightarrow> ptr option \<Rightarrow> u32 \<Rightarrow>
     ('c, 'r, 'd, 'w) mailbox \<Rightarrow> int \<times> ('c, 'r, 'd, 'w) mailbox" where
  "gcip_mailbox_send_cmd K ops ar cmd resp flags s =
     (let s = s\<lparr>mb_async_resps := (mb_async_resps s)(ar := \<lparr>ar_status = 0, ar_resp = resp\<rparr>)\<rparr>;
          (ret, cmd, s) = gcip_mailbox_enqueue_cmd K ops cmd ar None flags s
      in if ret \<noteq> 0 then (ret, on_error ops ret s)
         else if resp = None then (0, s)
         else
           let (left, s) = k_wait_event_timeout K
                 (\<lambda>s. ar_status (mb_async_resps s ar) \<noteq> GCIP_MAILBOX_STATUS_WAITING_RESPONSE)
                 (mb_timeout s) s
           in if left = 0 then
                let (_, s) = gcip_mailbox_del_wait_resp ops ar s
                in (- ETIMEDOUT, on_error ops (- ETIMEDOUT) s)
              else if ar_status (mb_async_resps s ar) \<noteq> GCIP_MAILBOX_STATUS_OK then
                (- ENOMSG, on_error ops (- ENOMSG) s)
              else (0, s))"

text \<open>The asynchronous call: an error number, or the address of the new awaiter.\<close>

definition gcip_mailbox_put_cmd_flags ::
  "('c, 'r, 'd, 'w) mbox_kernel \<Rightarrow> ('c, 'r, 'd, 'w) mbox_ops \<Rightarrow> 'c \<Rightarrow> ptr option \<Rightarrow> 'd \<Rightarrow> u32 \<Rightarrow>
     ('c, 'r, 'd, 'w) mailbox \<Rightarrow> (int + ptr) \<times> ('c, 'r, 'd, 'w) mailbox" where
  "gcip_mailbox_put_cmd_flags K ops cmd resp data flags s =
     (case k_kzalloc K False s of
        (None, s) \<Rightarrow> (Inl (- ENOMEM), s)
      | (Some p, s) \<Rightarrow>
          let timeout = (case op_get_cmd_timeout ops of
                           Some f \<Rightarrow> f cmd resp data s | None \<Rightarrow> mb_timeout s);
              timed = \<not> c_true (flags AND GCIP_MAILBOX_CMD_FLAGS_NO_TIMEOUT);
              a = \<lparr>aw_timeout_work = (if timed then WorkPending timeout else WorkIdle),
                   aw_data = data,
                   aw_refs = (if timed then 2 else 1),
                   aw_release_data = (op_release_awaiter_data ops \<noteq> None)\<rparr>;
              s = set_awaiter p a s;
              s = s\<lparr>mb_async_resps := (mb_async_resps s)(p := \<lparr>ar_status = 0, ar_resp = resp\<rparr>)\<rparr>;
              (ret, cmd, s) = gcip_mailbox_enqueue_cmd K ops cmd p (Some p) flags s
          in if ret \<noteq> 0 then
               let s = gcip_mailbox_cancel_awaiter_timeout K ops p s
               in (Inl ret, s\<lparr>mb_awaiters := (mb_awaiters s)(p := None)\<rparr>)
             else (Inr p, s))"

definition gcip_mailbox_put_cmd ::
  "('c, 'r, 'd, 'w) mbox_kernel \<Rightarrow> ('c, 'r, 'd, 'w) mbox_ops \<Rightarrow> 'c \<Rightarrow> ptr option \<Rightarrow> 'd \<Rightarrow>
     ('c, 'r, 'd, 'w) mailbox \<Rightarrow> (int + ptr) \<times> ('c, 'r, 'd, 'w) mailbox" where
  "gcip_mailbox_put_cmd K ops cmd resp data s = gcip_mailbox_put_cmd_flags K ops cmd resp data 0 s"

end
