(* ===== verification/Mailbox_Laws.thy ===== *)
theory Mailbox_Laws
  imports Mailbox
begin

text \<open>
  Correctness of the mailbox: what handling a response does to the wait list, the order of the wait
  list, fetching the receive queue, and the interfaces (locales) between the generic mailbox and the
  operators that a driver supplies.
\<close>

section \<open>An idle kernel\<close>

text \<open>A kernel in which nothing else runs and no allocation fails, and a table with no entries.\<close>

definition idle_kernel :: "'s kernel" where
  "idle_kernel = \<lparr>k_kzalloc = (\<lambda>at s. (Some 0, s)), k_krealloc = (\<lambda>n at s. (True, s)),
     k_wait_event_timeout = (\<lambda>cond n s. (if cond s then 1 else 0, s)), k_wait_work = (\<lambda>p s. s)\<rparr>"

definition no_ops :: "('c, 'r, 'd, 's) mailbox_ops" where
  "no_ops = \<lparr>op_get_tx_queue_tail = None, op_inc_tx_queue_tail = None,
     op_acquire_tx_queue_lock = None, op_release_tx_queue_lock = None, op_get_cmd_elem_seq = None,
     op_set_cmd_elem_seq = None, op_wait_for_tx_queue_not_full = None, op_get_rx_queue_size = None,
     op_get_rx_queue_head = None, op_get_rx_queue_tail = None, op_inc_rx_queue_head = None,
     op_acquire_rx_queue_lock = None, op_release_rx_queue_lock = None, op_get_resp_elem_seq = None,
     op_set_resp_elem_seq = None, op_is_rx_elem_reversed = None, op_handle_reversed_command = None,
     op_before_enqueue_wait_list = None, op_after_enqueue_cmd = None, op_after_fetch_resps = None,
     op_handle_awaiter_arrived = None, op_handle_awaiter_timedout = None,
     op_handle_awaiter_flushed = None, op_release_awaiter_data = None, op_is_block_off = None,
     op_get_cmd_timeout = None, op_on_error = None, op_does_response_match_waiter = None\<rparr>"

section \<open>Lists and copies\<close>

lemma take_first_None_iff: "take_first P xs = None \<longleftrightarrow> (\<forall>x \<in> set xs. \<not> P x)"
  by (induction xs) auto

lemma take_first_SomeE:
  assumes "take_first P xs = Some (y, ys)"
  obtains us vs where "xs = us @ y # vs" and "ys = us @ vs" and "P y" and "\<forall>u \<in> set us. \<not> P u"
  using assms
proof (induction xs arbitrary: ys thesis)
  case Nil
  then show ?case by simp
next
  case (Cons x xs)
  show ?case
  proof (cases "P x")
    case True
    with Cons.prems show ?thesis by (auto intro: Cons.prems(1) [of "[]"])
  next
    case False
    with Cons.prems(2) obtain zs where z: "take_first P xs = Some (y, zs)" "ys = x # zs"
      by auto
    obtain us vs where "xs = us @ y # vs" "zs = us @ vs" "P y" "\<forall>u \<in> set us. \<not> P u"
      using Cons.IH [OF _ z(1)] by blast
    with z False show ?thesis by (intro Cons.prems(1) [of "x # us" vs]) auto
  qed
qed

lemma take_first_append:
  "\<forall>u \<in> set us. \<not> P u \<Longrightarrow> P y \<Longrightarrow> take_first P (us @ y # vs) = Some (y, us @ vs)"
  by (induction us) auto

lemma unat_bound_u32: "unat (x :: u32) < 2 ^ 32"
  using unsigned_less [of x] by simp

lemma copy_resps_ring_list:
  assumes "unat j < unat sz"
  shows "copy_resps mem sz n j = ring_list mem (unat sz) (unat j) n"
  using assms
proof (induction n arbitrary: j)
  case 0
  then show ?case by simp
next
  case (Suc n)
  have "unat (j + 1) = Suc (unat j)"
    using Suc.prems unat_bound_u32 [of sz] by (simp add: unat_word_ariths)
  then have j: "unat ((j + 1) mod sz) = Suc (unat j) mod unat sz"
    by (simp add: unat_mod)
  moreover from j Suc.prems have "unat ((j + 1) mod sz) < unat sz"
    by (simp add: mod_less_divisor)
  moreover have "ring_list mem (unat sz) (unat j) (1 + n) =
    ring_list mem (unat sz) (unat j) 1 @ ring_list mem (unat sz) ((unat j + 1) mod unat sz) n"
    by (rule ring_list_add)
  ultimately show ?case
    using Suc by (simp add: ring_list_def)
qed

section \<open>Delivery of a response\<close>

lemma handle_response_locked_found:
  assumes "mb_wait_list s = us @ cur # vs" and "waiter_matches ops resp s cur"
    and "\<forall>u \<in> set us. \<not> waiter_matches ops resp s u"
    and "ar_resp (mb_async_resps s (wl_async_resp cur)) = Some b"
  shows "handle_response_locked ops resp s = (wl_awaiter cur,
    s\<lparr>mb_resp_bufs := (mb_resp_bufs s)(b := resp),
      mb_async_resps := (mb_async_resps s)(wl_async_resp cur :=
        (mb_async_resps s (wl_async_resp cur))\<lparr>ar_status := GCIP_MAILBOX_STATUS_OK\<rparr>),
      mb_wait_list := us @ vs\<rparr>)"
proof -
  have "take_first (waiter_matches ops resp s) (mb_wait_list s) = Some (cur, us @ vs)"
    unfolding assms(1) using assms(3,2) by (rule take_first_append)
  with assms(4) show ?thesis by (simp add: handle_response_locked_def Let_def)
qed

lemma handle_response_locked_none:
  "\<forall>e \<in> set (mb_wait_list s). \<not> waiter_matches ops resp s e \<Longrightarrow>
    handle_response_locked ops resp s = (None, s)"
  by (simp add: handle_response_locked_def take_first_None_iff [THEN iffD2])

section \<open>Fetching: the loop and its failure\<close>

lemma fetch_loop_err_raw:
  assumes "fetch_loop K ops sz wb at h ret n s = Some y"
  shows "\<forall>e n' s'. y = (FetchErr e, n', s') \<longrightarrow> (\<forall>e. ret \<noteq> FetchErr e) \<longrightarrow>
    ret = FetchNull \<and> n' = n \<and> e = - ENOMEM"
proof (rule fetch_loop.raw_induct [OF _ assms, where P = "\<lambda>K ops sz wb at h ret n s y.
      \<forall>e n' s'. y = (FetchErr e, n', s') \<longrightarrow> (\<forall>e. ret \<noteq> FetchErr e) \<longrightarrow>
        ret = FetchNull \<and> n' = n \<and> e = - ENOMEM"], goal_cases)
  case (1 f K ops sz wb at h ret n s y)
  show ?case
    using 1(2) by (auto simp: Let_def split: prod.splits if_splits dest: 1(1))
qed

lemma fetch_loop_err:
  assumes "fetch_loop K ops sz wb at h ret n s = Some (FetchErr e, n', s')"
    and "\<forall>e. ret \<noteq> FetchErr e"
  shows "ret = FetchNull \<and> n' = n \<and> e = - ENOMEM"
  using fetch_loop_err_raw [OF assms(1)] assms(2) by simp

section \<open>Fetching: the receive interface\<close>

text \<open>
  What the fetch loop relies on. \<open>rx_inv\<close> is the driver's invariant of the receive queue and
  \<open>rx_tail\<close> the tail index that the device has published.
\<close>

definition rx_geom :: "('c, 'r, 'd, 'w) mbox_ops \<Rightarrow> ('c, 'r, 'd, 'w) mailbox \<Rightarrow> u32 \<times> u32" where
  "rx_geom ops s = (the (op_get_rx_queue_size ops) s, ucast (mb_queue_wrap_bit s))"

definition rx_head :: "('c, 'r, 'd, 'w) mbox_ops \<Rightarrow> ('c, 'r, 'd, 'w) mailbox \<Rightarrow> u32" where
  "rx_head ops s = the (op_get_rx_queue_head ops) s"

definition rx_contents ::
  "('c, 'r, 'd, 'w) mbox_ops \<Rightarrow> (('c, 'r, 'd, 'w) mailbox \<Rightarrow> u32) \<Rightarrow> ('c, 'r, 'd, 'w) mailbox \<Rightarrow>
     'r list" where
  "rx_contents ops rx_tail s =
     circ_contents (mb_rx_queue s) (fst (rx_geom ops s)) (snd (rx_geom ops s)) (rx_head ops s)
       (rx_tail s)"

definition rx_same ::
  "('c, 'r, 'd, 'w) mbox_ops \<Rightarrow> (('c, 'r, 'd, 'w) mailbox \<Rightarrow> u32) \<Rightarrow> ('c, 'r, 'd, 'w) mailbox \<Rightarrow>
     ('c, 'r, 'd, 'w) mailbox \<Rightarrow> bool" where
  "rx_same ops rx_tail s s' \<longleftrightarrow> rx_geom ops s' = rx_geom ops s \<and> rx_head ops s' = rx_head ops s \<and>
     rx_tail s' = rx_tail s \<and> mb_rx_queue s' = mb_rx_queue s"

lemma rx_same_contents: "rx_same ops rt s s' \<Longrightarrow> rx_contents ops rt s' = rx_contents ops rt s"
  by (simp add: rx_same_def rx_contents_def)

locale mailbox_rx =
  fixes K :: "('c, 'r, 'd, 'w) mbox_kernel"
    and ops :: "('c, 'r, 'd, 'w) mbox_ops"
    and rx_inv :: "('c, 'r, 'd, 'w) mailbox \<Rightarrow> bool"
    and rx_tail :: "('c, 'r, 'd, 'w) mailbox \<Rightarrow> u32"
  assumes rx_ok: "rx_inv s \<Longrightarrow> circ_ok (rx_geom ops s) (rx_head ops s) (rx_tail s)"
    and rx_get_tail: "rx_inv s \<Longrightarrow> the (op_get_rx_queue_tail ops) s = (t, s') \<Longrightarrow>
      rx_inv s' \<and> t = rx_tail s' \<and> rx_geom ops s' = rx_geom ops s \<and> rx_head ops s' = rx_head ops s \<and>
      (\<exists>new. rx_contents ops rx_tail s' = rx_contents ops rx_tail s @ new)"
    and rx_inc: "rx_inv s \<Longrightarrow> unat n \<le> circ_cnt (rx_geom ops s) (rx_head ops s) (rx_tail s) \<Longrightarrow>
      the (op_inc_rx_queue_head ops) n s = s' \<Longrightarrow>
      rx_inv s' \<and> rx_geom ops s' = rx_geom ops s \<and> rx_tail s' = rx_tail s \<and>
      mb_rx_queue s' = mb_rx_queue s \<and>
      rx_head ops s' = circ_inc (rx_geom ops s) (rx_head ops s) (unat n)"
    and rx_acquire: "rx_inv s \<Longrightarrow> the (op_acquire_rx_queue_lock ops) try at s = (r, at', s') \<Longrightarrow>
      rx_inv s' \<and> rx_same ops rx_tail s s'"
    and rx_release: "rx_inv s \<Longrightarrow> the (op_release_rx_queue_lock ops) s = s' \<Longrightarrow>
      rx_inv s' \<and> rx_same ops rx_tail s s'"
    and rx_after: "rx_inv s \<Longrightarrow> op_after_fetch_resps ops = Some f \<Longrightarrow> f n s = s' \<Longrightarrow>
      rx_inv s' \<and> rx_same ops rx_tail s s'"
    and rx_krealloc: "rx_inv s \<Longrightarrow> k_krealloc K n at s = (grown, s') \<Longrightarrow>
      rx_inv s' \<and> rx_same ops rx_tail s s'"
begin

lemma length_rx_contents:
  "length (rx_contents ops rx_tail s) = circ_cnt (rx_geom ops s) (rx_head ops s) (rx_tail s)"
  by (simp add: rx_contents_def circ_contents_def circ_cnt_def case_prod_beta)

lemma rx_tail_valid:
  assumes "rx_inv s"
  shows "rx_tail s AND NOT (CIRC_QUEUE_VALID_MASK (snd (rx_geom ops s))) = 0"
    and "\<not> fst (rx_geom ops s) \<le> CIRC_QUEUE_REAL_INDEX (rx_tail s) (snd (rx_geom ops s))"
  using circ_okD(2) [of "fst (rx_geom ops s)" "snd (rx_geom ops s)", simplified, OF rx_ok [OF assms]]
  by (simp_all add: circ_valid_def not_le)

lemma copy_step:
  assumes inv: "rx_inv s" and n: "n \<le> circ_cnt g h0 (rx_tail s)"
    and g: "g = rx_geom ops s" and h0: "h0 = rx_head ops s" and h: "h = circ_inc g h0 n"
    and c: "count = gcip_circ_queue_cnt h (rx_tail s) (fst g) (snd g)"
  shows "unat count = circ_cnt g h0 (rx_tail s) - n"
    and "take n (rx_contents ops rx_tail s) @
      copy_resps (mb_rx_queue s) (fst g) (unat count) (CIRC_QUEUE_REAL_INDEX h (snd g)) =
      rx_contents ops rx_tail s"
    and "gcip_circ_queue_inc h count (fst g) (snd g) = circ_inc g h0 (n + unat count)"
    and "n + unat count \<le> unat (fst g)"
proof -
  have ok: "circ_ok g h0 (rx_tail s)" using rx_ok [OF inv] g h0 by simp
  have cnt: "unat count = circ_cnt g h (rx_tail s)" by (simp add: c circ_cnt_def case_prod_beta)
  show uc: "unat count = circ_cnt g h0 (rx_tail s) - n"
    using circ.cnt_pop [OF ok n] by (simp add: cnt h)
  have slot: "circ_slot g h < unat (fst g)"
    using circ.ok_pop [OF ok n] circ.slot_less by (simp add: h)
  show le: "n + unat count \<le> unat (fst g)"
    using uc n circ.cnt_le [OF ok] by simp
  have "circ_valid (fst g) (snd g) h0" using ok circ_okD(1) [of "fst g" "snd g"] by simp
  from circ_inc_inc [OF this le]
  show "gcip_circ_queue_inc h count (fst g) (snd g) = circ_inc g h0 (n + unat count)"
    by (simp add: h circ_inc_def case_prod_beta)
  have "copy_resps (mb_rx_queue s) (fst g) (unat count) (CIRC_QUEUE_REAL_INDEX h (snd g)) =
      ring_list (mb_rx_queue s) (unat (fst g)) (circ_slot g h) (circ_cnt g h (rx_tail s))"
    using slot by (simp add: copy_resps_ring_list circ_slot_def case_prod_beta cnt)
  with circ.pop_contents [OF ok n, of "mb_rx_queue s"]
  show "take n (rx_contents ops rx_tail s) @
      copy_resps (mb_rx_queue s) (fst g) (unat count) (CIRC_QUEUE_REAL_INDEX h (snd g)) =
      rx_contents ops rx_tail s"
    by (simp add: rx_contents_def circ_contents_def circ_slot_def circ_cnt_def case_prod_beta
        g [symmetric] h0 [symmetric] h)
qed

lemma fetch_loop_fifo:
  assumes "rx_inv s" and "g = rx_geom ops s" and "h0 = rx_head ops s"
    and "n \<le> circ_cnt g h0 (rx_tail s)"
    and "fetched_list ret = take n (rx_contents ops rx_tail s)"
  shows "\<exists>ret' n' s'.
    fetch_loop K ops (fst g) (snd g) at (circ_inc g h0 n) ret (word_of_nat n) s =
      Some (ret', word_of_nat n', s') \<and>
    rx_inv s' \<and> rx_geom ops s' = g \<and> rx_head ops s' = h0 \<and>
    (\<exists>new. rx_contents ops rx_tail s' = rx_contents ops rx_tail s @ new) \<and>
    n' \<le> circ_cnt g h0 (rx_tail s') \<and> fetched_list ret' = take n' (rx_contents ops rx_tail s') \<and>
    ((\<forall>n at s. fst (k_krealloc K n at s)) \<longrightarrow> n' = circ_cnt g h0 (rx_tail s'))"
  using assms
proof (induction "unat (fst g) - n" arbitrary: n ret s rule: less_induct)
  case less
  obtain t s1 where t: "the (op_get_rx_queue_tail ops) s = (t, s1)" by force
  from rx_get_tail [OF less.prems(1) t] less.prems(2,3) obtain new where
    s1: "rx_inv s1" "t = rx_tail s1" "rx_geom ops s1 = g" "rx_head ops s1 = h0"
      "rx_contents ops rx_tail s1 = rx_contents ops rx_tail s @ new" by auto
  have n1: "n \<le> circ_cnt g h0 (rx_tail s1)"
    using less.prems(2-4) length_rx_contents [of s] length_rx_contents [of s1] s1 by simp
  have take1: "take n (rx_contents ops rx_tail s1) = fetched_list ret"
    using less.prems(2-5) length_rx_contents [of s] s1(5) by simp
  define count where
    "count = gcip_circ_queue_cnt (circ_inc g h0 n) (rx_tail s1) (fst g) (snd g)"
  note c = copy_step [OF s1(1) n1 s1(3) [symmetric] s1(4) [symmetric] refl count_def]
  note valid = rx_tail_valid [OF s1(1), unfolded s1(3)]
  obtain grown s2 where k: "k_krealloc K (word_of_nat n + count) at s1 = (grown, s2)" by force
  note s2 = rx_krealloc [OF s1(1) k]
  have s2': "rx_geom ops s2 = g" "rx_head ops s2 = h0" "rx_tail s2 = rx_tail s1"
    "mb_rx_queue s2 = mb_rx_queue s1" "rx_contents ops rx_tail s2 = rx_contents ops rx_tail s1"
    using s2 s1(3,4) rx_same_contents by (auto simp: rx_same_def)
  let ?n = "n + unat count"
  let ?rs = "copy_resps (mb_rx_queue s2) (fst g) (unat count)
    (CIRC_QUEUE_REAL_INDEX (circ_inc g h0 n) (snd g))"
  have loop: "fetch_loop K ops (fst g) (snd g) at (circ_inc g h0 n) ret (word_of_nat n) s =
    (if count = 0 then Some (ret, word_of_nat n, s1)
     else if \<not> grown
     then Some (if ret = FetchNull then FetchErr (- ENOMEM) else ret, word_of_nat n, s2)
     else fetch_loop K ops (fst g) (snd g) at (circ_inc g h0 ?n)
       (FetchArr (fetched_list ret @ ?rs)) (word_of_nat ?n) s2)"
    by (subst fetch_loop.simps) (simp add: t valid s1(2) count_def [symmetric] k c(3) Let_def)
  consider (empty) "count = 0" | (oom) "count \<noteq> 0" "\<not> grown" | (more) "count \<noteq> 0" grown by blast
  then show ?case
  proof cases
    case empty
    then have "n = circ_cnt g h0 (rx_tail s1)" using c(1) n1 by simp
    with empty s1 take1 [symmetric] show ?thesis
      unfolding loop by (intro exI [of _ ret] exI [of _ n] exI [of _ s1]) auto
  next
    case oom
    have "\<not> (\<forall>n at s. fst (k_krealloc K n at s))" using oom k by (metis fst_conv)
    moreover have "fetched_list (if ret = FetchNull then FetchErr (- ENOMEM) else ret) =
      take n (rx_contents ops rx_tail s2)" using take1 s2'(5) by simp
    ultimately show ?thesis
      unfolding loop using oom s1(5) s2 s2' n1
      by (intro exI [of _ "if ret = FetchNull then FetchErr (- ENOMEM) else ret"] exI [of _ n]
          exI [of _ s2]) (simp, blast)
  next
    case more
    have meas: "unat (fst g) - ?n < unat (fst g) - n"
      using more c(4) unat_gt_0 [of count] by linarith
    have n2: "?n \<le> circ_cnt g h0 (rx_tail s2)" using c(1) n1 s2' by simp
    have "fetched_list ret @ ?rs = rx_contents ops rx_tail s2"
      using c(2) take1 s2' by simp
    moreover have "length (rx_contents ops rx_tail s2) = ?n"
      using c(1) n1 s2' length_rx_contents [of s2] by simp
    ultimately have "fetched_list (FetchArr (fetched_list ret @ ?rs)) =
      take ?n (rx_contents ops rx_tail s2)" by simp
    from less.hyps [OF meas _ s2'(1) [symmetric] s2'(2) [symmetric] n2 this] s2 more
    show ?thesis unfolding loop using s1(5) s2'(5) by auto
  qed
qed

lemma fetch_responses_fifo:
  assumes inv: "rx_inv s" and on: "\<not> IS_BLOCK_OFF ops s"
    and acq: "the (op_acquire_rx_queue_lock ops) trylock False s = (acquired, atomic, s1)"
    and got: "acquired \<noteq> 0"
  shows "\<exists>ret tot s' new. gcip_mailbox_fetch_responses K ops trylock s = Some (ret, tot, s') \<and>
    rx_inv s' \<and> unat tot = length (fetched_list ret) \<and>
    fetched_list ret @ rx_contents ops rx_tail s' = rx_contents ops rx_tail s @ new \<and>
    ((\<forall>n at s. fst (k_krealloc K n at s)) \<longrightarrow> rx_contents ops rx_tail s' = [])"
proof -
  let ?g = "rx_geom ops s" and ?h = "rx_head ops s"
  have s1: "rx_inv s1" "rx_geom ops s1 = ?g" "rx_head ops s1 = ?h"
    "rx_contents ops rx_tail s1 = rx_contents ops rx_tail s"
    using rx_acquire [OF inv acq] rx_same_contents by (auto simp: rx_same_def)
  have v: "circ_valid (fst ?g) (snd ?g) ?h"
    using circ_okD(1) [of "fst ?g" "snd ?g"] rx_ok [OF inv] by simp
  have start: "circ_inc ?g ?h 0 = ?h" using circ_inc_0 [OF v] by simp
  obtain ret n s2 new where f: "fetch_loop K ops (fst ?g) (snd ?g) atomic ?h FetchNull 0 s1 =
      Some (ret, word_of_nat n, s2)"
    and s2: "rx_inv s2" "rx_geom ops s2 = ?g" "rx_head ops s2 = ?h"
      "rx_contents ops rx_tail s2 = rx_contents ops rx_tail s @ new"
    and n: "n \<le> circ_cnt ?g ?h (rx_tail s2)" "fetched_list ret = take n (rx_contents ops rx_tail s2)"
      "(\<forall>n at s. fst (k_krealloc K n at s)) \<longrightarrow> n = circ_cnt ?g ?h (rx_tail s2)"
    using fetch_loop_fifo [OF s1(1) s1(2) [symmetric] s1(3) [symmetric] le0, of FetchNull atomic,
      unfolded start s1(4) semiring_1_class.of_nat_0 take_0 fetched_list.simps, OF refl]
    by blast
  have ok2: "circ_ok ?g ?h (rx_tail s2)" using rx_ok [OF s2(1)] s2 by simp
  have un: "unat (word_of_nat n :: u32) = n"
    using n(1) circ.cnt_le [OF ok2] by (intro le_unat_uoi [of _ "fst ?g"]) simp
  define s3 where "s3 = the (op_inc_rx_queue_head ops) (word_of_nat n) s2"
  have s3: "rx_inv s3" "rx_geom ops s3 = ?g" "rx_tail s3 = rx_tail s2"
    "mb_rx_queue s3 = mb_rx_queue s2" "rx_head ops s3 = circ_inc ?g ?h n"
    using rx_inc [OF s2(1) _ s3_def [symmetric]] s2 n(1) un by auto
  have drop: "rx_contents ops rx_tail s3 = drop n (rx_contents ops rx_tail s2)"
    using circ.pop_contents [OF ok2 n(1), of "mb_rx_queue s2"] s2(2,3) s3
    by (simp add: rx_contents_def circ_contents_def circ_slot_def circ_cnt_def case_prod_beta)
  define s4 where "s4 = the (op_release_rx_queue_lock ops) s3"
  note s4 = rx_release [OF s3(1) s4_def [symmetric]]
  define s5 where "s5 = (case op_after_fetch_resps ops of Some f \<Rightarrow> f (word_of_nat n) s4 | None \<Rightarrow> s4)"
  have s5: "rx_inv s5" "rx_contents ops rx_tail s5 = drop n (rx_contents ops rx_tail s2)"
    using s4 rx_after [of s4] drop rx_same_contents [of ops rx_tail s3 s4]
      rx_same_contents [of ops rx_tail s4 s5]
    by (auto simp: s5_def split: option.splits)
  have sz: "the (op_get_rx_queue_size ops) s = fst ?g" "ucast (mb_queue_wrap_bit s) = snd ?g"
    "the (op_get_rx_queue_head ops) s1 = ?h"
    using s1(3) by (simp_all add: rx_geom_def rx_head_def)
  have "gcip_mailbox_fetch_responses K ops trylock s = Some (ret, word_of_nat n, s5)"
    by (simp add: gcip_mailbox_fetch_responses_def Let_def on acq got sz f s3_def s4_def s5_def
        split: option.split)
  moreover have "length (rx_contents ops rx_tail s2) = circ_cnt ?g ?h (rx_tail s2)"
    using length_rx_contents [of s2] s2 by simp
  ultimately show ?thesis
    using s5 n un s2(4)
    by (intro exI [of _ ret] exI [of _ "word_of_nat n"] exI [of _ s5] exI [of _ new])
      (metis append_take_drop_id drop_eq_Nil2 length_take min.absorb2 order_refl)
qed

end

end
