(* ===== verification/Mailbox_Waits.thy ===== *)
theory Mailbox_Waits
  imports Mailbox_Laws
begin

text \<open>
  The wait list of the mailbox: its invariant, and the clients' guarantees that rest on it. The
  interface \<open>mailbox_waits\<close> holds what the generic code relies on in the operators: they do not
  touch the mailbox's own fields, and writing a sequence number makes it readable.
\<close>

section \<open>The part of the state the operators leave alone\<close>

definition mb_core ::
  "('c, 'r, 'd, 'w) mailbox \<Rightarrow>
     wait_list_elem list \<times> (ptr \<Rightarrow> async_resp) \<times> (ptr \<Rightarrow> 'r) \<times> u64 \<times> u8" where
  "mb_core s = (mb_wait_list s, mb_async_resps s, mb_resp_bufs s, mb_cur_seq s, mb_mode s)"

lemma mb_core_eq_iff:
  "mb_core s' = mb_core s \<longleftrightarrow> mb_wait_list s' = mb_wait_list s \<and>
    mb_async_resps s' = mb_async_resps s \<and> mb_resp_bufs s' = mb_resp_bufs s \<and>
    mb_cur_seq s' = mb_cur_seq s \<and> mb_mode s' = mb_mode s"
  by (auto simp: mb_core_def)

lemma core_set_awaiter [simp]: "mb_core (set_awaiter p a s) = mb_core s"
  by (simp add: mb_core_def set_awaiter_def)

lemma core_fault [simp]: "mb_core (fault s) = mb_core s"
  by (simp add: mb_core_def fault_def)

lemma core_refcount_inc [simp]: "mb_core (refcount_inc_awaiter p s) = mb_core s"
  by (simp add: refcount_inc_awaiter_def split: option.split)

lemma core_cancel_delayed_work: "cancel_delayed_work p s = (c, s') \<Longrightarrow> mb_core s' = mb_core s"
  by (auto simp: cancel_delayed_work_def split: option.splits delayed_work.splits)

section \<open>The invariant of the wait list\<close>

text \<open>
  Every waiter has a response buffer of its own and waits; the sequence numbers increase along the
  list and are below the next one, as the comment of \<open>gcip_mailbox_push_wait_resp\<close> says.
\<close>

definition wl_buf :: "('c, 'r, 'd, 'w) mailbox \<Rightarrow> wait_list_elem \<Rightarrow> ptr option" where
  "wl_buf s e = ar_resp (mb_async_resps s (wl_async_resp e))"

definition wl_seq :: "('c, 'r, 'd, 'w) mbox_ops \<Rightarrow> ('c, 'r, 'd, 'w) mailbox \<Rightarrow> wait_list_elem \<Rightarrow> u64" where
  "wl_seq ops s e = the (resp_seq ops s (wl_async_resp e))"

definition wl_view ::
  "('c, 'r, 'd, 'w) mbox_ops \<Rightarrow> ('c, 'r, 'd, 'w) mailbox \<Rightarrow> wait_list_elem \<Rightarrow>
     ptr option \<times> u16 \<times> u64" where
  "wl_view ops s e =
     (wl_buf s e, ar_status (mb_async_resps s (wl_async_resp e)), wl_seq ops s e)"

definition view_ok :: "u64 \<Rightarrow> (ptr option \<times> u16 \<times> u64) list \<Rightarrow> bool" where
  "view_ok cur v \<longleftrightarrow>
     (\<forall>(b, st, q) \<in> set v. b \<noteq> None \<and> st = GCIP_MAILBOX_STATUS_WAITING_RESPONSE \<and> q < cur) \<and>
     distinct (map fst v) \<and> sorted_wrt (<) (map (\<lambda>(b, st, q). q) v)"

definition wl_inv :: "('c, 'r, 'd, 'w) mbox_ops \<Rightarrow> ('c, 'r, 'd, 'w) mailbox \<Rightarrow> bool" where
  "wl_inv ops s \<longleftrightarrow> view_ok (mb_cur_seq s) (map (wl_view ops s) (mb_wait_list s))"

lemma view_ok_remove: "view_ok cur (us @ e # vs) \<Longrightarrow> view_ok cur (us @ vs)"
  by (auto simp: view_ok_def sorted_wrt_append)

lemma view_ok_snoc:
  assumes "view_ok cur v" and "b \<noteq> None" and "b \<notin> fst ` set v" and "cur + 1 \<noteq> 0"
  shows "view_ok (cur + 1) (v @ [(b, GCIP_MAILBOX_STATUS_WAITING_RESPONSE, cur)])"
proof -
  have "unat (cur + 1) = Suc (unat cur)"
    using unatSuc [of cur] assms(4) by (simp add: add.commute)
  then have lt: "cur < cur + 1" by (simp add: word_less_nat_alt)
  have "\<forall>(b, st, q) \<in> set v. q < cur + 1"
    using assms(1) lt by (auto simp: view_ok_def intro: less_trans)
  then show ?thesis
    using assms(1-3) lt by (auto simp: view_ok_def sorted_wrt_append)
qed

lemma wl_view_cong: "mb_core s' = mb_core s \<Longrightarrow> wl_view ops s' = wl_view ops s"
  unfolding mb_core_eq_iff by (intro ext) (simp add: wl_view_def wl_buf_def wl_seq_def resp_seq_def)

lemma wl_inv_cong:
  assumes "mb_core s' = mb_core s"
  shows "wl_inv ops s' = wl_inv ops s"
  using wl_view_cong [OF assms, of ops] assms by (simp add: wl_inv_def mb_core_eq_iff)

lemma wl_invD:
  assumes "wl_inv ops s" and "e \<in> set (mb_wait_list s)"
  shows "\<exists>b. wl_buf s e = Some b"
    and "ar_status (mb_async_resps s (wl_async_resp e)) = GCIP_MAILBOX_STATUS_WAITING_RESPONSE"
    and "wl_seq ops s e < mb_cur_seq s"
    and "resp_seq ops s (wl_async_resp e) = Some (wl_seq ops s e)"
proof -
  have "wl_view ops s e \<in> set (map (wl_view ops s) (mb_wait_list s))"
    using assms(2) by simp
  with assms(1) show b: "\<exists>b. wl_buf s e = Some b"
    and "ar_status (mb_async_resps s (wl_async_resp e)) = GCIP_MAILBOX_STATUS_WAITING_RESPONSE"
    and "wl_seq ops s e < mb_cur_seq s"
    unfolding wl_inv_def view_ok_def by (fastforce simp: wl_view_def)+
  then show "resp_seq ops s (wl_async_resp e) = Some (wl_seq ops s e)"
    by (auto simp: wl_buf_def wl_seq_def resp_seq_def)
qed

lemma wl_inv_neq:
  assumes "wl_inv ops s" and "mb_wait_list s = us @ e # vs" and "u \<in> set us \<union> set vs"
  shows "wl_buf s u \<noteq> wl_buf s e" and "wl_async_resp u \<noteq> wl_async_resp e"
    and "wl_seq ops s u \<noteq> wl_seq ops s e"
proof -
  have "wl_buf s e \<notin> wl_buf s ` (set us \<union> set vs)"
    using assms(1) unfolding wl_inv_def view_ok_def assms(2)
    by (simp add: wl_view_def comp_def image_Un)
  with assms(3) show "wl_buf s u \<noteq> wl_buf s e" by (metis image_eqI)
  then show "wl_async_resp u \<noteq> wl_async_resp e" by (auto simp: wl_buf_def)
  have "\<forall>q \<in> wl_seq ops s ` set us. q < wl_seq ops s e" "\<forall>q \<in> wl_seq ops s ` set vs. wl_seq ops s e < q"
    using assms(1) unfolding wl_inv_def view_ok_def assms(2)
    by (simp_all add: wl_view_def comp_def sorted_wrt_append)
  with assms(3) show "wl_seq ops s u \<noteq> wl_seq ops s e" by (metis UnE image_eqI less_irrefl)
qed

text \<open>Removing an element, whatever happens to its own buffer and status.\<close>

lemma wl_inv_remove:
  assumes inv: "wl_inv ops s" and wl: "mb_wait_list s = us @ e # vs"
    and wl': "mb_wait_list s' = us @ vs" and cur: "mb_cur_seq s' = mb_cur_seq s"
    and bufs: "\<And>b. wl_buf s e \<noteq> Some b \<Longrightarrow> mb_resp_bufs s' b = mb_resp_bufs s b"
    and ars: "\<And>a. a \<noteq> wl_async_resp e \<Longrightarrow> mb_async_resps s' a = mb_async_resps s a"
  shows "wl_inv ops s'"
proof -
  have "wl_view ops s' u = wl_view ops s u" if u: "u \<in> set us \<union> set vs" for u
  proof -
    note neq = wl_inv_neq [OF inv wl u]
    have a: "mb_async_resps s' (wl_async_resp u) = mb_async_resps s (wl_async_resp u)"
      using ars neq(2) by simp
    obtain b where b: "wl_buf s u = Some b" using wl_invD(1) [OF inv] wl u by auto
    then have "mb_resp_bufs s' b = mb_resp_bufs s b" using neq(1) bufs by simp
    with a b show ?thesis by (simp add: wl_view_def wl_buf_def wl_seq_def resp_seq_def)
  qed
  then have "map (wl_view ops s') (mb_wait_list s') = map (wl_view ops s) us @ map (wl_view ops s) vs"
    by (simp add: wl')
  moreover have "view_ok (mb_cur_seq s) (map (wl_view ops s) us @ map (wl_view ops s) vs)"
    using inv unfolding wl_inv_def wl by (auto intro: view_ok_remove)
  ultimately show ?thesis by (simp only: wl_inv_def cur)
qed

section \<open>Delivery and removal\<close>

lemma waiter_matches_seq:
  assumes "op_does_response_match_waiter ops = None" and "wl_buf s e = Some b"
  shows "waiter_matches ops resp s e \<longleftrightarrow> the (op_get_resp_elem_seq ops) resp = wl_seq ops s e"
  using assms
  by (simp add: waiter_matches_def does_response_match_waiter_def wl_buf_def wl_seq_def resp_seq_def)

lemma split_waiter:
  assumes "e \<in> set (mb_wait_list s)"
  obtains us vs where "mb_wait_list s = us @ e # vs"
  using split_list [OF assms] by blast

lemma remove1_distinct_split: "u \<notin> set us \<Longrightarrow> remove1 u (us @ u # vs) = us @ vs"
  by (simp add: remove1_append)

lemma wl_inv_split_notin:
  assumes "wl_inv ops s" and "mb_wait_list s = us @ e # vs"
  shows "e \<notin> set us"
  using wl_inv_neq(1) [OF assms, of e] by blast

lemma handle_response_locked_match:
  assumes inv: "wl_inv ops s" and m: "op_does_response_match_waiter ops = None"
    and e: "e \<in> set (mb_wait_list s)" and b: "wl_buf s e = Some b"
    and q: "wl_seq ops s e = the (op_get_resp_elem_seq ops) resp"
  shows "handle_response_locked ops resp s = (wl_awaiter e,
    s\<lparr>mb_resp_bufs := (mb_resp_bufs s)(b := resp),
      mb_async_resps := (mb_async_resps s)(wl_async_resp e :=
        (mb_async_resps s (wl_async_resp e))\<lparr>ar_status := GCIP_MAILBOX_STATUS_OK\<rparr>),
      mb_wait_list := remove1 e (mb_wait_list s)\<rparr>)"
proof -
  obtain us vs where wl: "mb_wait_list s = us @ e # vs" using e by (rule split_waiter)
  have "\<not> waiter_matches ops resp s u" if u: "u \<in> set us" for u
  proof -
    obtain c where c: "wl_buf s u = Some c" using wl_invD(1) [OF inv, of u] wl u by auto
    show ?thesis
      using waiter_matches_seq [OF m c, of resp] wl_inv_neq(3) [OF inv wl, of u] u q by auto
  qed
  moreover have "waiter_matches ops resp s e" using waiter_matches_seq [OF m b] q by simp
  moreover have "remove1 e (mb_wait_list s) = us @ vs"
    unfolding wl using wl_inv_split_notin [OF inv wl] by (rule remove1_distinct_split)
  ultimately show ?thesis
    using handle_response_locked_found [OF wl, of ops resp b] b by (simp add: wl_buf_def)
qed

lemma handle_response_locked_nomatch:
  assumes inv: "wl_inv ops s" and m: "op_does_response_match_waiter ops = None"
    and q: "the (op_get_resp_elem_seq ops) resp \<notin> wl_seq ops s ` set (mb_wait_list s)"
  shows "handle_response_locked ops resp s = (None, s)"
proof (rule handle_response_locked_none, intro ballI)
  fix u assume u: "u \<in> set (mb_wait_list s)"
  then obtain c where c: "wl_buf s u = Some c" using wl_invD(1) [OF inv] by blast
  show "\<not> waiter_matches ops resp s u" using waiter_matches_seq [OF m c, of resp] q u by auto
qed

lemma wl_inv_deliver:
  assumes inv: "wl_inv ops s" and e: "e \<in> set (mb_wait_list s)" and b: "wl_buf s e = Some b"
  shows "wl_inv ops (s\<lparr>mb_resp_bufs := (mb_resp_bufs s)(b := r),
      mb_async_resps := (mb_async_resps s)(wl_async_resp e := a),
      mb_wait_list := remove1 e (mb_wait_list s)\<rparr>)"
proof -
  obtain us vs where wl: "mb_wait_list s = us @ e # vs" using e by (rule split_waiter)
  have "remove1 e (mb_wait_list s) = us @ vs"
    unfolding wl using wl_inv_split_notin [OF inv wl] by (rule remove1_distinct_split)
  then show ?thesis by (intro wl_inv_remove [OF inv wl]) (auto simp: b)
qed

lemma handle_response_locked_inv:
  assumes "wl_inv ops s" and "op_does_response_match_waiter ops = None"
  shows "wl_inv ops (snd (handle_response_locked ops resp s))"
proof (cases "the (op_get_resp_elem_seq ops) resp \<in> wl_seq ops s ` set (mb_wait_list s)")
  case True
  then obtain e where e: "e \<in> set (mb_wait_list s)" "wl_seq ops s e = the (op_get_resp_elem_seq ops) resp"
    by auto
  obtain b where b: "wl_buf s e = Some b" using wl_invD(1) [OF assms(1) e(1)] by blast
  show ?thesis
    using wl_inv_deliver [OF assms(1) e(1) b] handle_response_locked_match [OF assms e(1) b e(2)]
    by simp
next
  case False
  then show ?thesis using handle_response_locked_nomatch [OF assms] assms(1) by simp
qed

section \<open>The interface to the operators\<close>

text \<open>The caller's \<open>async_resp\<close> and buffer are not in use by another waiter.\<close>

definition fresh_resp :: "ptr \<Rightarrow> ptr \<Rightarrow> ('c, 'r, 'd, 'w) mailbox \<Rightarrow> bool" where
  "fresh_resp ar b s \<longleftrightarrow>
     (\<forall>e \<in> set (mb_wait_list s). wl_async_resp e \<noteq> ar \<and> wl_buf s e \<noteq> Some b)"

text \<open>What enqueueing did to the wait list, by its result: every error comes before anything is queued.\<close>

definition enqueued ::
  "('c, 'r, 'd, 'w) mbox_ops \<Rightarrow> ptr \<Rightarrow> ptr option \<Rightarrow> ptr \<Rightarrow> ('c, 'r, 'd, 'w) mailbox \<Rightarrow>
     int \<Rightarrow> ('c, 'r, 'd, 'w) mailbox \<Rightarrow> bool" where
  "enqueued ops ar aw b s r s' \<longleftrightarrow>
     (\<forall>a. a \<noteq> ar \<longrightarrow> mb_async_resps s' a = mb_async_resps s a) \<and>
     (\<forall>c. c \<noteq> b \<longrightarrow> mb_resp_bufs s' c = mb_resp_bufs s c) \<and>
     (if r = 0 then
        mb_wait_list s' = mb_wait_list s @ [\<lparr>wl_async_resp = ar, wl_awaiter = aw\<rparr>] \<and>
        ar_resp (mb_async_resps s' ar) = Some b \<and>
        ar_status (mb_async_resps s' ar) = GCIP_MAILBOX_STATUS_WAITING_RESPONSE \<and>
        the (op_get_resp_elem_seq ops) (mb_resp_bufs s' b) = mb_cur_seq s \<and>
        mb_cur_seq s' = mb_cur_seq s + 1
      else mb_wait_list s' = mb_wait_list s \<and> mb_cur_seq s' = mb_cur_seq s)"

lemma enqueued_cong:
  assumes "mb_core s1' = mb_core s'"
  shows "enqueued ops ar aw b s r s1' = enqueued ops ar aw b s r s'"
  using assms by (simp add: enqueued_def mb_core_eq_iff)

lemma enqueued_inv:
  assumes e: "enqueued ops ar aw b s r s'" and inv: "wl_inv ops s" and fresh: "fresh_resp ar b s"
    and cur: "mb_cur_seq s + 1 \<noteq> 0"
  shows "wl_inv ops s'"
proof -
  have view: "wl_view ops s' u = wl_view ops s u" if u: "u \<in> set (mb_wait_list s)" for u
  proof -
    obtain d where d: "wl_buf s u = Some d" using wl_invD(1) [OF inv u] by blast
    have "wl_async_resp u \<noteq> ar" "d \<noteq> b" using fresh u d by (auto simp: fresh_resp_def)
    then show ?thesis
      using e d by (simp add: enqueued_def wl_view_def wl_buf_def wl_seq_def resp_seq_def)
  qed
  then have old: "map (wl_view ops s') (mb_wait_list s) = map (wl_view ops s) (mb_wait_list s)"
    by simp
  show ?thesis
  proof (cases "r = 0")
    case True
    let ?e = "\<lparr>wl_async_resp = ar, wl_awaiter = aw\<rparr>"
    have new: "wl_view ops s' ?e = (Some b, GCIP_MAILBOX_STATUS_WAITING_RESPONSE, mb_cur_seq s)"
      using e True by (simp add: enqueued_def wl_view_def wl_buf_def wl_seq_def resp_seq_def)
    have "Some b \<notin> fst ` set (map (wl_view ops s) (mb_wait_list s))"
      using fresh by (force simp: fresh_resp_def wl_view_def)
    from view_ok_snoc [OF inv [unfolded wl_inv_def] _ this cur] e True old new
    show ?thesis by (simp add: wl_inv_def enqueued_def del: map_eq_conv)
  next
    case False
    then show ?thesis using e old inv by (simp add: wl_inv_def enqueued_def del: map_eq_conv)
  qed
qed

text \<open>
  What other tasks may do to the wait list while this one holds the lock of the transmit queue: they
  remove waiters, and touch the \<open>async_resp\<close> and the buffer of the waiters they remove only.
\<close>

definition wl_shrinks ::
  "('c, 'r, 'd, 'w) mbox_ops \<Rightarrow> ('c, 'r, 'd, 'w) mailbox \<Rightarrow> ('c, 'r, 'd, 'w) mailbox \<Rightarrow> bool" where
  "wl_shrinks ops s s' \<longleftrightarrow> wl_inv ops s' \<and>
     mb_cur_seq s' = mb_cur_seq s \<and> mb_mode s' = mb_mode s \<and>
     set (mb_wait_list s') \<subseteq> set (mb_wait_list s) \<and>
     (\<forall>e \<in> set (mb_wait_list s'). wl_buf s' e = wl_buf s e) \<and>
     (\<forall>a. (\<forall>e \<in> set (mb_wait_list s). wl_async_resp e \<noteq> a) \<longrightarrow>
        mb_async_resps s' a = mb_async_resps s a)"

lemma wl_shrinks_cong:
  assumes "mb_core s1 = mb_core s" and "mb_core s1' = mb_core s'"
  shows "wl_shrinks ops s1 s1' = wl_shrinks ops s s'"
  using wl_inv_cong [OF assms(2), of ops] assms
  by (simp add: wl_shrinks_def wl_buf_def mb_core_eq_iff)

lemma wl_shrinks_fresh:
  "wl_shrinks ops s s' \<Longrightarrow> fresh_resp ar b s \<Longrightarrow> fresh_resp ar b s'"
  by (auto simp: wl_shrinks_def fresh_resp_def)

locale mailbox_waits =
  fixes K :: "('c, 'r, 'd, 'w) mbox_kernel"
    and ops :: "('c, 'r, 'd, 'w) mbox_ops"
    and tx_locked :: "('c, 'r, 'd, 'w) mailbox \<Rightarrow> bool"
  assumes core_acquire_tx: "the (op_acquire_tx_queue_lock ops) tr at s = (r, at', s') \<Longrightarrow>
      mb_core s' = mb_core s \<and> tx_locked s'"
    and core_release_tx: "mb_core (the (op_release_tx_queue_lock ops) s) = mb_core s"
    and core_wait_not_full: "wl_inv ops s \<Longrightarrow> tx_locked s \<Longrightarrow>
      the (op_wait_for_tx_queue_not_full ops) s = (r, s') \<Longrightarrow> wl_shrinks ops s s'"
    and core_inc_tx: "mb_core (the (op_inc_tx_queue_tail ops) n s) = mb_core s"
    and core_before: "op_before_enqueue_wait_list ops = Some f \<Longrightarrow> f b aw s = (r, s') \<Longrightarrow>
      mb_core s' = mb_core s"
    and core_after: "op_after_enqueue_cmd ops = Some g \<Longrightarrow> g c s = (r, s') \<Longrightarrow>
      r = 0 \<and> mb_core s' = mb_core s"
    and core_on_error: "op_on_error ops = Some h \<Longrightarrow> mb_core (h e s) = mb_core s"
    and core_release_data: "op_release_awaiter_data ops = Some d \<Longrightarrow> mb_core (d x s) = mb_core s"
    and core_kzalloc: "k_kzalloc K at s = (p, s') \<Longrightarrow> mb_core s' = mb_core s"
    and cmd_seq: "the (op_get_cmd_elem_seq ops) (the (op_set_cmd_elem_seq ops) cmd q) = q"
    and resp_elem_seq: "the (op_get_resp_elem_seq ops) (the (op_set_resp_elem_seq ops) resp q) = q"
begin

lemma core_awaiter_release: "mb_core (gcip_mailbox_awaiter_release ops p s) = mb_core s"
proof -
  have "mb_core (s'\<lparr>mb_awaiters := m\<rparr>) = mb_core s'" for s' :: "('c, 'r, 'd, 'w) mailbox" and m
    by (simp add: mb_core_def)
  then show ?thesis
    using core_release_data
    by (simp add: gcip_mailbox_awaiter_release_def Let_def split: option.split)
qed

lemma core_dec_refs: "mb_core (gcip_mailbox_awaiter_dec_refs ops p s) = mb_core s"
  by (simp add: gcip_mailbox_awaiter_dec_refs_def Let_def core_awaiter_release split: option.split)

lemma push_wait_resp_core:
  assumes "gcip_mailbox_push_wait_resp K ops ar aw at s = (r, s')"
  shows "mb_async_resps s' = mb_async_resps s" and "mb_resp_bufs s' = mb_resp_bufs s"
    and "mb_cur_seq s' = mb_cur_seq s" and "mb_mode s' = mb_mode s"
    and "mb_wait_list s' = mb_wait_list s @
      (if r = 0 then [\<lparr>wl_async_resp = ar, wl_awaiter = aw\<rparr>] else [])"
proof -
  obtain p s1 where k: "k_kzalloc K at s = (p, s1)" by force
  obtain r2 s2 where b: "(case op_before_enqueue_wait_list ops of
    Some f \<Rightarrow> f (the (ar_resp (mb_async_resps s1 ar))) aw s1 | None \<Rightarrow> (0, s1)) = (r2, s2)"
    by (rule prod.exhaust)
  have c1: "mb_core s1 = mb_core s" using core_kzalloc [OF k] .
  have "mb_core s2 = mb_core s1"
    using b core_before by (auto split: option.splits)
  with c1 have c2: "mb_core s2 = mb_core s" by simp
  let ?s3 = "case aw of Some p \<Rightarrow> refcount_inc_awaiter p s2 | None \<Rightarrow> s2"
  have c3: "mb_core ?s3 = mb_core s" using c2 by (simp split: option.split)
  have "(r, s') = (if p = None then (- ENOMEM, s1) else if r2 \<noteq> 0 then (r2, s2)
    else (0, ?s3\<lparr>mb_wait_list := mb_wait_list ?s3 @ [\<lparr>wl_async_resp = ar, wl_awaiter = aw\<rparr>]\<rparr>))"
    using assms unfolding gcip_mailbox_push_wait_resp_def k Let_def prod.case b by simp
  then show "mb_async_resps s' = mb_async_resps s" and "mb_resp_bufs s' = mb_resp_bufs s"
    and "mb_cur_seq s' = mb_cur_seq s" and "mb_mode s' = mb_mode s"
    and "mb_wait_list s' = mb_wait_list s @
      (if r = 0 then [\<lparr>wl_async_resp = ar, wl_awaiter = aw\<rparr>] else [])"
    using c1 c2 c3 by (auto simp: mb_core_eq_iff split: if_splits)
qed

lemma enqueue_copy_core: "mb_core (enqueue_copy ops cmd s) = mb_core s"
  by (simp add: enqueue_copy_def Let_def core_inc_tx) (simp add: mb_core_def)

lemma enqueue_cmd_locked_core:
  assumes r: "enqueue_cmd_locked K ops cmd ar aw flags at s = (r, cmd', s')" and inv: "wl_inv ops s"
    and lock: "tx_locked s"
    and b: "ar_resp (mb_async_resps s ar) = Some b" and seq: "assigns_seq flags s"
    and fresh: "fresh_resp ar b s"
  shows "cmd' = the (op_set_cmd_elem_seq ops) cmd (mb_cur_seq s)"
    and "\<exists>s1. wl_shrinks ops s s1 \<and> enqueued ops ar aw b s1 r s'"
proof -
  let ?cmd = "the (op_set_cmd_elem_seq ops) cmd (mb_cur_seq s)"
  obtain r1 s1 where w: "the (op_wait_for_tx_queue_not_full ops) s = (r1, s1)" by force
  have sh: "wl_shrinks ops s s1" using core_wait_not_full [OF inv lock w] .
  have c1: "mb_cur_seq s1 = mb_cur_seq s" "mb_mode s1 = mb_mode s"
    "ar_resp (mb_async_resps s1 ar) = Some b"
    using sh b fresh by (auto simp: wl_shrinks_def fresh_resp_def)
  let ?s1 = "s1\<lparr>mb_resp_bufs := (mb_resp_bufs s1)
      (b := the (op_set_resp_elem_seq ops) (mb_resp_bufs s1 b) (mb_cur_seq s)),
    mb_async_resps := (mb_async_resps s1)(ar := (mb_async_resps s1 ar)
      \<lparr>ar_status := GCIP_MAILBOX_STATUS_WAITING_RESPONSE\<rparr>)\<rparr>"
  obtain r2 s2 where p: "gcip_mailbox_push_wait_resp K ops ar aw at ?s1 = (r2, s2)" by force
  note c2 = push_wait_resp_core [OF p]
  have e: "enqueue_wait_resp K ops ?cmd ar aw at s1 = (r2, s2)"
    using c1(3) p by (simp add: enqueue_wait_resp_def Let_def cmd_seq)
  let ?s3 = "enqueue_copy ops ?cmd s2"
  obtain r4 s4 where a: "(case op_after_enqueue_cmd ops of
    Some f \<Rightarrow> f ?cmd ?s3 | None \<Rightarrow> (0, ?s3)) = (r4, s4)" by (rule prod.exhaust)
  have c4: "r4 = 0" "mb_core s4 = mb_core s2"
    using a core_after enqueue_copy_core [of ?cmd s2] by (auto split: option.splits)
  have seq4: "assigns_seq flags s4"
    using seq c1 c2(4) c4(2) by (simp add: assigns_seq_def mb_core_eq_iff)
  have res: "(r, cmd', s') = (if r1 \<noteq> 0 then (r1, ?cmd, s1) else if r2 \<noteq> 0 then (r2, ?cmd, s2)
      else (0, ?cmd, s4\<lparr>mb_cur_seq := mb_cur_seq s4 + 1\<rparr>))"
    using r c4(1) seq4
    unfolding enqueue_cmd_locked_def Let_def seq [THEN eqTrueI] if_True w prod.case e a
    by (simp add: gcip_mailbox_inc_seq_num_locked_def Let_def split: if_splits)
  then show "cmd' = ?cmd" by (auto split: if_splits)
  have "enqueued ops ar aw b s1 r s'"
    using res c1 c2 c4(2)
    by (auto simp: enqueued_def mb_core_eq_iff resp_elem_seq split: if_splits)
  with sh show "\<exists>s1. wl_shrinks ops s s1 \<and> enqueued ops ar aw b s1 r s'" by blast
qed

lemma enqueue_cmd_core:
  assumes r: "gcip_mailbox_enqueue_cmd K ops cmd ar aw flags s = (r, cmd', s')"
    and inv: "wl_inv ops s" and b: "ar_resp (mb_async_resps s ar) = Some b"
    and seq: "assigns_seq flags s" and fresh: "fresh_resp ar b s"
  shows "cmd' = the (op_set_cmd_elem_seq ops) cmd (mb_cur_seq s)"
    and "\<exists>s1. wl_shrinks ops s s1 \<and> enqueued ops ar aw b s1 r s'"
proof -
  obtain l at s0 where a: "the (op_acquire_tx_queue_lock ops) False False s = (l, at, s0)"
    by (rule prod_cases3)
  obtain r2 cmd2 s2 where e: "enqueue_cmd_locked K ops cmd ar aw flags at s0 = (r2, cmd2, s2)"
    by (rule prod_cases3)
  have res: "r2 = r" "cmd2 = cmd'" "s' = the (op_release_tx_queue_lock ops) s2"
    using r by (simp_all add: gcip_mailbox_enqueue_cmd_def a e)
  have c0: "mb_core s0 = mb_core s" "tx_locked s0" using core_acquire_tx [OF a] by simp_all
  have "wl_inv ops s0" "tx_locked s0" "ar_resp (mb_async_resps s0 ar) = Some b" "assigns_seq flags s0"
    "fresh_resp ar b s0"
    using inv b seq fresh wl_inv_cong [OF c0(1)] c0
    by (auto simp: mb_core_eq_iff assigns_seq_def fresh_resp_def wl_buf_def)
  note locked = enqueue_cmd_locked_core [OF e [unfolded res] this]
  show "cmd' = the (op_set_cmd_elem_seq ops) cmd (mb_cur_seq s)"
    using locked(1) c0 by (simp add: mb_core_eq_iff)
  show "\<exists>s1. wl_shrinks ops s s1 \<and> enqueued ops ar aw b s1 r s'"
    using locked(2) wl_shrinks_cong [OF c0(1) refl] enqueued_cong [OF core_release_tx [of s2]] res
    by auto
qed

lemma enqueue_cmd_inv:
  assumes "gcip_mailbox_enqueue_cmd K ops cmd ar aw flags s = (r, cmd', s')"
    and "wl_inv ops s" and "ar_resp (mb_async_resps s ar) = Some b"
    and "assigns_seq flags s" and "fresh_resp ar b s" and "mb_cur_seq s + 1 \<noteq> 0"
  shows "wl_inv ops s'"
proof -
  obtain s1 where s1: "wl_shrinks ops s s1" "enqueued ops ar aw b s1 r s'"
    using enqueue_cmd_core(2) [OF assms(1-5)] by blast
  have "fresh_resp ar b s1" using s1(1) assms(5) by (rule wl_shrinks_fresh)
  moreover have "wl_inv ops s1" "mb_cur_seq s1 + 1 \<noteq> 0"
    using s1(1) assms(6) by (simp_all add: wl_shrinks_def)
  ultimately show ?thesis using s1(2) enqueued_inv by blast
qed

lemma del_wait_resp_inv:
  assumes d: "gcip_mailbox_del_wait_resp ops ar s = (removed, s')" and inv: "wl_inv ops s"
    and b: "ar_resp (mb_async_resps s ar) \<noteq> None"
  shows "wl_inv ops s'" and "\<forall>e \<in> set (mb_wait_list s'). wl_async_resp e \<noteq> ar"
    and "mb_async_resps s' = mb_async_resps s"
proof -
  obtain q where q: "resp_seq ops s ar = Some q" using b by (auto simp: resp_seq_def)
  let ?P = "\<lambda>cur. resp_seq ops s (wl_async_resp cur) = Some q"
  show "wl_inv ops s'" and "\<forall>e \<in> set (mb_wait_list s'). wl_async_resp e \<noteq> ar"
    and "mb_async_resps s' = mb_async_resps s"
  proof (atomize (full), cases "take_first ?P (mb_wait_list s)")
    case None
    then have "s' = s" using d q by (simp add: gcip_mailbox_del_wait_resp_def)
    with None show "wl_inv ops s' \<and> (\<forall>e \<in> set (mb_wait_list s'). wl_async_resp e \<noteq> ar) \<and>
        mb_async_resps s' = mb_async_resps s"
      using q inv by (auto simp: take_first_None_iff)
  next
    case (Some x)
    then obtain e rest where t: "take_first ?P (mb_wait_list s) = Some (e, rest)" by (cases x) auto
    then obtain us vs where wl: "mb_wait_list s = us @ e # vs" "rest = us @ vs" "?P e"
      by (rule take_first_SomeE)
    have core: "mb_core s' = mb_core (s\<lparr>mb_wait_list := rest\<rparr>)"
      using d q t core_dec_refs
      by (auto simp: gcip_mailbox_del_wait_resp_def Let_def split: option.splits)
    have "wl_inv ops (s\<lparr>mb_wait_list := rest\<rparr>)"
      using wl by (intro wl_inv_remove [OF inv wl(1)]) simp_all
    with core have "wl_inv ops s'" using wl_inv_cong by blast
    moreover have "wl_async_resp u \<noteq> ar" if u: "u \<in> set us \<union> set vs" for u
    proof
      assume "wl_async_resp u = ar"
      then have "wl_seq ops s u = wl_seq ops s e" using q wl(3) by (simp add: wl_seq_def)
      then show False using wl_inv_neq(3) [OF inv wl(1) u] by simp
    qed
    ultimately show "wl_inv ops s' \<and> (\<forall>e \<in> set (mb_wait_list s'). wl_async_resp e \<noteq> ar) \<and>
        mb_async_resps s' = mb_async_resps s"
      using core wl(2) by (auto simp: mb_core_eq_iff)
  qed
qed

end

text \<open>
  Waiting for an event: other tasks run and keep the invariant; they do not redirect the response
  pointers of the waiters in the list; a wait that did not time out ends with the condition true.
\<close>

locale mailbox_sync = mailbox_waits K ops tx_locked
  for K :: "('c, 'r, 'd, 'w) mbox_kernel" and ops :: "('c, 'r, 'd, 'w) mbox_ops"
    and tx_locked :: "('c, 'r, 'd, 'w) mailbox \<Rightarrow> bool" +
  assumes wait_event: "wl_inv ops s \<Longrightarrow> k_wait_event_timeout K cond n s = (left, s') \<Longrightarrow>
    wl_inv ops s' \<and> (left \<noteq> 0 \<longrightarrow> cond s') \<and>
    (\<forall>e \<in> set (mb_wait_list s). ar_resp (mb_async_resps s' (wl_async_resp e)) =
       ar_resp (mb_async_resps s (wl_async_resp e)))"
begin

lemma on_error_core: "mb_core (on_error ops e s) = mb_core s"
  using core_on_error by (simp add: on_error_def split: option.split)

lemma wait_then_delete:
  assumes inv: "wl_inv ops s" and e: "e \<in> set (mb_wait_list s)" and ar: "wl_async_resp e = ar"
    and w: "k_wait_event_timeout K
      (\<lambda>s. ar_status (mb_async_resps s ar) \<noteq> GCIP_MAILBOX_STATUS_WAITING_RESPONSE) n s = (left, s1)"
    and s': "s' = (if left = 0 then snd (gcip_mailbox_del_wait_resp ops ar s1) else s1)"
  shows "wl_inv ops s'" and "\<forall>u \<in> set (mb_wait_list s'). wl_async_resp u \<noteq> ar"
proof -
  have w1: "wl_inv ops s1"
    "left \<noteq> 0 \<Longrightarrow> ar_status (mb_async_resps s1 ar) \<noteq> GCIP_MAILBOX_STATUS_WAITING_RESPONSE"
    "ar_resp (mb_async_resps s1 ar) \<noteq> None"
    using wait_event [OF inv w] wl_invD(1) [OF inv e] e ar by (auto simp: wl_buf_def)
  obtain rm s2 where d: "gcip_mailbox_del_wait_resp ops ar s1 = (rm, s2)" by force
  note del = del_wait_resp_inv [OF d w1(1,3)]
  show "wl_inv ops s'" using del w1 d s' by simp
  show "\<forall>u \<in> set (mb_wait_list s'). wl_async_resp u \<noteq> ar"
  proof (cases "left = 0")
    case False
    then show ?thesis using w1(2) wl_invD(2) [OF w1(1)] s' by auto
  qed (use del d s' in simp)
qed

lemma send_cmd_no_dangling:
  assumes send: "gcip_mailbox_send_cmd K ops ar cmd (Some b) flags s = (r, s')"
    and inv: "wl_inv ops s" and fresh: "fresh_resp ar b s"
    and seq: "assigns_seq flags s" and cur: "mb_cur_seq s + 1 \<noteq> 0"
  shows "wl_inv ops s' \<and> (\<forall>u \<in> set (mb_wait_list s'). wl_async_resp u \<noteq> ar) \<and>
    (r = 0 \<longrightarrow> ar_status (mb_async_resps s' ar) = GCIP_MAILBOX_STATUS_OK)"
proof -
  let ?s = "s\<lparr>mb_async_resps := (mb_async_resps s)(ar := \<lparr>ar_status = 0, ar_resp = Some b\<rparr>)\<rparr>"
  have view: "wl_view ops ?s e = wl_view ops s e" and buf: "wl_buf ?s e = wl_buf s e"
    if "e \<in> set (mb_wait_list s)" for e
    using fresh that
    by (simp_all add: fresh_resp_def wl_view_def wl_buf_def wl_seq_def resp_seq_def)
  have inv0: "wl_inv ops ?s"
    using inv view by (simp add: wl_inv_def cong: map_cong)
  have fresh0: "fresh_resp ar b ?s" using fresh buf by (simp add: fresh_resp_def)
  have seq0: "assigns_seq flags ?s" using seq by (simp add: assigns_seq_def)
  have b0: "ar_resp (mb_async_resps ?s ar) = Some b" by simp
  obtain r1 cmd1 s1 where e: "gcip_mailbox_enqueue_cmd K ops cmd ar None flags ?s = (r1, cmd1, s1)"
    by (rule prod_cases3)
  have inv1: "wl_inv ops s1" using enqueue_cmd_inv [OF e inv0 b0 seq0 fresh0] cur by simp
  obtain sx where sx: "wl_shrinks ops ?s sx" "enqueued ops ar None b sx r1 s1"
    using enqueue_cmd_core(2) [OF e inv0 b0 seq0 fresh0] by blast
  have fin: "wl_inv ops (on_error ops x t) \<and>
      (\<forall>u \<in> set (mb_wait_list (on_error ops x t)). wl_async_resp u \<noteq> ar)"
    if "wl_inv ops t" "\<forall>u \<in> set (mb_wait_list t). wl_async_resp u \<noteq> ar" for x t
    using that on_error_core [of x t] wl_inv_cong [OF on_error_core [of x t]]
    by (simp add: mb_core_eq_iff)
  show ?thesis
  proof (cases "r1 = 0")
    case False
    then have s': "s' = on_error ops r1 s1" "r = r1"
      using send by (auto simp: gcip_mailbox_send_cmd_def e)
    have "\<forall>u \<in> set (mb_wait_list s1). wl_async_resp u \<noteq> ar"
      using sx False wl_shrinks_fresh [OF sx(1) fresh0] by (simp add: enqueued_def fresh_resp_def)
    then show ?thesis using fin [OF inv1] s' False by simp
  next
    case True
    let ?e = "\<lparr>wl_async_resp = ar, wl_awaiter = None\<rparr>"
    have mem: "?e \<in> set (mb_wait_list s1)" using sx(2) True by (simp add: enqueued_def)
    obtain left s2 where w: "k_wait_event_timeout K
      (\<lambda>s. ar_status (mb_async_resps s ar) \<noteq> GCIP_MAILBOX_STATUS_WAITING_RESPONSE)
      (mb_timeout s1) s1 = (left, s2)" by (rule prod.exhaust)
    note wd = wait_then_delete [OF inv1 mem _ w refl]
    show ?thesis
      using send wd fin True
      by (auto simp: gcip_mailbox_send_cmd_def e w Let_def case_prod_beta split: if_splits)
  qed
qed

end

section \<open>Properties\<close>



text \<open>A mailbox with two waiters, whose elements are their sequence numbers.\<close>

definition seq_ops :: "(u64, u64, unit, unit) mbox_ops" where
  "seq_ops = no_ops\<lparr>op_get_cmd_elem_seq := Some id, op_set_cmd_elem_seq := Some (\<lambda>c q. q),
     op_get_resp_elem_seq := Some id, op_set_resp_elem_seq := Some (\<lambda>r q. q)\<rparr>"

definition waits_example :: "(u64, u64, unit, unit) mailbox" where
  "waits_example = \<lparr>mb_mode = GCIP_MAILBOX_MODE_FORWARD, mb_queue_wrap_bit = 8, mb_cur_seq = 5,
     mb_tx_queue = (\<lambda>_. 0), mb_rx_queue = (\<lambda>_. 0),
     mb_wait_list = [\<lparr>wl_async_resp = 1, wl_awaiter = None\<rparr>, \<lparr>wl_async_resp = 2, wl_awaiter = None\<rparr>],
     mb_timeout = 2000, mb_ops = True,
     mb_async_resps = (\<lambda>a. \<lparr>ar_status = GCIP_MAILBOX_STATUS_WAITING_RESPONSE, ar_resp = Some (a + 10)\<rparr>),
     mb_resp_bufs = (\<lambda>_. 0)(11 := 3, 12 := 4), mb_awaiters = (\<lambda>_. None), mb_fault = False,
     mb_world = ()\<rparr>"

lemma waits_example_inv: "wl_inv seq_ops waits_example"
  by (simp add: wl_inv_def view_ok_def wl_view_def wl_buf_def wl_seq_def resp_seq_def seq_ops_def
      no_ops_def waits_example_def)



end
