(* ===== verification/Mailbox_Tx.thy ===== *)
theory Mailbox_Tx
  imports Mailbox_Laws
begin

text \<open>
  The transmit side of the mailbox. The interface \<open>mailbox_tx\<close> is what \<open>gcip_mailbox_enqueue_cmd\<close>
  relies on in the operators of the command queue; inside it, enqueueing a command refines
  appending to a bounded first-in first-out list that the device consumes.
\<close>

section \<open>Slots at 64 bits\<close>

text \<open>The wrap bit of a mailbox is kept at 64 bits while indices and queue sizes have 32.\<close>

lemma real_index_ucast:
  assumes "k < 32"
  shows "unat (CIRC_QUEUE_REAL_INDEX (ucast (t :: u32)) (2 ^ k :: u64)) =
    unat (CIRC_QUEUE_REAL_INDEX t (2 ^ k))"
proof -
  have "unat (ucast t :: u64) = unat t"
    using unat_bound_u32 [of t] by (simp add: unsigned_ucast_eq take_bit_eq_mod)
  then show ?thesis by (simp add: circ_defs mask_simps)
qed

definition wide_wrap :: "('c, 'r, 'd, 'w) mailbox \<Rightarrow> bool" where
  "wide_wrap s \<longleftrightarrow> (\<exists>k < 32. mb_queue_wrap_bit s = 2 ^ k)"

lemma wide_wrap_slot:
  assumes "wide_wrap s"
  shows "unat (CIRC_QUEUE_REAL_INDEX (ucast (t :: u32)) (mb_queue_wrap_bit s)) =
    unat (CIRC_QUEUE_REAL_INDEX t (ucast (mb_queue_wrap_bit s)))"
proof -
  obtain k where k: "k < 32" "mb_queue_wrap_bit s = 2 ^ k" using assms by (auto simp: wide_wrap_def)
  have "(ucast ((2::u64) ^ k) :: u32) = 2 ^ k"
    using k(1) by (intro bit_word_eqI) (auto simp: bit_simps)
  with k show ?thesis by (simp add: real_index_ucast)
qed

section \<open>The interface\<close>

lemma enqueue_cmd_wait_error:
  assumes "the (op_acquire_tx_queue_lock ops) False False s = (l, at, s1)"
    and "the (op_wait_for_tx_queue_not_full ops) s1 = (e, s2)" and "e \<noteq> 0"
    and "gcip_mailbox_enqueue_cmd K ops cmd ar aw flags s = (r, cmd', s')"
  shows "r = e"
  using assms by (simp add: gcip_mailbox_enqueue_cmd_def enqueue_cmd_locked_def Let_def)

definition tx_tail :: "('c, 'r, 'd, 'w) mbox_ops \<Rightarrow> ('c, 'r, 'd, 'w) mailbox \<Rightarrow> u32" where
  "tx_tail ops s = the (op_get_tx_queue_tail ops) s"

definition tx_geom ::
  "(('c, 'r, 'd, 'w) mailbox \<Rightarrow> u32) \<Rightarrow> ('c, 'r, 'd, 'w) mailbox \<Rightarrow> u32 \<times> u32" where
  "tx_geom tx_size s = (tx_size s, ucast (mb_queue_wrap_bit s))"

definition tx_contents ::
  "('c, 'r, 'd, 'w) mbox_ops \<Rightarrow> (('c, 'r, 'd, 'w) mailbox \<Rightarrow> u32) \<Rightarrow>
     (('c, 'r, 'd, 'w) mailbox \<Rightarrow> u32) \<Rightarrow> ('c, 'r, 'd, 'w) mailbox \<Rightarrow> 'c list" where
  "tx_contents ops tx_size tx_head s =
     circ_contents (mb_tx_queue s) (tx_size s) (ucast (mb_queue_wrap_bit s)) (tx_head s) (tx_tail ops s)"

text \<open>The transmit registers stay as they are: everything but the queue memory.\<close>

definition tx_regs ::
  "('c, 'r, 'd, 'w) mbox_ops \<Rightarrow> (('c, 'r, 'd, 'w) mailbox \<Rightarrow> u32) \<Rightarrow>
     (('c, 'r, 'd, 'w) mailbox \<Rightarrow> u32) \<Rightarrow> ('c, 'r, 'd, 'w) mailbox \<Rightarrow> u32 \<times> u64 \<times> u32 \<times> u32" where
  "tx_regs ops tx_size tx_head s = (tx_size s, mb_queue_wrap_bit s, tx_head s, tx_tail ops s)"

locale mailbox_tx =
  fixes K :: "('c, 'r, 'd, 'w) mbox_kernel"
    and ops :: "('c, 'r, 'd, 'w) mbox_ops"
    and tx_inv :: "('c, 'r, 'd, 'w) mailbox \<Rightarrow> bool"
    and tx_size :: "('c, 'r, 'd, 'w) mailbox \<Rightarrow> u32"
    and tx_head :: "('c, 'r, 'd, 'w) mailbox \<Rightarrow> u32"
    and tx_locked :: "('c, 'r, 'd, 'w) mailbox \<Rightarrow> bool"
  assumes tx_ok: "tx_inv s \<Longrightarrow> wide_wrap s \<and> circ_ok (tx_geom tx_size s) (tx_head s) (tx_tail ops s)"
    and tx_local: "tx_inv s \<Longrightarrow> mb_world s' = mb_world s \<Longrightarrow>
      mb_queue_wrap_bit s' = mb_queue_wrap_bit s \<Longrightarrow>
      tx_inv s' \<and> tx_regs ops tx_size tx_head s' = tx_regs ops tx_size tx_head s"
    and tx_wait: "tx_inv s \<Longrightarrow> tx_locked s \<Longrightarrow> the (op_wait_for_tx_queue_not_full ops) s = (r, s') \<Longrightarrow>
      tx_inv s' \<and>
      (\<exists>n. tx_contents ops tx_size tx_head s' = drop n (tx_contents ops tx_size tx_head s)) \<and>
      (r = 0 \<longrightarrow> circ_cnt (tx_geom tx_size s') (tx_head s') (tx_tail ops s') < unat (tx_size s'))"
    and tx_inc: "tx_inv s \<Longrightarrow>
      circ_cnt (tx_geom tx_size s) (tx_head s) (tx_tail ops s) < unat (tx_size s) \<Longrightarrow>
      the (op_inc_tx_queue_tail ops) 1 s = s' \<Longrightarrow>
      tx_inv s' \<and> mb_tx_queue s' = mb_tx_queue s \<and> tx_regs ops tx_size tx_head s' =
        (tx_size s, mb_queue_wrap_bit s, tx_head s, circ_inc (tx_geom tx_size s) (tx_tail ops s) 1)"
    and tx_acquire: "tx_inv s \<Longrightarrow> the (op_acquire_tx_queue_lock ops) tr at s = (r, at', s') \<Longrightarrow>
      tx_inv s' \<and> tx_locked s' \<and> mb_tx_queue s' = mb_tx_queue s \<and>
      tx_regs ops tx_size tx_head s' = tx_regs ops tx_size tx_head s"
    and tx_release: "tx_inv s \<Longrightarrow> the (op_release_tx_queue_lock ops) s = s' \<Longrightarrow>
      tx_inv s' \<and> mb_tx_queue s' = mb_tx_queue s \<and>
      tx_regs ops tx_size tx_head s' = tx_regs ops tx_size tx_head s"
    and tx_before: "tx_inv s \<Longrightarrow> op_before_enqueue_wait_list ops = Some f \<Longrightarrow> f b aw s = (r, s') \<Longrightarrow>
      tx_inv s' \<and> mb_tx_queue s' = mb_tx_queue s \<and>
      tx_regs ops tx_size tx_head s' = tx_regs ops tx_size tx_head s"
    and tx_after: "tx_inv s \<Longrightarrow> op_after_enqueue_cmd ops = Some g \<Longrightarrow> g c s = (r, s') \<Longrightarrow>
      r = 0 \<and> tx_inv s' \<and> mb_tx_queue s' = mb_tx_queue s \<and>
      tx_regs ops tx_size tx_head s' = tx_regs ops tx_size tx_head s"
    and tx_kzalloc: "tx_inv s \<Longrightarrow> k_kzalloc K at s = (p, s') \<Longrightarrow>
      tx_inv s' \<and> mb_tx_queue s' = mb_tx_queue s \<and>
      tx_regs ops tx_size tx_head s' = tx_regs ops tx_size tx_head s"
begin

abbreviation regs :: "('c, 'r, 'd, 'w) mailbox \<Rightarrow> u32 \<times> u64 \<times> u32 \<times> u32" where
  "regs \<equiv> tx_regs ops tx_size tx_head"

abbreviation contents :: "('c, 'r, 'd, 'w) mailbox \<Rightarrow> 'c list" where
  "contents \<equiv> tx_contents ops tx_size tx_head"

lemma contents_cong: "regs s' = regs s \<Longrightarrow> mb_tx_queue s' = mb_tx_queue s \<Longrightarrow> contents s' = contents s"
  by (simp add: tx_regs_def tx_contents_def)

lemma enqueue_copy_appends:
  assumes inv: "tx_inv s"
    and room: "circ_cnt (tx_geom tx_size s) (tx_head s) (tx_tail ops s) < unat (tx_size s)"
  shows "tx_inv (enqueue_copy ops cmd s)" and "contents (enqueue_copy ops cmd s) = contents s @ [cmd]"
proof -
  let ?i = "unat (CIRC_QUEUE_REAL_INDEX (ucast (tx_tail ops s)) (mb_queue_wrap_bit s))"
  let ?s = "s\<lparr>mb_tx_queue := (mb_tx_queue s)(?i := cmd)\<rparr>"
  have loc: "tx_inv ?s" "regs ?s = regs s" using tx_local [OF inv, of ?s] by simp_all
  have geom: "tx_geom tx_size ?s = tx_geom tx_size s" "tx_head ?s = tx_head s"
    "tx_tail ops ?s = tx_tail ops s" "tx_size ?s = tx_size s"
    using loc(2) by (simp_all add: tx_regs_def tx_geom_def)
  have e: "enqueue_copy ops cmd s = the (op_inc_tx_queue_tail ops) 1 ?s"
    by (simp add: enqueue_copy_def Let_def tx_tail_def)
  have "tx_inv (enqueue_copy ops cmd s) \<and> mb_tx_queue (enqueue_copy ops cmd s) = mb_tx_queue ?s \<and>
    regs (enqueue_copy ops cmd s) =
      (tx_size s, mb_queue_wrap_bit s, tx_head s, circ_inc (tx_geom tx_size s) (tx_tail ops s) 1)"
    using tx_inc [OF loc(1) _ e [symmetric]] room by (simp add: geom)
  then have inc: "tx_inv (enqueue_copy ops cmd s)"
    "mb_tx_queue (enqueue_copy ops cmd s) = (mb_tx_queue s)(?i := cmd)"
    "regs (enqueue_copy ops cmd s) =
      (tx_size s, mb_queue_wrap_bit s, tx_head s, circ_inc (tx_geom tx_size s) (tx_tail ops s) 1)"
    by simp_all
  show "tx_inv (enqueue_copy ops cmd s)" by (rule inc(1))
  have slot: "?i = circ_slot (tx_geom tx_size s) (tx_tail ops s)"
    using tx_ok [OF inv] wide_wrap_slot [of s] by (simp add: circ_slot_def tx_geom_def)
  have "circ_cnt (tx_geom tx_size s) (tx_head s) (tx_tail ops s) < unat (fst (tx_geom tx_size s))"
    using room by (simp add: tx_geom_def)
  from circ.push_contents [OF conjunct2 [OF tx_ok [OF inv]] this, of "mb_tx_queue s" cmd]
  show "contents (enqueue_copy ops cmd s) = contents s @ [cmd]"
    using inc(2,3) slot
    by (simp add: tx_contents_def tx_regs_def circ_contents_def circ_cnt_def circ_slot_def tx_geom_def)
qed

lemma push_wait_resp_tx:
  assumes inv: "tx_inv s" and p: "gcip_mailbox_push_wait_resp K ops ar aw at s = (r, s')"
  shows "tx_inv s' \<and> mb_tx_queue s' = mb_tx_queue s \<and> regs s' = regs s"
proof -
  obtain p s1 where k: "k_kzalloc K at s = (p, s1)" by force
  obtain r2 s2 where b: "(case op_before_enqueue_wait_list ops of
    Some f \<Rightarrow> f (the (ar_resp (mb_async_resps s1 ar))) aw s1 | None \<Rightarrow> (0, s1)) = (r2, s2)"
    by (rule prod.exhaust)
  note c1 = tx_kzalloc [OF inv k]
  have c2: "tx_inv s2 \<and> mb_tx_queue s2 = mb_tx_queue s1 \<and> regs s2 = regs s1"
    using b tx_before c1 by (auto split: option.splits)
  let ?s3 = "case aw of Some p \<Rightarrow> refcount_inc_awaiter p s2 | None \<Rightarrow> s2"
  let ?s4 = "?s3\<lparr>mb_wait_list := mb_wait_list ?s3 @ [\<lparr>wl_async_resp = ar, wl_awaiter = aw\<rparr>]\<rparr>"
  have "mb_world ?s4 = mb_world s2" "mb_queue_wrap_bit ?s4 = mb_queue_wrap_bit s2"
    "mb_tx_queue ?s4 = mb_tx_queue s2"
    by (simp_all add: refcount_inc_awaiter_def fault_def set_awaiter_def split: option.split)
  moreover from this have "tx_inv ?s4 \<and> regs ?s4 = regs s2" using tx_local c2 by blast
  moreover have "(r, s') = (if p = None then (- ENOMEM, s1) else if r2 \<noteq> 0 then (r2, s2) else (0, ?s4))"
    using p unfolding gcip_mailbox_push_wait_resp_def k Let_def prod.case b by simp
  ultimately show ?thesis using c1 c2 by (auto split: if_splits)
qed

lemma enqueue_wait_resp_tx:
  assumes inv: "tx_inv s" and e: "enqueue_wait_resp K ops cmd ar aw at s = (r, s')"
  shows "tx_inv s' \<and> mb_tx_queue s' = mb_tx_queue s \<and> regs s' = regs s"
proof (cases "ar_resp (mb_async_resps s ar)")
  case None
  with e inv show ?thesis by (simp add: enqueue_wait_resp_def)
next
  case (Some b)
  let ?s = "s\<lparr>mb_resp_bufs := (mb_resp_bufs s)(b := the (op_set_resp_elem_seq ops) (mb_resp_bufs s b)
      (the (op_get_cmd_elem_seq ops) cmd)),
    mb_async_resps := (mb_async_resps s)(ar := (mb_async_resps s ar)
      \<lparr>ar_status := GCIP_MAILBOX_STATUS_WAITING_RESPONSE\<rparr>)\<rparr>"
  have "tx_inv ?s" "regs ?s = regs s" using tx_local [OF inv, of ?s] by simp_all
  moreover have "gcip_mailbox_push_wait_resp K ops ar aw at ?s = (r, s')"
    using e Some by (simp add: enqueue_wait_resp_def Let_def)
  ultimately show ?thesis using push_wait_resp_tx by fastforce
qed

lemma enqueue_cmd_locked_fifo:
  assumes inv: "tx_inv s" and lock: "tx_locked s"
    and e: "enqueue_cmd_locked K ops cmd ar aw flags at s = (r, cmd', s')"
  shows "tx_inv s' \<and>
    contents s' = contents (snd (the (op_wait_for_tx_queue_not_full ops) s)) @
      (if r = 0 then [cmd'] else [])"
proof -
  let ?cmd = "if assigns_seq flags s then the (op_set_cmd_elem_seq ops) cmd (mb_cur_seq s) else cmd"
  obtain r1 s1 where w: "the (op_wait_for_tx_queue_not_full ops) s = (r1, s1)" by force
  have c1: "tx_inv s1"
    "r1 = 0 \<longrightarrow> circ_cnt (tx_geom tx_size s1) (tx_head s1) (tx_tail ops s1) < unat (tx_size s1)"
    using tx_wait [OF inv lock w] by blast+
  obtain r2 s2 where p: "enqueue_wait_resp K ops ?cmd ar aw at s1 = (r2, s2)" by (rule prod.exhaust)
  have c2: "tx_inv s2" "mb_tx_queue s2 = mb_tx_queue s1" "regs s2 = regs s1"
    using enqueue_wait_resp_tx [OF c1(1) p] by simp_all
  let ?s3 = "enqueue_copy ops ?cmd s2"
  obtain r4 s4 where a: "(case op_after_enqueue_cmd ops of
    Some f \<Rightarrow> f ?cmd ?s3 | None \<Rightarrow> (0, ?s3)) = (r4, s4)" by (rule prod.exhaust)
  let ?s5 = "if assigns_seq flags s4 then snd (gcip_mailbox_inc_seq_num_locked 1 s4) else s4"
  have res: "(r, cmd', s') = (if r1 \<noteq> 0 then (r1, ?cmd, s1) else if r2 \<noteq> 0 then (r2, ?cmd, s2)
      else if r4 \<noteq> 0 then (r4, ?cmd, s4) else (0, ?cmd, ?s5))"
    using e unfolding enqueue_cmd_locked_def Let_def w prod.case p a by simp
  have full: "tx_inv ?s5 \<and> contents ?s5 = contents s1 @ [?cmd] \<and> r4 = 0" if "r1 = 0"
  proof -
    have room: "circ_cnt (tx_geom tx_size s2) (tx_head s2) (tx_tail ops s2) < unat (tx_size s2)"
      using c1(2) that c2(3) by (simp add: tx_regs_def tx_geom_def)
    note app = enqueue_copy_appends [OF c2(1) room, of ?cmd]
    have s4: "tx_inv s4 \<and> mb_tx_queue s4 = mb_tx_queue ?s3 \<and> regs s4 = regs ?s3 \<and> r4 = 0"
      using a tx_after [OF app(1)] app(1) by (auto split: option.splits)
    have "mb_world ?s5 = mb_world s4" "mb_queue_wrap_bit ?s5 = mb_queue_wrap_bit s4"
      "mb_tx_queue ?s5 = mb_tx_queue s4"
      by (simp_all add: gcip_mailbox_inc_seq_num_locked_def Let_def)
    moreover from this have "tx_inv ?s5 \<and> regs ?s5 = regs s4" using tx_local s4 by blast
    ultimately show ?thesis
      using s4 app(2) contents_cong [of ?s5 ?s3] contents_cong [OF c2(3,2)] by simp
  qed
  show ?thesis
    using res full c1(1) c2 contents_cong [OF c2(3,2)] by (auto simp: w split: if_splits)
qed

text \<open>
  The command is appended to what the queue holds once the call has waited for room; while it waits
  the device may consume commands.
\<close>

lemma enqueue_cmd_fifo:
  assumes inv: "tx_inv s" and e: "gcip_mailbox_enqueue_cmd K ops cmd ar aw flags s = (r, cmd', s')"
    and a: "the (op_acquire_tx_queue_lock ops) False False s = (l, at, s1)"
  shows "tx_inv s' \<and>
    contents s' = contents (snd (the (op_wait_for_tx_queue_not_full ops) s1)) @
      (if r = 0 then [cmd'] else [])"
proof -
  obtain r2 cmd2 s2 where d: "enqueue_cmd_locked K ops cmd ar aw flags at s1 = (r2, cmd2, s2)"
    by (rule prod_cases3)
  have res: "r2 = r" "cmd2 = cmd'" "the (op_release_tx_queue_lock ops) s2 = s'"
    using e by (simp_all add: gcip_mailbox_enqueue_cmd_def a d)
  have c2: "tx_inv s2 \<and>
    contents s2 = contents (snd (the (op_wait_for_tx_queue_not_full ops) s1)) @
      (if r = 0 then [cmd'] else [])"
    using enqueue_cmd_locked_fifo [OF _ _ d] tx_acquire [OF inv a] unfolding res by simp
  then have "tx_inv s' \<and> mb_tx_queue s' = mb_tx_queue s2 \<and> regs s' = regs s2"
    using tx_release [OF _ res(3)] by simp
  then show ?thesis using c2 contents_cong [of s' s2] by simp
qed

lemma enqueue_cmd_consumed:
  assumes inv: "tx_inv s" and e: "gcip_mailbox_enqueue_cmd K ops cmd ar aw flags s = (r, cmd', s')"
  shows "tx_inv s' \<and> (\<exists>n. contents s' = drop n (contents s) @ (if r = 0 then [cmd'] else []))"
proof -
  obtain l at s1 where a: "the (op_acquire_tx_queue_lock ops) False False s = (l, at, s1)"
    by (rule prod_cases3)
  note s1 = tx_acquire [OF inv a]
  have "contents s1 = contents s" using s1 by (intro contents_cong) simp_all
  then have "\<exists>n. contents (snd (the (op_wait_for_tx_queue_not_full ops) s1)) = drop n (contents s)"
    using tx_wait [of s1 "fst (the (op_wait_for_tx_queue_not_full ops) s1)"] s1 by (metis prod.collapse)
  with enqueue_cmd_fifo [OF inv e a] show ?thesis by auto
qed

end

end
