(* ===== verification/Gxp_Mailbox.thy ===== *)
theory Gxp_Mailbox
  imports Mailbox_Laws Mailbox_Tx
begin

text \<open>
  The DSP driver's mailbox: \<^verbatim>\<open>gxp-mailbox-driver.c\<close>, the chip part \<^verbatim>\<open>gxp-gsx01-mailbox.c\<close> and
  the interrupt and reset calls of \<^verbatim>\<open>gxp-mailbox.c\<close>. Head and tail of the two queues are packed by
  halves into two 32-bit registers. The theory ends with the proof that the queue operators
  \<open>gxp_mailbox_gcip_ops_*\<close> provide the receive interface of the generic mailbox.

  The registers are a function from offsets to values, writes to the control registers are logged in
  order. What the device does between two reads of the response tail is a function \<open>dev\<close> on the
  mailbox state, a parameter of the operators: the firmware is not part of the sources.
\<close>

section \<open>Registers\<close>

definition MBOX_MCUCTLR_OFFSET :: u32 where "MBOX_MCUCTLR_OFFSET = 0x0000"
definition MBOX_INTGR0_OFFSET :: u32 where "MBOX_INTGR0_OFFSET = 0x0020"
definition MBOX_INTCR1_OFFSET :: u32 where "MBOX_INTCR1_OFFSET = 0x0044"
definition MBOX_INTMSR1_OFFSET :: u32 where "MBOX_INTMSR1_OFFSET = 0x0050"
definition MBOX_DATA_STATUS_OFFSET :: u32 where "MBOX_DATA_STATUS_OFFSET = 0x00"
definition MBOX_DATA_DESCRIPTOR_ADDR_OFFSET :: u32 where "MBOX_DATA_DESCRIPTOR_ADDR_OFFSET = 0x04"
definition MBOX_DATA_CMD_TAIL_RESP_HEAD_OFFSET :: u32 where
  "MBOX_DATA_CMD_TAIL_RESP_HEAD_OFFSET = 0x08"
definition MBOX_DATA_CMD_HEAD_RESP_TAIL_OFFSET :: u32 where
  "MBOX_DATA_CMD_HEAD_RESP_TAIL_OFFSET = 0x0C"
definition MBOX_DATA_CONTROL_OFFSET :: u32 where "MBOX_DATA_CONTROL_OFFSET = 0x30"

lemmas offset_defs = MBOX_DATA_STATUS_OFFSET_def MBOX_DATA_DESCRIPTOR_ADDR_OFFSET_def
  MBOX_DATA_CMD_TAIL_RESP_HEAD_OFFSET_def MBOX_DATA_CMD_HEAD_RESP_TAIL_OFFSET_def
  MBOX_DATA_CONTROL_OFFSET_def

definition CMD_TAIL_SHIFT :: nat where "CMD_TAIL_SHIFT = 16"
definition RESP_HEAD_SHIFT :: nat where "RESP_HEAD_SHIFT = 0"
definition CMD_TAIL_MASK :: u32 where "CMD_TAIL_MASK = push_bit CMD_TAIL_SHIFT 0xFFFF"
definition RESP_HEAD_MASK :: u32 where "RESP_HEAD_MASK = push_bit RESP_HEAD_SHIFT 0xFFFF"
definition CMD_HEAD_SHIFT :: nat where "CMD_HEAD_SHIFT = 16"
definition RESP_TAIL_SHIFT :: nat where "RESP_TAIL_SHIFT = 0"
definition CMD_HEAD_MASK :: u32 where "CMD_HEAD_MASK = push_bit CMD_HEAD_SHIFT 0xFFFF"
definition RESP_TAIL_MASK :: u32 where "RESP_TAIL_MASK = push_bit RESP_TAIL_SHIFT 0xFFFF"

lemmas half_defs = CMD_TAIL_SHIFT_def RESP_HEAD_SHIFT_def CMD_TAIL_MASK_def RESP_HEAD_MASK_def
  CMD_HEAD_SHIFT_def RESP_TAIL_SHIFT_def CMD_HEAD_MASK_def RESP_TAIL_MASK_def

section \<open>The mailbox of the driver\<close>

definition GXP_MAILBOX_INT_BIT_COUNT :: u32 where "GXP_MAILBOX_INT_BIT_COUNT = 16"

text \<open>
  \<open>gx_irqs\<close> counts the response interrupts passed on, \<open>gx_scheduled\<close> lists the works scheduled;
  reading the handler table out of its bounds sets \<open>gx_fault\<close>. A mutex or spinlock is a flag.
\<close>

record gxp_mailbox =
  gx_csr_regs :: "u32 \<Rightarrow> u32"
  gx_csr_log :: "(u32 \<times> u32) list"
  gx_data_regs :: "u32 \<Rightarrow> u32"
  gx_handle_irq :: bool
  gx_interrupt_handlers :: "ptr option list"
  gx_cmd_queue_size :: u32
  gx_cmd_queue_tail :: u32
  gx_cmd_queue_lock :: bool
  gx_resp_queue_size :: u32
  gx_resp_queue_head :: u32
  gx_resp_queue_lock :: bool
  gx_descriptor_addr :: u64
  gx_blk_down :: bool
  gx_irqs :: nat
  gx_scheduled :: "ptr list"
  gx_fault :: bool

definition data_read :: "gxp_mailbox \<Rightarrow> u32 \<Rightarrow> u32" where
  "data_read mailbox reg_offset = gx_data_regs mailbox reg_offset"

definition data_write :: "gxp_mailbox \<Rightarrow> u32 \<Rightarrow> u32 \<Rightarrow> gxp_mailbox" where
  "data_write mailbox reg_offset v =
     mailbox\<lparr>gx_data_regs := (gx_data_regs mailbox)(reg_offset := v)\<rparr>"

definition gxp_mailbox_csr_read :: "gxp_mailbox \<Rightarrow> u32 \<Rightarrow> u32" where
  "gxp_mailbox_csr_read mailbox reg_offset = gx_csr_regs mailbox reg_offset"

definition gxp_mailbox_csr_write :: "gxp_mailbox \<Rightarrow> u32 \<Rightarrow> u32 \<Rightarrow> gxp_mailbox" where
  "gxp_mailbox_csr_write mailbox reg_offset v =
     mailbox\<lparr>gx_csr_log := gx_csr_log mailbox @ [(reg_offset, v)]\<rparr>"

definition gxp_mailbox_write_status :: "gxp_mailbox \<Rightarrow> u32 \<Rightarrow> gxp_mailbox" where
  "gxp_mailbox_write_status mailbox status = data_write mailbox MBOX_DATA_STATUS_OFFSET status"

definition gxp_mailbox_write_descriptor :: "gxp_mailbox \<Rightarrow> u64 \<Rightarrow> gxp_mailbox" where
  "gxp_mailbox_write_descriptor mailbox descriptor_addr =
     data_write mailbox MBOX_DATA_DESCRIPTOR_ADDR_OFFSET (ucast descriptor_addr)"

definition gxp_mailbox_write_cmd_queue_tail :: "gxp_mailbox \<Rightarrow> u16 \<Rightarrow> gxp_mailbox" where
  "gxp_mailbox_write_cmd_queue_tail mailbox v =
     (let current_resp_head = data_read mailbox MBOX_DATA_CMD_TAIL_RESP_HEAD_OFFSET AND RESP_HEAD_MASK;
          new_cmd_tail = push_bit CMD_TAIL_SHIFT (ucast v)
      in data_write mailbox MBOX_DATA_CMD_TAIL_RESP_HEAD_OFFSET (new_cmd_tail OR current_resp_head))"

definition gxp_mailbox_write_resp_queue_head :: "gxp_mailbox \<Rightarrow> u16 \<Rightarrow> gxp_mailbox" where
  "gxp_mailbox_write_resp_queue_head mailbox v =
     (let current_cmd_tail = data_read mailbox MBOX_DATA_CMD_TAIL_RESP_HEAD_OFFSET AND CMD_TAIL_MASK;
          new_resp_head = push_bit RESP_HEAD_SHIFT (ucast v)
      in data_write mailbox MBOX_DATA_CMD_TAIL_RESP_HEAD_OFFSET (current_cmd_tail OR new_resp_head))"

definition gxp_mailbox_read_cmd_queue_head :: "gxp_mailbox \<Rightarrow> u16" where
  "gxp_mailbox_read_cmd_queue_head mailbox =
     (let reg_val = data_read mailbox MBOX_DATA_CMD_HEAD_RESP_TAIL_OFFSET
      in ucast (drop_bit CMD_HEAD_SHIFT (reg_val AND CMD_HEAD_MASK)))"

definition gxp_mailbox_read_resp_queue_tail :: "gxp_mailbox \<Rightarrow> u16" where
  "gxp_mailbox_read_resp_queue_tail mailbox =
     (let reg_val = data_read mailbox MBOX_DATA_CMD_HEAD_RESP_TAIL_OFFSET
      in ucast (drop_bit RESP_TAIL_SHIFT (reg_val AND RESP_TAIL_MASK)))"

definition gxp_mailbox_write_cmd_queue_head :: "gxp_mailbox \<Rightarrow> u16 \<Rightarrow> gxp_mailbox" where
  "gxp_mailbox_write_cmd_queue_head mailbox v =
     (let current_resp_tail = data_read mailbox MBOX_DATA_CMD_HEAD_RESP_TAIL_OFFSET AND RESP_TAIL_MASK;
          new_cmd_head = push_bit CMD_HEAD_SHIFT (ucast v)
      in data_write mailbox MBOX_DATA_CMD_HEAD_RESP_TAIL_OFFSET (new_cmd_head OR current_resp_tail))"

definition gxp_mailbox_write_resp_queue_tail :: "gxp_mailbox \<Rightarrow> u16 \<Rightarrow> gxp_mailbox" where
  "gxp_mailbox_write_resp_queue_tail mailbox v =
     (let current_cmd_head = data_read mailbox MBOX_DATA_CMD_HEAD_RESP_TAIL_OFFSET AND CMD_HEAD_MASK;
          new_resp_tail = push_bit RESP_TAIL_SHIFT (ucast v)
      in data_write mailbox MBOX_DATA_CMD_HEAD_RESP_TAIL_OFFSET (current_cmd_head OR new_resp_tail))"

definition gxp_mailbox_read_cmd_queue_tail :: "gxp_mailbox \<Rightarrow> u16" where
  "gxp_mailbox_read_cmd_queue_tail mailbox =
     (let reg_val = data_read mailbox MBOX_DATA_CMD_TAIL_RESP_HEAD_OFFSET
      in ucast (drop_bit CMD_TAIL_SHIFT (reg_val AND CMD_TAIL_MASK)))"

definition gxp_mailbox_read_resp_queue_head :: "gxp_mailbox \<Rightarrow> u16" where
  "gxp_mailbox_read_resp_queue_head mailbox =
     (let reg_val = data_read mailbox MBOX_DATA_CMD_TAIL_RESP_HEAD_OFFSET
      in ucast (drop_bit RESP_HEAD_SHIFT (reg_val AND RESP_HEAD_MASK)))"

definition gxp_mailbox_set_cmd_queue_tail :: "gxp_mailbox \<Rightarrow> u32 \<Rightarrow> gxp_mailbox" where
  "gxp_mailbox_set_cmd_queue_tail mailbox v =
     gxp_mailbox_write_cmd_queue_tail (mailbox\<lparr>gx_cmd_queue_tail := v\<rparr>) (ucast v)"

definition gxp_mailbox_set_resp_queue_head :: "gxp_mailbox \<Rightarrow> u32 \<Rightarrow> gxp_mailbox" where
  "gxp_mailbox_set_resp_queue_head mailbox v =
     gxp_mailbox_write_resp_queue_head (mailbox\<lparr>gx_resp_queue_head := v\<rparr>) (ucast v)"

definition gxp_mailbox_set_control :: "gxp_mailbox \<Rightarrow> u32 \<Rightarrow> gxp_mailbox" where
  "gxp_mailbox_set_control mailbox v = data_write mailbox MBOX_DATA_CONTROL_OFFSET v"

section \<open>Moving the indices\<close>

definition gxp_mailbox_inc_cmd_queue_tail_nolock ::
  "gxp_mailbox \<Rightarrow> u32 \<Rightarrow> u32 \<Rightarrow> int \<times> gxp_mailbox" where
  "gxp_mailbox_inc_cmd_queue_tail_nolock mailbox inc wrap_bit =
     (if inc > gx_cmd_queue_size mailbox then (- EINVAL, mailbox)
      else
        let head = ucast (gxp_mailbox_read_cmd_queue_head mailbox);
            remain_size = gx_cmd_queue_size mailbox -
              gcip_circ_queue_cnt head (gx_cmd_queue_tail mailbox) (gx_cmd_queue_size mailbox) wrap_bit
        in if inc > remain_size then (- EBUSY, mailbox)
           else
             let new_tail = gcip_circ_queue_inc (gx_cmd_queue_tail mailbox) inc
                              (gx_cmd_queue_size mailbox) wrap_bit
             in (0, gxp_mailbox_set_cmd_queue_tail mailbox new_tail))"

definition gxp_mailbox_inc_cmd_queue_tail_locked ::
  "gxp_mailbox \<Rightarrow> u32 \<Rightarrow> u32 \<Rightarrow> int \<times> gxp_mailbox" where
  "gxp_mailbox_inc_cmd_queue_tail_locked mailbox inc wrap_bit =
     gxp_mailbox_inc_cmd_queue_tail_nolock mailbox inc wrap_bit"

definition gxp_mailbox_inc_resp_queue_head_nolock ::
  "gxp_mailbox \<Rightarrow> u32 \<Rightarrow> u32 \<Rightarrow> int \<times> gxp_mailbox" where
  "gxp_mailbox_inc_resp_queue_head_nolock mailbox inc wrap_bit =
     (if inc > gx_resp_queue_size mailbox then (- EINVAL, mailbox)
      else
        let tail = ucast (gxp_mailbox_read_resp_queue_tail mailbox);
            sz = gcip_circ_queue_cnt (gx_resp_queue_head mailbox) tail
                   (gx_resp_queue_size mailbox) wrap_bit
        in if inc > sz then (- EINVAL, mailbox)
           else
             let new_head = gcip_circ_queue_inc (gx_resp_queue_head mailbox) inc
                              (gx_resp_queue_size mailbox) wrap_bit
             in (0, gxp_mailbox_set_resp_queue_head mailbox new_head))"

definition gxp_mailbox_inc_resp_queue_head_locked ::
  "gxp_mailbox \<Rightarrow> u32 \<Rightarrow> u32 \<Rightarrow> int \<times> gxp_mailbox" where
  "gxp_mailbox_inc_resp_queue_head_locked mailbox inc wrap_bit =
     gxp_mailbox_inc_resp_queue_head_nolock mailbox inc wrap_bit"

section \<open>Interrupts and reset\<close>

definition gxp_mailbox_get_interrupt_status :: "gxp_mailbox \<Rightarrow> u32" where
  "gxp_mailbox_get_interrupt_status mailbox = gxp_mailbox_csr_read mailbox MBOX_INTMSR1_OFFSET"

definition gxp_mailbox_reset_hw :: "gxp_mailbox \<Rightarrow> gxp_mailbox" where
  "gxp_mailbox_reset_hw mailbox = gxp_mailbox_csr_write mailbox MBOX_MCUCTLR_OFFSET 1"

definition gxp_mailbox_generate_device_interrupt :: "gxp_mailbox \<Rightarrow> u32 \<Rightarrow> gxp_mailbox" where
  "gxp_mailbox_generate_device_interrupt mailbox int_mask =
     gxp_mailbox_csr_write mailbox MBOX_INTGR0_OFFSET int_mask"

definition gxp_mailbox_clear_interrupts :: "gxp_mailbox \<Rightarrow> u32 \<Rightarrow> gxp_mailbox" where
  "gxp_mailbox_clear_interrupts mailbox intr_bits =
     gxp_mailbox_csr_write mailbox MBOX_INTCR1_OFFSET intr_bits"

definition gxp_mailbox_handle_irq :: "gxp_mailbox \<Rightarrow> gxp_mailbox" where
  "gxp_mailbox_handle_irq mailbox =
     (if gx_handle_irq mailbox then mailbox\<lparr>gx_irqs := gx_irqs mailbox + 1\<rparr> else mailbox)"

definition gxp_mailbox_enable_irq_handler :: "gxp_mailbox \<Rightarrow> gxp_mailbox" where
  "gxp_mailbox_enable_irq_handler mailbox = mailbox\<lparr>gx_handle_irq := True\<rparr>"

definition gxp_mailbox_disable_irq_handler :: "gxp_mailbox \<Rightarrow> gxp_mailbox" where
  "gxp_mailbox_disable_irq_handler mailbox = mailbox\<lparr>gx_handle_irq := False\<rparr>"

definition MBOX_DEVICE_TO_HOST_RESPONSE_IRQ_MASK :: u32 where
  "MBOX_DEVICE_TO_HOST_RESPONSE_IRQ_MASK = 1"

text \<open>\<open>ffs\<close>: the 1-based index of the lowest set bit, 0 for none.\<close>

definition ffs :: "u32 \<Rightarrow> nat" where
  "ffs w = (case filter (bit w) [0..<32] of [] \<Rightarrow> 0 | i # _ \<Rightarrow> Suc i)"

definition schedule_interrupt_handler :: "nat \<Rightarrow> gxp_mailbox \<Rightarrow> gxp_mailbox" where
  "schedule_interrupt_handler next_int mailbox =
     (if next_int \<ge> length (gx_interrupt_handlers mailbox) then mailbox\<lparr>gx_fault := True\<rparr>
      else case gx_interrupt_handlers mailbox ! next_int of
             Some h \<Rightarrow> mailbox\<lparr>gx_scheduled := gx_scheduled mailbox @ [h]\<rparr>
           | None \<Rightarrow> mailbox)"

lemma ffs_Suc:
  assumes "ffs w = Suc i"
  obtains js where "filter (bit w) [0..<32] = i # js" and "bit w i" and "i < 32"
proof -
  from assms obtain js where f: "filter (bit w) [0..<32] = i # js"
    by (auto simp: ffs_def split: list.splits)
  have "bit w i \<and> i < 32" using arg_cong [OF f, of set] by auto
  with f that show ?thesis by blast
qed

lemma clear_bit_less:
  fixes w :: u32
  assumes "bit w i" and "i < 32"
  shows "unat (w AND NOT (2 ^ i)) < unat w"
proof -
  have "w AND NOT (2 ^ i) \<le> w" by (rule word_and_le2)
  moreover have "\<not> bit (w AND NOT (2 ^ i)) i"
    using assms by (simp add: bit_simps)
  with assms have "w AND NOT (2 ^ i) \<noteq> w" by metis
  ultimately show ?thesis unfolding word_le_nat_alt word_unat_eq_iff by linarith
qed

function irq_loop :: "u32 \<Rightarrow> gxp_mailbox \<Rightarrow> gxp_mailbox" where
  "irq_loop intr_bits mailbox =
     (case ffs intr_bits of
        0 \<Rightarrow> mailbox
      | Suc next_int \<Rightarrow>
          irq_loop (intr_bits AND NOT (2 ^ next_int)) (schedule_interrupt_handler next_int mailbox))"
  by pat_completeness auto
termination
  by (relation "measure (\<lambda>(w, m). unat w)") (auto elim!: ffs_Suc intro: clear_bit_less)

definition gxp_mailbox_chip_irq_handler :: "gxp_mailbox \<Rightarrow> gxp_mailbox" where
  "gxp_mailbox_chip_irq_handler mailbox =
     (let intr_bits = gxp_mailbox_get_interrupt_status mailbox;
          mailbox = gxp_mailbox_clear_interrupts mailbox intr_bits;
          (intr_bits, mailbox) =
            (if c_true (intr_bits AND MBOX_DEVICE_TO_HOST_RESPONSE_IRQ_MASK)
             then (intr_bits AND NOT MBOX_DEVICE_TO_HOST_RESPONSE_IRQ_MASK,
                   gxp_mailbox_handle_irq mailbox)
             else (intr_bits, mailbox))
      in irq_loop intr_bits mailbox)"

definition gxp_mailbox_reset :: "gxp_mailbox \<Rightarrow> gxp_mailbox" where
  "gxp_mailbox_reset mailbox =
     (let mailbox = gxp_mailbox_write_cmd_queue_head mailbox 0;
          mailbox = gxp_mailbox_write_cmd_queue_tail mailbox 0;
          mailbox = gxp_mailbox_write_resp_queue_head mailbox 0;
          mailbox = gxp_mailbox_write_resp_queue_tail mailbox 0
      in mailbox\<lparr>gx_cmd_queue_tail := 0, gx_resp_queue_head := 0\<rparr>)"

text \<open>\<open>gxp_mailbox_enable_interrupt\<close> is empty on this chip.\<close>

definition gxp_mailbox_reinit :: "gxp_mailbox \<Rightarrow> gxp_mailbox" where
  "gxp_mailbox_reinit mailbox =
     (let mailbox = gxp_mailbox_write_descriptor mailbox (gx_descriptor_addr mailbox);
          mailbox = gxp_mailbox_reset mailbox
      in gxp_mailbox_write_status mailbox 1)"

definition gxp_mailbox_register_interrupt_handler ::
  "gxp_mailbox \<Rightarrow> u32 \<Rightarrow> ptr \<Rightarrow> int \<times> gxp_mailbox" where
  "gxp_mailbox_register_interrupt_handler mailbox int_bit handler =
     (if int_bit = 0 \<or> int_bit \<ge> GXP_MAILBOX_INT_BIT_COUNT then (- EINVAL, mailbox)
      else (0, mailbox\<lparr>gx_interrupt_handlers :=
              (gx_interrupt_handlers mailbox)[unat int_bit := Some handler]\<rparr>))"

definition gxp_mailbox_unregister_interrupt_handler ::
  "gxp_mailbox \<Rightarrow> u32 \<Rightarrow> int \<times> gxp_mailbox" where
  "gxp_mailbox_unregister_interrupt_handler mailbox int_bit =
     (if int_bit = 0 \<or> int_bit \<ge> GXP_MAILBOX_INT_BIT_COUNT then (- EINVAL, mailbox)
      else (0, mailbox\<lparr>gx_interrupt_handlers :=
              (gx_interrupt_handlers mailbox)[unat int_bit := None]\<rparr>))"

section \<open>Correctness of the registers\<close>

text \<open>The two halves of a packed register.\<close>

lemma half_reads:
  fixes v :: u16 and w :: u32
  shows "ucast (drop_bit 16 (push_bit 16 (ucast v) :: u32) AND 0xFFFF) = v"
    and "ucast ((push_bit 16 (ucast v) OR (w AND 0xFFFF)) AND 0xFFFF) = (ucast (w AND 0xFFFF) :: u16)"
    and "ucast (((w AND 0xFFFF0000) OR ucast v) AND 0xFFFF) = v"
    and "ucast ((drop_bit 16 w AND 0xFFFF OR drop_bit 16 (ucast v)) AND 0xFFFF) =
      (ucast (drop_bit 16 w AND 0xFFFF) :: u16)"
proof -
  have lo: "(0xFFFF :: u32) = mask 16" and hi: "(0xFFFF0000 :: u32) = push_bit 16 (mask 16)"
    by (simp_all add: mask_eq_exp_minus_1 push_bit_eq_mult)
  show "ucast (drop_bit 16 (push_bit 16 (ucast v) :: u32) AND 0xFFFF) = v"
    "ucast ((push_bit 16 (ucast v) OR (w AND 0xFFFF)) AND 0xFFFF) = (ucast (w AND 0xFFFF) :: u16)"
    "ucast (((w AND 0xFFFF0000) OR ucast v) AND 0xFFFF) = v"
    "ucast ((drop_bit 16 w AND 0xFFFF OR drop_bit 16 (ucast v)) AND 0xFFFF) =
      (ucast (drop_bit 16 w AND 0xFFFF) :: u16)"
    unfolding lo hi by (rule bit_word_eqI; auto simp: bit_simps dest: bit_imp_le_length)+
qed

lemma masks: "CMD_TAIL_MASK = 0xFFFF0000" "RESP_HEAD_MASK = 0xFFFF" "CMD_HEAD_MASK = 0xFFFF0000"
    "RESP_TAIL_MASK = 0xFFFF"
  by (simp_all add: half_defs push_bit_eq_mult)

lemmas write_defs = gxp_mailbox_write_cmd_queue_tail_def gxp_mailbox_write_resp_queue_head_def
  gxp_mailbox_write_cmd_queue_head_def gxp_mailbox_write_resp_queue_tail_def
lemmas read_defs = gxp_mailbox_read_cmd_queue_tail_def gxp_mailbox_read_resp_queue_head_def
  gxp_mailbox_read_cmd_queue_head_def gxp_mailbox_read_resp_queue_tail_def
lemmas reg_defs = write_defs read_defs data_read_def data_write_def Let_def masks
  CMD_TAIL_SHIFT_def RESP_HEAD_SHIFT_def CMD_HEAD_SHIFT_def RESP_TAIL_SHIFT_def

named_theorems reg_simps \<open>reading the queue registers after a write\<close>

lemma read_write_regs [reg_simps]:
  "gxp_mailbox_read_cmd_queue_tail (gxp_mailbox_write_cmd_queue_tail m v) = v"
  "gxp_mailbox_read_resp_queue_head (gxp_mailbox_write_cmd_queue_tail m v) =
    gxp_mailbox_read_resp_queue_head m"
  "gxp_mailbox_read_cmd_queue_head (gxp_mailbox_write_cmd_queue_tail m v) =
    gxp_mailbox_read_cmd_queue_head m"
  "gxp_mailbox_read_resp_queue_tail (gxp_mailbox_write_cmd_queue_tail m v) =
    gxp_mailbox_read_resp_queue_tail m"
  "gxp_mailbox_read_cmd_queue_tail (gxp_mailbox_write_resp_queue_head m v) =
    gxp_mailbox_read_cmd_queue_tail m"
  "gxp_mailbox_read_resp_queue_head (gxp_mailbox_write_resp_queue_head m v) = v"
  "gxp_mailbox_read_cmd_queue_head (gxp_mailbox_write_resp_queue_head m v) =
    gxp_mailbox_read_cmd_queue_head m"
  "gxp_mailbox_read_resp_queue_tail (gxp_mailbox_write_resp_queue_head m v) =
    gxp_mailbox_read_resp_queue_tail m"
  by (simp_all add: reg_defs half_reads MBOX_DATA_CMD_TAIL_RESP_HEAD_OFFSET_def
      MBOX_DATA_CMD_HEAD_RESP_TAIL_OFFSET_def)

lemma read_write_device_regs [reg_simps]:
  "gxp_mailbox_read_cmd_queue_tail (gxp_mailbox_write_cmd_queue_head m v) =
    gxp_mailbox_read_cmd_queue_tail m"
  "gxp_mailbox_read_resp_queue_head (gxp_mailbox_write_cmd_queue_head m v) =
    gxp_mailbox_read_resp_queue_head m"
  "gxp_mailbox_read_cmd_queue_head (gxp_mailbox_write_cmd_queue_head m v) = v"
  "gxp_mailbox_read_resp_queue_tail (gxp_mailbox_write_cmd_queue_head m v) =
    gxp_mailbox_read_resp_queue_tail m"
  "gxp_mailbox_read_cmd_queue_tail (gxp_mailbox_write_resp_queue_tail m v) =
    gxp_mailbox_read_cmd_queue_tail m"
  "gxp_mailbox_read_resp_queue_head (gxp_mailbox_write_resp_queue_tail m v) =
    gxp_mailbox_read_resp_queue_head m"
  "gxp_mailbox_read_cmd_queue_head (gxp_mailbox_write_resp_queue_tail m v) =
    gxp_mailbox_read_cmd_queue_head m"
  "gxp_mailbox_read_resp_queue_tail (gxp_mailbox_write_resp_queue_tail m v) = v"
  by (simp_all add: reg_defs half_reads MBOX_DATA_CMD_TAIL_RESP_HEAD_OFFSET_def
      MBOX_DATA_CMD_HEAD_RESP_TAIL_OFFSET_def)

section \<open>The interrupt handler\<close>

lemma filter_clear_bit:
  assumes "filter (bit w) [0..<32] = i # js" and "i < 32"
  shows "filter (bit (w AND NOT (2 ^ i) :: u32)) [0..<32] = js"
proof -
  have "bit (w AND NOT (2 ^ i)) j \<longleftrightarrow> bit w j \<and> j \<noteq> i" if "j < 32" for j
    using that by (auto simp: bit_simps)
  then have "filter (bit (w AND NOT (2 ^ i))) [0..<32] = filter (\<lambda>j. bit w j \<and> j \<noteq> i) [0..<32]"
    by (intro filter_cong) auto
  also have "\<dots> = filter (\<lambda>j. j \<noteq> i) (filter (bit w) [0..<32])"
    by (simp add: filter_filter conj_commute)
  also have "\<dots> = js"
  proof -
    have "distinct (i # js)" using assms(1) distinct_filter [of "[0..<32]" "bit w"] by simp
    then show ?thesis unfolding assms(1) by (auto simp: filter_id_conv)
  qed
  finally show ?thesis .
qed

text \<open>The loop over \<open>ffs\<close> visits the set bits in increasing order, each once.\<close>

lemma irq_loop_fold: "irq_loop w m = fold schedule_interrupt_handler (filter (bit w) [0..<32]) m"
proof (induction w m rule: irq_loop.induct)
  case (1 w m)
  show ?case
  proof (cases "ffs w")
    case 0
    then show ?thesis
      by (subst irq_loop.simps) (auto simp: ffs_def split: list.splits)
  next
    case (Suc i)
    then obtain js where js: "filter (bit w) [0..<32] = i # js" "i < 32" by (rule ffs_Suc)
    have "irq_loop w m = irq_loop (w AND NOT (2 ^ i)) (schedule_interrupt_handler i m)"
      using Suc by (subst irq_loop.simps) simp
    then show ?thesis using 1 [OF Suc] filter_clear_bit [OF js] js(1) by simp
  qed
qed

lemma fold_schedule:
  "gx_interrupt_handlers (fold schedule_interrupt_handler js m) = gx_interrupt_handlers m"
  "gx_irqs (fold schedule_interrupt_handler js m) = gx_irqs m"
  "gx_csr_log (fold schedule_interrupt_handler js m) = gx_csr_log m"
  "gx_scheduled (fold schedule_interrupt_handler js m) = gx_scheduled m @
    concat (map (\<lambda>j. case gx_interrupt_handlers m ! j of Some h \<Rightarrow> [h] | None \<Rightarrow> [])
      (filter (\<lambda>j. j < length (gx_interrupt_handlers m)) js))"
  "gx_fault (fold schedule_interrupt_handler js m) \<longleftrightarrow>
    gx_fault m \<or> (\<exists>j \<in> set js. length (gx_interrupt_handlers m) \<le> j)"
  by (induction js arbitrary: m)
    (auto simp: schedule_interrupt_handler_def not_less split: option.splits)

lemma filter_upt_split:
  "a \<le> b \<Longrightarrow> b \<le> c \<Longrightarrow> filter P [a..<c] = filter P [a..<b] @ filter P [b..<c]"
  by (metis filter_append le_Suc_ex upt_add_eq_append)

lemma low_bits:
  "filter (\<lambda>j. j < 16) (filter (bit w) [0..<32]) = filter (bit w) [0..<16]" for w :: u32
proof -
  have "filter (\<lambda>j. j < 16) (filter (bit w) [0..<32]) = filter (\<lambda>j. bit w j \<and> j < 16) [0..<32]"
    by (simp add: filter_filter conj_commute)
  also have "\<dots> = filter (bit w) [0..<16]"
    by (subst filter_upt_split [of 0 16 32]) (auto intro: filter_cong simp: filter_empty_conv)
  finally show ?thesis .
qed

lemma response_bit:
  fixes w :: u32
  shows "c_true (w AND 1) \<longleftrightarrow> bit w 0"
    and "filter (bit (w AND NOT 1)) [0..<16] = filter (bit w) [1..<16]"
    and "\<not> bit w 0 \<Longrightarrow> filter (bit w) [0..<16] = filter (bit w) [1..<16]"
    and "(\<exists>j \<in> set (filter (bit (w AND NOT 1)) [0..<32]). 16 \<le> j) \<longleftrightarrow> (\<exists>j \<in> {16..<32}. bit w j)"
proof -
  show "c_true (w AND 1) \<longleftrightarrow> bit w 0"
    using and_exp_eq [of w 0] by simp
  have upt: "[0..<16] = 0 # [1..<(16::nat)]" by (simp add: upt_conv_Cons)
  have n: "w AND NOT 1 = unset_bit 0 w" by (simp add: unset_bit_eq_and_not)
  have b: "bit (unset_bit 0 w) j \<longleftrightarrow> bit w j \<and> j \<noteq> 0" for j
    by (auto simp: bit_simps)
  show "filter (bit (w AND NOT 1)) [0..<16] = filter (bit w) [1..<16]"
    unfolding upt n by (auto simp: b intro!: filter_cong)
  show "filter (bit w) [0..<16] = filter (bit w) [1..<16]" if "\<not> bit w 0"
    unfolding upt using that by simp
  show "(\<exists>j \<in> set (filter (bit (w AND NOT 1)) [0..<32]). 16 \<le> j) \<longleftrightarrow> (\<exists>j \<in> {16..<32}. bit w j)"
    unfolding n by (auto simp: b)
qed

section \<open>The operators for the generic mailbox\<close>

text \<open>
  The state is the generic mailbox whose data is the driver's mailbox. \<open>dev\<close> is what the device did
  before the response tail was read.
\<close>

type_synonym ('c, 'r, 'd) gxp_state = "('c, 'r, 'd, gxp_mailbox) mailbox"

definition gxp_mailbox_gcip_ops_get_tx_queue_tail :: "('c, 'r, 'd) gxp_state \<Rightarrow> u32" where
  "gxp_mailbox_gcip_ops_get_tx_queue_tail s = gx_cmd_queue_tail (mb_world s)"

definition gxp_mailbox_gcip_ops_inc_tx_queue_tail ::
  "u32 \<Rightarrow> ('c, 'r, 'd) gxp_state \<Rightarrow> ('c, 'r, 'd) gxp_state" where
  "gxp_mailbox_gcip_ops_inc_tx_queue_tail inc s =
     s\<lparr>mb_world := snd (gxp_mailbox_inc_cmd_queue_tail_nolock (mb_world s) inc
                        (ucast (mb_queue_wrap_bit s)))\<rparr>"

definition gxp_mailbox_gcip_ops_acquire_tx_queue_lock ::
  "bool \<Rightarrow> bool \<Rightarrow> ('c, 'r, 'd) gxp_state \<Rightarrow> int \<times> bool \<times> ('c, 'r, 'd) gxp_state" where
  "gxp_mailbox_gcip_ops_acquire_tx_queue_lock try atomic s =
     (1, atomic, s\<lparr>mb_world := (mb_world s)\<lparr>gx_cmd_queue_lock := True\<rparr>\<rparr>)"

definition gxp_mailbox_gcip_ops_release_tx_queue_lock ::
  "('c, 'r, 'd) gxp_state \<Rightarrow> ('c, 'r, 'd) gxp_state" where
  "gxp_mailbox_gcip_ops_release_tx_queue_lock s =
     s\<lparr>mb_world := (mb_world s)\<lparr>gx_cmd_queue_lock := False\<rparr>\<rparr>"

definition gxp_mailbox_gcip_ops_get_rx_queue_size :: "('c, 'r, 'd) gxp_state \<Rightarrow> u32" where
  "gxp_mailbox_gcip_ops_get_rx_queue_size s = gx_resp_queue_size (mb_world s)"

definition gxp_mailbox_gcip_ops_get_rx_queue_head :: "('c, 'r, 'd) gxp_state \<Rightarrow> u32" where
  "gxp_mailbox_gcip_ops_get_rx_queue_head s = gx_resp_queue_head (mb_world s)"

definition gxp_mailbox_gcip_ops_get_rx_queue_tail ::
  "(('c, 'r, 'd) gxp_state \<Rightarrow> ('c, 'r, 'd) gxp_state) \<Rightarrow> ('c, 'r, 'd) gxp_state \<Rightarrow>
     u32 \<times> ('c, 'r, 'd) gxp_state" where
  "gxp_mailbox_gcip_ops_get_rx_queue_tail dev s =
     (let s = dev s in (ucast (gxp_mailbox_read_resp_queue_tail (mb_world s)), s))"

definition gxp_mailbox_gcip_ops_inc_rx_queue_head ::
  "u32 \<Rightarrow> ('c, 'r, 'd) gxp_state \<Rightarrow> ('c, 'r, 'd) gxp_state" where
  "gxp_mailbox_gcip_ops_inc_rx_queue_head inc s =
     s\<lparr>mb_world := snd (gxp_mailbox_inc_resp_queue_head_nolock (mb_world s) inc
                        (ucast (mb_queue_wrap_bit s)))\<rparr>"

text \<open>A trylock fails when the lock is held; a lock that is not tried waits for its holder.\<close>

definition gxp_mailbox_gcip_ops_acquire_rx_queue_lock ::
  "bool \<Rightarrow> bool \<Rightarrow> ('c, 'r, 'd) gxp_state \<Rightarrow> int \<times> bool \<times> ('c, 'r, 'd) gxp_state" where
  "gxp_mailbox_gcip_ops_acquire_rx_queue_lock try atomic s =
     (let ret = (if try \<and> gx_resp_queue_lock (mb_world s) then 0 else 1);
          s = (if ret \<noteq> 0 then s\<lparr>mb_world := (mb_world s)\<lparr>gx_resp_queue_lock := True\<rparr>\<rparr> else s)
      in (ret, True, s))"

definition gxp_mailbox_gcip_ops_release_rx_queue_lock ::
  "('c, 'r, 'd) gxp_state \<Rightarrow> ('c, 'r, 'd) gxp_state" where
  "gxp_mailbox_gcip_ops_release_rx_queue_lock s =
     s\<lparr>mb_world := (mb_world s)\<lparr>gx_resp_queue_lock := False\<rparr>\<rparr>"

definition gxp_mailbox_gcip_ops_wait_for_tx_queue_not_full ::
  "('c, 'r, 'd) gxp_state \<Rightarrow> int \<times> ('c, 'r, 'd) gxp_state" where
  "gxp_mailbox_gcip_ops_wait_for_tx_queue_not_full s =
     (let tail = gx_cmd_queue_tail (mb_world s)
      in if ucast (gxp_mailbox_read_cmd_queue_head (mb_world s)) =
            (ucast tail XOR mb_queue_wrap_bit s)
         then (- EAGAIN, s) else (0, s))"

definition gxp_mailbox_gcip_ops_after_enqueue_cmd ::
  "'c \<Rightarrow> ('c, 'r, 'd) gxp_state \<Rightarrow> int \<times> ('c, 'r, 'd) gxp_state" where
  "gxp_mailbox_gcip_ops_after_enqueue_cmd cmd s =
     (0, s\<lparr>mb_world := gxp_mailbox_generate_device_interrupt (mb_world s) 1\<rparr>)"

definition gxp_mailbox_gcip_ops_after_fetch_resps ::
  "u32 \<Rightarrow> ('c, 'r, 'd) gxp_state \<Rightarrow> ('c, 'r, 'd) gxp_state" where
  "gxp_mailbox_gcip_ops_after_fetch_resps num_resps s =
     (let sz = gx_resp_queue_size (mb_world s)
      in if num_resps = sz
         then s\<lparr>mb_world := gxp_mailbox_generate_device_interrupt (mb_world s) 1\<rparr> else s)"

definition gxp_mailbox_gcip_ops_is_block_off :: "('c, 'r, 'd) gxp_state \<Rightarrow> bool" where
  "gxp_mailbox_gcip_ops_is_block_off s = gx_blk_down (mb_world s)"

lemmas gxp_op_defs = gxp_mailbox_gcip_ops_get_tx_queue_tail_def
  gxp_mailbox_gcip_ops_inc_tx_queue_tail_def gxp_mailbox_gcip_ops_acquire_tx_queue_lock_def
  gxp_mailbox_gcip_ops_release_tx_queue_lock_def gxp_mailbox_gcip_ops_get_rx_queue_size_def
  gxp_mailbox_gcip_ops_get_rx_queue_head_def gxp_mailbox_gcip_ops_get_rx_queue_tail_def
  gxp_mailbox_gcip_ops_inc_rx_queue_head_def gxp_mailbox_gcip_ops_acquire_rx_queue_lock_def
  gxp_mailbox_gcip_ops_release_rx_queue_lock_def
  gxp_mailbox_gcip_ops_wait_for_tx_queue_not_full_def gxp_mailbox_gcip_ops_after_enqueue_cmd_def
  gxp_mailbox_gcip_ops_after_fetch_resps_def gxp_mailbox_gcip_ops_is_block_off_def

text \<open>
  The queue operators in the table \<open>gxp_uci_gcip_mbx_ops\<close>; \<open>uci\<close> holds its entries for the
  sequence numbers and awaiters.
\<close>

definition gxp_uci_gcip_mbx_ops ::
  "(('c, 'r, 'd) gxp_state \<Rightarrow> ('c, 'r, 'd) gxp_state) \<Rightarrow> ('c, 'r, 'd, gxp_mailbox) mbox_ops \<Rightarrow>
     ('c, 'r, 'd, gxp_mailbox) mbox_ops" where
  "gxp_uci_gcip_mbx_ops dev uci = uci\<lparr>
     op_get_tx_queue_tail := Some gxp_mailbox_gcip_ops_get_tx_queue_tail,
     op_inc_tx_queue_tail := Some gxp_mailbox_gcip_ops_inc_tx_queue_tail,
     op_acquire_tx_queue_lock := Some gxp_mailbox_gcip_ops_acquire_tx_queue_lock,
     op_release_tx_queue_lock := Some gxp_mailbox_gcip_ops_release_tx_queue_lock,
     op_get_rx_queue_size := Some gxp_mailbox_gcip_ops_get_rx_queue_size,
     op_get_rx_queue_head := Some gxp_mailbox_gcip_ops_get_rx_queue_head,
     op_get_rx_queue_tail := Some (gxp_mailbox_gcip_ops_get_rx_queue_tail dev),
     op_inc_rx_queue_head := Some gxp_mailbox_gcip_ops_inc_rx_queue_head,
     op_acquire_rx_queue_lock := Some gxp_mailbox_gcip_ops_acquire_rx_queue_lock,
     op_release_rx_queue_lock := Some gxp_mailbox_gcip_ops_release_rx_queue_lock,
     op_wait_for_tx_queue_not_full := Some gxp_mailbox_gcip_ops_wait_for_tx_queue_not_full,
     op_after_enqueue_cmd := Some gxp_mailbox_gcip_ops_after_enqueue_cmd,
     op_after_fetch_resps := Some gxp_mailbox_gcip_ops_after_fetch_resps,
     op_is_block_off := Some gxp_mailbox_gcip_ops_is_block_off\<rparr>"

section \<open>The receive and transmit interfaces\<close>

text \<open>
  The invariant of the driver: the wrap bit fits the 16-bit halves of the registers, and head and
  tail of both queues are consistent.
\<close>

definition gxp_rx_tail :: "('c, 'r, 'd) gxp_state \<Rightarrow> u32" where
  "gxp_rx_tail s = ucast (gxp_mailbox_read_resp_queue_tail (mb_world s))"

definition gxp_tx_head :: "('c, 'r, 'd) gxp_state \<Rightarrow> u32" where
  "gxp_tx_head s = ucast (gxp_mailbox_read_cmd_queue_head (mb_world s))"

definition gxp_tx_size :: "('c, 'r, 'd) gxp_state \<Rightarrow> u32" where
  "gxp_tx_size s = gx_cmd_queue_size (mb_world s)"

definition gxp_rx_inv :: "('c, 'r, 'd) gxp_state \<Rightarrow> bool" where
  "gxp_rx_inv s \<longleftrightarrow> circ_ok (gx_resp_queue_size (mb_world s), ucast (mb_queue_wrap_bit s))
     (gx_resp_queue_head (mb_world s)) (gxp_rx_tail s)"

definition gxp_tx_inv :: "('c, 'r, 'd) gxp_state \<Rightarrow> bool" where
  "gxp_tx_inv s \<longleftrightarrow> wide_wrap s \<and>
     circ_ok (gx_cmd_queue_size (mb_world s), ucast (mb_queue_wrap_bit s))
       (gxp_tx_head s) (gx_cmd_queue_tail (mb_world s))"

text \<open>
  What the driver relies on in the firmware: it appends responses to the response queue and leaves
  the host's side of the mailbox alone.
\<close>

definition device_appends :: "(('c, 'r, 'd) gxp_state \<Rightarrow> ('c, 'r, 'd) gxp_state) \<Rightarrow> bool" where
  "device_appends dev \<longleftrightarrow> (\<forall>s. gxp_rx_inv s \<longrightarrow> gxp_rx_inv (dev s) \<and>
     mb_queue_wrap_bit (dev s) = mb_queue_wrap_bit s \<and>
     gx_resp_queue_size (mb_world (dev s)) = gx_resp_queue_size (mb_world s) \<and>
     gx_resp_queue_head (mb_world (dev s)) = gx_resp_queue_head (mb_world s) \<and>
     (\<exists>new. circ_contents (mb_rx_queue (dev s)) (gx_resp_queue_size (mb_world s))
         (ucast (mb_queue_wrap_bit s)) (gx_resp_queue_head (mb_world s)) (gxp_rx_tail (dev s)) =
       circ_contents (mb_rx_queue s) (gx_resp_queue_size (mb_world s))
         (ucast (mb_queue_wrap_bit s)) (gx_resp_queue_head (mb_world s)) (gxp_rx_tail s) @ new))"

text \<open>What it relies on in the kernel: allocation does not touch the mailbox.\<close>

definition kernel_ok :: "'s kernel \<Rightarrow> bool" where
  "kernel_ok K \<longleftrightarrow> (\<forall>at s. snd (k_kzalloc K at s) = s) \<and> (\<forall>n at s. snd (k_krealloc K n at s) = s)"

lemma kernel_okD:
  "kernel_ok K \<Longrightarrow> k_kzalloc K at s = (p, s') \<Longrightarrow> s' = s"
  "kernel_ok K \<Longrightarrow> k_krealloc K n at s = (g, s') \<Longrightarrow> s' = s"
  unfolding kernel_ok_def by (metis snd_conv)+

lemma inc_resp_head:
  assumes "circ_ok (gx_resp_queue_size m, wb) (gx_resp_queue_head m)
      (ucast (gxp_mailbox_read_resp_queue_tail m))"
    and "unat n \<le> circ_cnt (gx_resp_queue_size m, wb) (gx_resp_queue_head m)
      (ucast (gxp_mailbox_read_resp_queue_tail m))"
  shows "gxp_mailbox_inc_resp_queue_head_nolock m n wb = (0, gxp_mailbox_set_resp_queue_head m
    (circ_inc (gx_resp_queue_size m, wb) (gx_resp_queue_head m) (unat n)))"
proof -
  let ?c = "gcip_circ_queue_cnt (gx_resp_queue_head m) (ucast (gxp_mailbox_read_resp_queue_tail m))
    (gx_resp_queue_size m) wb"
  have "n \<le> ?c" using assms(2) by (simp add: circ_cnt_def word_le_nat_alt)
  moreover have "?c \<le> gx_resp_queue_size m"
    using circ_okD(4) [OF assms(1)] by (simp add: circ_cnt_def word_le_nat_alt)
  ultimately show ?thesis
    by (auto simp: gxp_mailbox_inc_resp_queue_head_nolock_def Let_def circ_inc_def not_less)
qed

lemma set_resp_head_fields [simp]:
  "gx_resp_queue_head (gxp_mailbox_set_resp_queue_head m v) = v"
  "gx_resp_queue_size (gxp_mailbox_set_resp_queue_head m v) = gx_resp_queue_size m"
  "gx_cmd_queue_size (gxp_mailbox_set_resp_queue_head m v) = gx_cmd_queue_size m"
  "gx_cmd_queue_tail (gxp_mailbox_set_resp_queue_head m v) = gx_cmd_queue_tail m"
  "gxp_mailbox_read_resp_queue_tail (gxp_mailbox_set_resp_queue_head m v) =
    gxp_mailbox_read_resp_queue_tail m"
  "gxp_mailbox_read_cmd_queue_head (gxp_mailbox_set_resp_queue_head m v) =
    gxp_mailbox_read_cmd_queue_head m"
  by (simp_all add: gxp_mailbox_set_resp_queue_head_def reg_simps)
    (simp_all add: write_defs read_defs Let_def data_read_def data_write_def)

lemma set_cmd_tail_fields [simp]:
  "gx_cmd_queue_tail (gxp_mailbox_set_cmd_queue_tail m v) = v"
  "gx_resp_queue_size (gxp_mailbox_set_cmd_queue_tail m v) = gx_resp_queue_size m"
  "gx_cmd_queue_size (gxp_mailbox_set_cmd_queue_tail m v) = gx_cmd_queue_size m"
  "gx_resp_queue_head (gxp_mailbox_set_cmd_queue_tail m v) = gx_resp_queue_head m"
  "gxp_mailbox_read_resp_queue_tail (gxp_mailbox_set_cmd_queue_tail m v) =
    gxp_mailbox_read_resp_queue_tail m"
  "gxp_mailbox_read_cmd_queue_head (gxp_mailbox_set_cmd_queue_tail m v) =
    gxp_mailbox_read_cmd_queue_head m"
  by (simp_all add: gxp_mailbox_set_cmd_queue_tail_def reg_simps)
    (simp_all add: write_defs read_defs Let_def data_read_def data_write_def)

lemma doorbell_fields [simp]:
  "gx_cmd_queue_tail (gxp_mailbox_generate_device_interrupt m v) = gx_cmd_queue_tail m"
  "gx_resp_queue_size (gxp_mailbox_generate_device_interrupt m v) = gx_resp_queue_size m"
  "gx_cmd_queue_size (gxp_mailbox_generate_device_interrupt m v) = gx_cmd_queue_size m"
  "gx_resp_queue_head (gxp_mailbox_generate_device_interrupt m v) = gx_resp_queue_head m"
  "gxp_mailbox_read_resp_queue_tail (gxp_mailbox_generate_device_interrupt m v) =
    gxp_mailbox_read_resp_queue_tail m"
  "gxp_mailbox_read_cmd_queue_head (gxp_mailbox_generate_device_interrupt m v) =
    gxp_mailbox_read_cmd_queue_head m"
  by (simp_all add: gxp_mailbox_generate_device_interrupt_def gxp_mailbox_csr_write_def read_defs
      data_read_def)

lemma lock_fields [simp]:
  "gxp_mailbox_read_resp_queue_tail (m\<lparr>gx_resp_queue_lock := b\<rparr>) = gxp_mailbox_read_resp_queue_tail m"
  "gxp_mailbox_read_cmd_queue_head (m\<lparr>gx_resp_queue_lock := b\<rparr>) = gxp_mailbox_read_cmd_queue_head m"
  "gxp_mailbox_read_resp_queue_tail (m\<lparr>gx_cmd_queue_lock := b\<rparr>) = gxp_mailbox_read_resp_queue_tail m"
  "gxp_mailbox_read_cmd_queue_head (m\<lparr>gx_cmd_queue_lock := b\<rparr>) = gxp_mailbox_read_cmd_queue_head m"
  by (simp_all add: read_defs data_read_def)

lemma gxp_mailbox_rx:
  assumes dev: "device_appends dev" and K: "kernel_ok K"
  shows "mailbox_rx K (gxp_uci_gcip_mbx_ops dev uci) gxp_rx_inv gxp_rx_tail"
proof (unfold_locales, goal_cases)
  case (1 s)
  then show ?case by (simp add: gxp_rx_inv_def rx_geom_def rx_head_def gxp_uci_gcip_mbx_ops_def gxp_op_defs)
next
  case (2 s t s')
  then have s': "s' = dev s" "t = gxp_rx_tail s'"
    by (auto simp: gxp_uci_gcip_mbx_ops_def gxp_op_defs Let_def gxp_rx_tail_def)
  with 2 dev show ?case
    unfolding device_appends_def
    by (auto simp: rx_contents_def rx_geom_def rx_head_def gxp_uci_gcip_mbx_ops_def gxp_op_defs
        dest!: spec [of _ s])
next
  case (3 s n s')
  let ?m = "mb_world s" and ?wb = "ucast (mb_queue_wrap_bit s) :: u32"
  have ok: "circ_ok (gx_resp_queue_size ?m, ?wb) (gx_resp_queue_head ?m)
      (ucast (gxp_mailbox_read_resp_queue_tail ?m))"
    using 3(1) by (simp add: gxp_rx_inv_def gxp_rx_tail_def)
  have n: "unat n \<le> circ_cnt (gx_resp_queue_size ?m, ?wb) (gx_resp_queue_head ?m)
      (ucast (gxp_mailbox_read_resp_queue_tail ?m))"
    using 3(2) by (simp add: gxp_rx_tail_def rx_geom_def rx_head_def gxp_uci_gcip_mbx_ops_def gxp_op_defs)
  have "s' = s\<lparr>mb_world := gxp_mailbox_set_resp_queue_head ?m
      (circ_inc (gx_resp_queue_size ?m, ?wb) (gx_resp_queue_head ?m) (unat n))\<rparr>"
    using 3(3) inc_resp_head [OF ok n] by (simp add: gxp_uci_gcip_mbx_ops_def gxp_op_defs)
  then show ?case
    using circ.ok_pop [OF ok n]
    by (simp add: gxp_rx_inv_def gxp_rx_tail_def rx_geom_def rx_head_def gxp_uci_gcip_mbx_ops_def
        gxp_op_defs)
next
  case (4 s tr at r at' s')
  then show ?case
    by (auto simp: gxp_rx_inv_def gxp_rx_tail_def rx_same_def rx_geom_def rx_head_def
        gxp_uci_gcip_mbx_ops_def gxp_op_defs Let_def)
next
  case (5 s s')
  then show ?case
    by (auto simp: gxp_rx_inv_def gxp_rx_tail_def rx_same_def rx_geom_def rx_head_def
        gxp_uci_gcip_mbx_ops_def gxp_op_defs)
next
  case (6 s f n s')
  then show ?case
    by (auto simp: gxp_rx_inv_def gxp_rx_tail_def rx_same_def rx_geom_def rx_head_def
        gxp_uci_gcip_mbx_ops_def gxp_op_defs Let_def split: if_splits)
next
  case (7 s n at grown s')
  then show ?case using kernel_okD(2) [OF K 7(2)] by (simp add: rx_same_def)
qed

lemma inc_cmd_tail:
  assumes "circ_ok (gx_cmd_queue_size m, wb) (ucast (gxp_mailbox_read_cmd_queue_head m))
      (gx_cmd_queue_tail m)"
    and "circ_cnt (gx_cmd_queue_size m, wb) (ucast (gxp_mailbox_read_cmd_queue_head m))
      (gx_cmd_queue_tail m) < unat (gx_cmd_queue_size m)"
  shows "gxp_mailbox_inc_cmd_queue_tail_nolock m 1 wb = (0, gxp_mailbox_set_cmd_queue_tail m
    (circ_inc (gx_cmd_queue_size m, wb) (gx_cmd_queue_tail m) 1))"
proof -
  let ?sz = "gx_cmd_queue_size m"
  let ?c = "gcip_circ_queue_cnt (ucast (gxp_mailbox_read_cmd_queue_head m)) (gx_cmd_queue_tail m) ?sz wb"
  have lt: "unat ?c < unat ?sz" using assms(2) by (simp add: circ_cnt_def)
  have "?c \<le> ?sz" using lt by (simp add: word_le_nat_alt)
  then have "unat (?sz - ?c) = unat ?sz - unat ?c" by (rule unat_sub)
  then have "\<not> 1 > ?sz - ?c" "\<not> 1 > ?sz" using lt by (simp_all add: word_less_nat_alt)
  then show ?thesis
    by (simp add: gxp_mailbox_inc_cmd_queue_tail_nolock_def Let_def circ_inc_def)
qed

text \<open>
  The test of \<open>wait_for_tx_queue_not_full\<close> at 64 bits is the test that the queue is full.
\<close>

lemma ucast64_eq: "(ucast a :: u64) = ucast b \<longleftrightarrow> a = b" for a b :: u32
proof
  assume "(ucast a :: u64) = ucast b"
  then have "unat (ucast a :: u64) = unat (ucast b :: u64)" by simp
  moreover have "unat (ucast c :: u64) = unat c" for c :: u32
    using unat_bound_u32 [of c] by (simp add: unsigned_ucast_eq take_bit_eq_mod)
  ultimately show "a = b" by (simp add: word_unat_eq_iff)
qed simp

lemma ucast64_exp: "k < 32 \<Longrightarrow> (2 :: u64) ^ k = ucast ((2 :: u32) ^ k)"
  by (intro bit_word_eqI) (auto simp: bit_simps)

lemma ucast32_exp: "k < 32 \<Longrightarrow> ucast ((2 :: u64) ^ k) = (2 :: u32) ^ k"
  by (intro bit_word_eqI) (auto simp: bit_simps)

lemma ucast64_u16: "(ucast (h :: u16) :: u64) = ucast (ucast h :: u32)"
  by (intro bit_word_eqI) (auto simp: bit_simps dest: bit_imp_le_length)

lemma ucast64_xor: "(ucast t XOR ucast v :: u64) = ucast (t XOR v)" for t v :: u32
  by (intro bit_word_eqI) (auto simp: bit_simps)

lemma full_test:
  fixes t :: u32 and h :: u16
  assumes "wide_wrap s"
  shows "ucast h = (ucast t XOR mb_queue_wrap_bit s) \<longleftrightarrow>
    (ucast h :: u32) = t XOR ucast (mb_queue_wrap_bit s)"
proof -
  obtain k where k: "k < 32" "mb_queue_wrap_bit s = 2 ^ k" using assms by (auto simp: wide_wrap_def)
  have "ucast h = (ucast t XOR mb_queue_wrap_bit s) \<longleftrightarrow>
      ucast (ucast h :: u32) = (ucast t XOR ucast ((2 :: u32) ^ k) :: u64)"
    unfolding k(2) ucast64_exp [OF k(1)] ucast64_u16 ..
  also have "\<dots> \<longleftrightarrow> (ucast h :: u32) = t XOR 2 ^ k"
    unfolding ucast64_xor ucast64_eq ..
  also have "\<dots> \<longleftrightarrow> (ucast h :: u32) = t XOR ucast (mb_queue_wrap_bit s)"
    unfolding k(2) ucast32_exp [OF k(1)] ..
  finally show ?thesis .
qed

lemma wait_not_full_iff:
  assumes "gxp_tx_inv s"
  shows "gxp_mailbox_gcip_ops_wait_for_tx_queue_not_full s =
    (if circ_cnt (gx_cmd_queue_size (mb_world s), ucast (mb_queue_wrap_bit s)) (gxp_tx_head s)
       (gx_cmd_queue_tail (mb_world s)) < unat (gx_cmd_queue_size (mb_world s))
     then (0, s) else (- EAGAIN, s))"
proof -
  let ?g = "(gx_cmd_queue_size (mb_world s), ucast (mb_queue_wrap_bit s) :: u32)"
  have ok: "circ_ok ?g (gxp_tx_head s) (gx_cmd_queue_tail (mb_world s))" and w: "wide_wrap s"
    using assms by (simp_all add: gxp_tx_inv_def)
  have "circ_cnt ?g (gxp_tx_head s) (gx_cmd_queue_tail (mb_world s)) \<le> unat (gx_cmd_queue_size (mb_world s))"
    using circ_okD(4) [OF ok] .
  then show ?thesis
    using circ_full_iff [OF ok] full_test [OF w]
    by (auto simp: gxp_op_defs Let_def gxp_tx_head_def)
qed

text \<open>The awaiter operators of the user interface do not touch the driver's mailbox.\<close>

definition before_ok :: "('c, 'r, 'd, gxp_mailbox) mbox_ops \<Rightarrow> bool" where
  "before_ok uci \<longleftrightarrow> (\<forall>f b aw s. op_before_enqueue_wait_list uci = Some f \<longrightarrow>
     mb_world (snd (f b aw s)) = mb_world s \<and>
     mb_queue_wrap_bit (snd (f b aw s)) = mb_queue_wrap_bit s \<and>
     mb_tx_queue (snd (f b aw s)) = mb_tx_queue s)"

lemma gxp_tx_ops [simp]:
  "op_before_enqueue_wait_list (gxp_uci_gcip_mbx_ops dev uci) = op_before_enqueue_wait_list uci"
  "tx_tail (gxp_uci_gcip_mbx_ops dev uci) s = gx_cmd_queue_tail (mb_world s)"
  "op_wait_for_tx_queue_not_full (gxp_uci_gcip_mbx_ops dev uci) =
    Some gxp_mailbox_gcip_ops_wait_for_tx_queue_not_full"
  "op_inc_tx_queue_tail (gxp_uci_gcip_mbx_ops dev uci) = Some gxp_mailbox_gcip_ops_inc_tx_queue_tail"
  "op_acquire_tx_queue_lock (gxp_uci_gcip_mbx_ops dev uci) =
    Some gxp_mailbox_gcip_ops_acquire_tx_queue_lock"
  "op_release_tx_queue_lock (gxp_uci_gcip_mbx_ops dev uci) =
    Some gxp_mailbox_gcip_ops_release_tx_queue_lock"
  "op_after_enqueue_cmd (gxp_uci_gcip_mbx_ops dev uci) = Some gxp_mailbox_gcip_ops_after_enqueue_cmd"
  by (simp_all add: gxp_uci_gcip_mbx_ops_def tx_tail_def gxp_mailbox_gcip_ops_get_tx_queue_tail_def)

lemmas gxp_tx_defs = gxp_tx_inv_def tx_geom_def tx_regs_def gxp_tx_size_def gxp_tx_head_def
  wide_wrap_def

lemma gxp_mailbox_tx:
  assumes K: "kernel_ok K" and uci: "before_ok uci"
  shows "mailbox_tx K (gxp_uci_gcip_mbx_ops dev uci) gxp_tx_inv gxp_tx_size gxp_tx_head
    (\<lambda>s. gx_cmd_queue_lock (mb_world s))"
proof (unfold_locales, goal_cases)
  case (1 s)
  then show ?case by (simp add: gxp_tx_defs)
next
  case (2 s s')
  then show ?case by (simp add: gxp_tx_defs)
next
  case (3 s r s')
  have "s' = s" and "r = 0 \<Longrightarrow> circ_cnt (gx_cmd_queue_size (mb_world s), ucast (mb_queue_wrap_bit s))
    (gxp_tx_head s) (gx_cmd_queue_tail (mb_world s)) < unat (gx_cmd_queue_size (mb_world s))"
    using 3(3) wait_not_full_iff [OF 3(1)] by (auto split: if_splits)
  with 3(1) show ?case by (auto simp: tx_geom_def gxp_tx_size_def intro: exI [of _ 0])
next
  case (4 s s')
  let ?m = "mb_world s" and ?wb = "ucast (mb_queue_wrap_bit s) :: u32"
  have ok: "circ_ok (gx_cmd_queue_size ?m, ?wb) (ucast (gxp_mailbox_read_cmd_queue_head ?m))
      (gx_cmd_queue_tail ?m)"
    using 4(1) by (simp add: gxp_tx_defs)
  have n: "circ_cnt (gx_cmd_queue_size ?m, ?wb) (ucast (gxp_mailbox_read_cmd_queue_head ?m))
      (gx_cmd_queue_tail ?m) < unat (gx_cmd_queue_size ?m)"
    using 4(2) by (simp add: gxp_tx_defs)
  have "s' = s\<lparr>mb_world := gxp_mailbox_set_cmd_queue_tail ?m
      (circ_inc (gx_cmd_queue_size ?m, ?wb) (gx_cmd_queue_tail ?m) 1)\<rparr>"
    using 4(3) inc_cmd_tail [OF ok n] by (simp add: gxp_mailbox_gcip_ops_inc_tx_queue_tail_def)
  then show ?case
    using circ.ok_push [OF ok, of 1] n 4(1) by (simp add: gxp_tx_defs)
next
  case (5 s tr at r at' s')
  then show ?case by (auto simp: gxp_tx_defs gxp_op_defs)
next
  case (6 s s')
  then show ?case by (auto simp: gxp_tx_defs gxp_op_defs)
next
  case (7 s f b aw r s')
  then have "mb_world s' = mb_world s \<and> mb_queue_wrap_bit s' = mb_queue_wrap_bit s \<and>
    mb_tx_queue s' = mb_tx_queue s"
    using uci unfolding before_ok_def by (metis gxp_tx_ops(1) snd_conv)
  with 7 show ?case by (simp add: gxp_tx_defs)
next
  case (8 s g c r s')
  then show ?case by (auto simp: gxp_tx_defs gxp_op_defs)
next
  case (9 s at p s')
  then show ?case using kernel_okD(1) [OF K 9(2)] by simp
qed

lemma idle_kernel_ok: "kernel_ok idle_kernel"
  by (simp add: kernel_ok_def idle_kernel_def)

lemma idle_device: "device_appends id"
  by (simp add: device_appends_def)

interpretation gxp_rx: mailbox_rx idle_kernel "gxp_uci_gcip_mbx_ops id uci" gxp_rx_inv gxp_rx_tail
  for uci
  by (rule gxp_mailbox_rx [OF idle_device idle_kernel_ok])

lemma before_ok_no_ops: "before_ok no_ops"
  by (simp add: before_ok_def no_ops_def)

interpretation gxp_tx: mailbox_tx idle_kernel "gxp_uci_gcip_mbx_ops id no_ops" gxp_tx_inv gxp_tx_size
  gxp_tx_head "\<lambda>s. gx_cmd_queue_lock (mb_world s)"
  by (rule gxp_mailbox_tx [OF idle_kernel_ok before_ok_no_ops])

section \<open>Properties\<close>

text \<open>A small mailbox: queues of four elements, wrap bit 8, two responses waiting.\<close>

definition gxp_example :: gxp_mailbox where
  "gxp_example = \<lparr>gx_csr_regs = (\<lambda>_. 0)(MBOX_INTMSR1_OFFSET := 0b101), gx_csr_log = [],
     gx_data_regs = (\<lambda>_. 0)(MBOX_DATA_CMD_HEAD_RESP_TAIL_OFFSET := 0x00030009,
       MBOX_DATA_CMD_TAIL_RESP_HEAD_OFFSET := 0x00090003),
     gx_handle_irq = True, gx_interrupt_handlers = (replicate 16 None)[2 := Some 70],
     gx_cmd_queue_size = 4, gx_cmd_queue_tail = 9, gx_cmd_queue_lock = False,
     gx_resp_queue_size = 4, gx_resp_queue_head = 3, gx_resp_queue_lock = False,
     gx_descriptor_addr = 0, gx_blk_down = False, gx_irqs = 0, gx_scheduled = [], gx_fault = False\<rparr>"

definition gxp_example_state :: "(nat, nat, unit) gxp_state" where
  "gxp_example_state = \<lparr>mb_mode = GCIP_MAILBOX_MODE_FORWARD, mb_queue_wrap_bit = 8, mb_cur_seq = 0,
     mb_tx_queue = (\<lambda>i. i), mb_rx_queue = (\<lambda>i. 10 + i), mb_wait_list = [], mb_timeout = 2000,
     mb_ops = True, mb_async_resps = (\<lambda>_. \<lparr>ar_status = 0, ar_resp = None\<rparr>),
     mb_resp_bufs = (\<lambda>_. 0), mb_awaiters = (\<lambda>_. None), mb_fault = False, mb_world = gxp_example\<rparr>"

lemma gxp_example_regs:
  "gxp_mailbox_read_cmd_queue_head gxp_example = 3" "gxp_mailbox_read_resp_queue_tail gxp_example = 9"
  by (simp_all add: gxp_example_def reg_defs MBOX_DATA_CMD_TAIL_RESP_HEAD_OFFSET_def
      MBOX_DATA_CMD_HEAD_RESP_TAIL_OFFSET_def)

lemma gxp_example_inv: "gxp_rx_inv gxp_example_state" "gxp_tx_inv gxp_example_state"
proof -
  have "\<exists>k < 32. (8::u64) = 2 ^ k" by (rule exI [of _ 3]) simp
  with circ_ok_example show "gxp_rx_inv gxp_example_state" "gxp_tx_inv gxp_example_state"
    by (simp_all add: gxp_rx_inv_def gxp_rx_tail_def gxp_tx_defs gxp_example_state_def
        gxp_example_regs) (simp_all add: gxp_example_def)
qed

text \<open>C2: fetching the response queue of the DSP mailbox. With firmware that only appends, and that may
  keep appending while the host fetches, \<open>gcip_mailbox_fetch_responses\<close> ends; what it returns
  followed by what is left in the queue is what was there followed by what was appended, so that no
  response is lost, repeated or reordered, also when memory runs out; when no allocation fails the
  queue is drained.\<close>

theorem gxp_fetch_responses_fifo:
  assumes "device_appends dev" and "kernel_ok K" and "gxp_rx_inv s"
    and "\<not> gx_blk_down (mb_world s)" and "trylock \<longrightarrow> \<not> gx_resp_queue_lock (mb_world s)"
  shows "\<exists>ret tot s' new.
    gcip_mailbox_fetch_responses K (gxp_uci_gcip_mbx_ops dev uci) trylock s = Some (ret, tot, s') \<and>
    gxp_rx_inv s' \<and> unat tot = length (fetched_list ret) \<and>
    fetched_list ret @ rx_contents (gxp_uci_gcip_mbx_ops dev uci) gxp_rx_tail s' =
      rx_contents (gxp_uci_gcip_mbx_ops dev uci) gxp_rx_tail s @ new \<and>
    ((\<forall>n at s. fst (k_krealloc K n at s)) \<longrightarrow>
      rx_contents (gxp_uci_gcip_mbx_ops dev uci) gxp_rx_tail s' = [])"
proof (rule mailbox_rx.fetch_responses_fifo [OF gxp_mailbox_rx [OF assms(1,2)] assms(3)])
  show "\<not> IS_BLOCK_OFF (gxp_uci_gcip_mbx_ops dev uci) s"
    using assms(4) by (simp add: IS_BLOCK_OFF_def gxp_uci_gcip_mbx_ops_def gxp_op_defs)
  show "the (op_acquire_rx_queue_lock (gxp_uci_gcip_mbx_ops dev uci)) trylock False s =
      (1, True, s\<lparr>mb_world := (mb_world s)\<lparr>gx_resp_queue_lock := True\<rparr>\<rparr>)"
    using assms(5) by (simp add: gxp_uci_gcip_mbx_ops_def gxp_op_defs)
qed simp

theorem gxp_fetch_responses_fifo_witness:
  "\<exists>ret tot s' new. gcip_mailbox_fetch_responses idle_kernel (gxp_uci_gcip_mbx_ops id no_ops) True
      gxp_example_state = Some (ret, tot, s') \<and>
    gxp_rx_inv s' \<and> unat tot = length (fetched_list ret) \<and>
    fetched_list ret @ rx_contents (gxp_uci_gcip_mbx_ops id no_ops) gxp_rx_tail s' =
      rx_contents (gxp_uci_gcip_mbx_ops id no_ops) gxp_rx_tail gxp_example_state @ new \<and>
    ((\<forall>n at s. fst (k_krealloc (idle_kernel :: (nat, nat, unit) gxp_state kernel) n at s)) \<longrightarrow>
      rx_contents (gxp_uci_gcip_mbx_ops id no_ops) gxp_rx_tail s' = [])"
  by (rule gxp_fetch_responses_fifo [OF idle_device idle_kernel_ok gxp_example_inv(1)])
    (simp_all add: gxp_example_state_def gxp_example_def)

text \<open>C3: sending a command through the DSP mailbox appends it, with its sequence number, to what the
  command queue holds, and rings the doorbell last; when the queue is full the call returns
  \<open>-EAGAIN\<close>, and on every error the queue is unchanged, so that no command the firmware has not read
  is overwritten.\<close>

theorem gxp_enqueue_cmd_fifo:
  assumes "kernel_ok K" and "before_ok uci" and "gxp_tx_inv s"
    and "gcip_mailbox_enqueue_cmd K (gxp_uci_gcip_mbx_ops dev uci) cmd ar aw flags s = (r, cmd', s')"
  shows "gxp_tx_inv s' \<and>
    tx_contents (gxp_uci_gcip_mbx_ops dev uci) gxp_tx_size gxp_tx_head s' =
      tx_contents (gxp_uci_gcip_mbx_ops dev uci) gxp_tx_size gxp_tx_head s @
      (if r = 0 then [cmd'] else []) \<and>
    (length (tx_contents (gxp_uci_gcip_mbx_ops dev uci) gxp_tx_size gxp_tx_head s) =
      unat (gxp_tx_size s) \<longrightarrow> r = - EAGAIN)"
proof -
  let ?ops = "gxp_uci_gcip_mbx_ops dev uci"
  let ?c = "tx_contents ?ops gxp_tx_size gxp_tx_head"
  let ?s1 = "s\<lparr>mb_world := (mb_world s)\<lparr>gx_cmd_queue_lock := True\<rparr>\<rparr>"
  have a: "the (op_acquire_tx_queue_lock ?ops) False False s = (1, False, ?s1)"
    by (simp add: gxp_mailbox_gcip_ops_acquire_tx_queue_lock_def)
  have inv1: "gxp_tx_inv ?s1" using assms(3) by (simp add: gxp_tx_defs)
  have c1: "?c ?s1 = ?c s" by (simp add: tx_contents_def gxp_tx_defs)
  note w = wait_not_full_iff [OF inv1]
  then have s1: "snd (the (op_wait_for_tx_queue_not_full ?ops) ?s1) = ?s1" by simp
  have full: "r = - EAGAIN" if "length (?c s) = unat (gxp_tx_size s)"
  proof -
    have "\<not> circ_cnt (gx_cmd_queue_size (mb_world ?s1), ucast (mb_queue_wrap_bit ?s1))
        (gxp_tx_head ?s1) (gx_cmd_queue_tail (mb_world ?s1)) < unat (gx_cmd_queue_size (mb_world ?s1))"
      using that by (simp add: tx_contents_def circ_contents_def circ_cnt_def gxp_tx_defs)
    with w have "gxp_mailbox_gcip_ops_wait_for_tx_queue_not_full ?s1 = (- EAGAIN, ?s1)" by simp
    then show ?thesis using enqueue_cmd_wait_error [OF a _ _ assms(4)] by simp
  qed
  show ?thesis
    using mailbox_tx.enqueue_cmd_fifo [OF gxp_mailbox_tx [OF assms(1,2)] assms(3,4) a] c1 full
    unfolding s1 by simp
qed

theorem gxp_enqueue_cmd_fifo_witness:
  "\<exists>r cmd' s'. gcip_mailbox_enqueue_cmd idle_kernel (gxp_uci_gcip_mbx_ops id no_ops) 7 0 None 1
      gxp_example_state = (r, cmd', s') \<and> gxp_tx_inv s' \<and>
    tx_contents (gxp_uci_gcip_mbx_ops id no_ops) gxp_tx_size gxp_tx_head s' =
      tx_contents (gxp_uci_gcip_mbx_ops id no_ops) gxp_tx_size gxp_tx_head gxp_example_state @
      (if r = 0 then [cmd'] else [])"
proof -
  obtain r cmd' s' where e: "gcip_mailbox_enqueue_cmd idle_kernel (gxp_uci_gcip_mbx_ops id no_ops) 7 0
    None 1 gxp_example_state = (r, cmd', s')" by (rule prod_cases3)
  from gxp_enqueue_cmd_fifo [OF idle_kernel_ok before_ok_no_ops gxp_example_inv(2) e] e
  show ?thesis by blast
qed

text \<open>C14: the packed queue registers. Each of the four writes changes the half it names and no other:
  reading back gives the value written, the other three indices read as before; after
  \<open>gxp_mailbox_reset\<close> all four read 0 and agree with the host's copies, which is the empty state of
  both queues.\<close>

theorem gxp_queue_registers_roundtrip:
  "gxp_mailbox_read_cmd_queue_tail (gxp_mailbox_write_cmd_queue_tail m v) = v \<and>
   gxp_mailbox_read_resp_queue_head (gxp_mailbox_write_cmd_queue_tail m v) =
     gxp_mailbox_read_resp_queue_head m \<and>
   gxp_mailbox_read_resp_queue_head (gxp_mailbox_write_resp_queue_head m v) = v \<and>
   gxp_mailbox_read_cmd_queue_tail (gxp_mailbox_write_resp_queue_head m v) =
     gxp_mailbox_read_cmd_queue_tail m \<and>
   gxp_mailbox_read_cmd_queue_head (gxp_mailbox_write_cmd_queue_head m v) = v \<and>
   gxp_mailbox_read_resp_queue_tail (gxp_mailbox_write_cmd_queue_head m v) =
     gxp_mailbox_read_resp_queue_tail m \<and>
   gxp_mailbox_read_resp_queue_tail (gxp_mailbox_write_resp_queue_tail m v) = v \<and>
   gxp_mailbox_read_cmd_queue_head (gxp_mailbox_write_resp_queue_tail m v) =
     gxp_mailbox_read_cmd_queue_head m \<and>
   (let m' = gxp_mailbox_reset m
    in gxp_mailbox_read_cmd_queue_head m' = 0 \<and> gxp_mailbox_read_cmd_queue_tail m' = 0 \<and>
       gxp_mailbox_read_resp_queue_head m' = 0 \<and> gxp_mailbox_read_resp_queue_tail m' = 0 \<and>
       gx_cmd_queue_tail m' = 0 \<and> gx_resp_queue_head m' = 0)"
proof -
  have "gxp_mailbox_read_cmd_queue_head (m'\<lparr>gx_cmd_queue_tail := a, gx_resp_queue_head := b\<rparr>) =
      gxp_mailbox_read_cmd_queue_head m'"
    "gxp_mailbox_read_cmd_queue_tail (m'\<lparr>gx_cmd_queue_tail := a, gx_resp_queue_head := b\<rparr>) =
      gxp_mailbox_read_cmd_queue_tail m'"
    "gxp_mailbox_read_resp_queue_head (m'\<lparr>gx_cmd_queue_tail := a, gx_resp_queue_head := b\<rparr>) =
      gxp_mailbox_read_resp_queue_head m'"
    "gxp_mailbox_read_resp_queue_tail (m'\<lparr>gx_cmd_queue_tail := a, gx_resp_queue_head := b\<rparr>) =
      gxp_mailbox_read_resp_queue_tail m'" for m' a b
    by (simp_all add: read_defs data_read_def)
  then show ?thesis by (simp add: gxp_mailbox_reset_def Let_def reg_simps)
qed

text \<open>C15: the interrupt handler of the chip clears exactly the pending bits, passes bit 0 to the
  response handler if there is one, and schedules the registered work of each other pending bit
  once, in increasing order of the bits; it reads the handler table out of bounds exactly when a bit
  from 16 on is pending.\<close>

theorem chip_irq_handler_schedules:
  assumes "length (gx_interrupt_handlers m) = 16"
  shows "let w = gx_csr_regs m MBOX_INTMSR1_OFFSET; m' = gxp_mailbox_chip_irq_handler m
    in gx_csr_log m' = gx_csr_log m @ [(MBOX_INTCR1_OFFSET, w)] \<and>
       gx_irqs m' = gx_irqs m + (if bit w 0 \<and> gx_handle_irq m then 1 else 0) \<and>
       gx_scheduled m' = gx_scheduled m @
         concat (map (\<lambda>j. case gx_interrupt_handlers m ! j of Some h \<Rightarrow> [h] | None \<Rightarrow> [])
           (filter (bit w) [1..<16])) \<and>
       (gx_fault m' \<longleftrightarrow> gx_fault m \<or> (\<exists>j \<in> {16..<32}. bit w j))"
proof -
  define w where "w = gx_csr_regs m MBOX_INTMSR1_OFFSET"
  define m1 where "m1 = (if bit w 0 then gxp_mailbox_handle_irq (gxp_mailbox_clear_interrupts m w)
    else gxp_mailbox_clear_interrupts m w)"
  have m1: "gx_interrupt_handlers m1 = gx_interrupt_handlers m" "gx_scheduled m1 = gx_scheduled m"
    "gx_csr_log m1 = gx_csr_log m @ [(MBOX_INTCR1_OFFSET, w)]" "gx_fault m1 = gx_fault m"
    "gx_irqs m1 = gx_irqs m + (if bit w 0 \<and> gx_handle_irq m then 1 else 0)"
    by (simp_all add: m1_def gxp_mailbox_handle_irq_def gxp_mailbox_clear_interrupts_def
        gxp_mailbox_csr_write_def)
  have loop: "gxp_mailbox_chip_irq_handler m = irq_loop (w AND NOT 1) m1"
  proof (cases "bit w 0")
    case True
    then show ?thesis
      by (simp add: gxp_mailbox_chip_irq_handler_def Let_def gxp_mailbox_get_interrupt_status_def
          gxp_mailbox_csr_read_def MBOX_DEVICE_TO_HOST_RESPONSE_IRQ_MASK_def response_bit(1)
          m1_def w_def [symmetric])
  next
    case False
    then have "unset_bit 0 w = w" by (simp add: unset_bit_eq)
    then have "w AND NOT 1 = w" by (simp add: unset_bit_eq_and_not)
    with False show ?thesis
      by (simp add: gxp_mailbox_chip_irq_handler_def Let_def gxp_mailbox_get_interrupt_status_def
          gxp_mailbox_csr_read_def MBOX_DEVICE_TO_HOST_RESPONSE_IRQ_MASK_def response_bit(1)
          m1_def w_def [symmetric])
  qed
  show ?thesis
    unfolding Let_def w_def [symmetric] loop irq_loop_fold
    using fold_schedule [of "filter (bit (w AND NOT 1)) [0..<32]" m1] assms
    by (simp only: m1 low_bits response_bit(2,4) simp_thms)
qed

theorem chip_irq_handler_schedules_witness:
  "gx_scheduled (gxp_mailbox_chip_irq_handler gxp_example) = [70] \<and>
   gx_irqs (gxp_mailbox_chip_irq_handler gxp_example) = 1 \<and>
   gx_csr_log (gxp_mailbox_chip_irq_handler gxp_example) = [(MBOX_INTCR1_OFFSET, 5)]"
proof -
  have "length (gx_interrupt_handlers gxp_example) = 16" by (simp add: gxp_example_def)
  from chip_irq_handler_schedules [OF this] show ?thesis
    by (simp add: gxp_example_def Let_def bit_simps upt_conv_Cons eval_nat_numeral)
qed

text \<open>C16: when the array of responses cannot be allocated, \<open>gcip_mailbox_fetch_responses\<close> returns its
  error pointer together with the count 0. The caller tests the count first, so its branch for the
  error pointer is never taken: consuming responses without memory does nothing and reports
  nothing.\<close>

theorem fetch_error_has_no_count:
  assumes "gcip_mailbox_fetch_responses K ops trylock s = Some (FetchErr e, tot, s')"
  shows "e = - ENOMEM \<and> tot = 0 \<and> gcip_mailbox_do_consume_responses K ops trylock s = Some s'"
proof -
  obtain acquired atomic s1 where
    a: "the (op_acquire_rx_queue_lock ops) trylock False s = (acquired, atomic, s1)"
    by (rule prod_cases3)
  obtain s2 where "fetch_loop K ops (the (op_get_rx_queue_size ops) s) (ucast (mb_queue_wrap_bit s))
      atomic (the (op_get_rx_queue_head ops) s1) FetchNull 0 s1 = Some (FetchErr e, tot, s2)"
    using assms by (auto simp: gcip_mailbox_fetch_responses_def Let_def a split: if_splits option.splits)
  from fetch_loop_err [OF this] have "e = - ENOMEM" "tot = 0" by simp_all
  with assms show ?thesis by (simp add: gcip_mailbox_do_consume_responses_def)
qed

definition oom_kernel :: "'s kernel" where
  "oom_kernel = idle_kernel\<lparr>k_krealloc := (\<lambda>n at s. (False, s))\<rparr>"

theorem fetch_error_has_no_count_witness:
  "\<exists>s'. gcip_mailbox_fetch_responses oom_kernel (gxp_uci_gcip_mbx_ops id no_ops) False
      gxp_example_state = Some (FetchErr (- ENOMEM), 0, s') \<and>
    gcip_mailbox_do_consume_responses oom_kernel (gxp_uci_gcip_mbx_ops id no_ops) False
      gxp_example_state = Some s'"
proof -
  have "\<exists>s'. gcip_mailbox_fetch_responses oom_kernel (gxp_uci_gcip_mbx_ops id no_ops) False
      gxp_example_state = Some (FetchErr (- ENOMEM), 0, s')"
    by (simp add: gcip_mailbox_fetch_responses_def IS_BLOCK_OFF_def gxp_uci_gcip_mbx_ops_def
        gxp_op_defs Let_def gxp_example_state_def, subst fetch_loop.simps)
      (simp add: gxp_op_defs gxp_example_regs circ_defs gcip_circ_queue_cnt_def oom_kernel_def
        idle_kernel_def Let_def, simp add: gxp_example_def word_le_nat_alt)
  then obtain s' where f: "gcip_mailbox_fetch_responses oom_kernel (gxp_uci_gcip_mbx_ops id no_ops)
      False gxp_example_state = Some (FetchErr (- ENOMEM), 0, s')" by blast
  from fetch_error_has_no_count [OF f] f show ?thesis by blast
qed

end
