(* ===== verification/Kci.thy ===== *)
theory Kci
  imports Gxp_Mailbox Mailbox_Waits
begin

text \<open>
  The kernel control interface of \<^verbatim>\<open>drivers/gcip/gcip-kci.c\<close>, with the operators that
  \<^verbatim>\<open>gxp-kci.c\<close> supplies for the DSP.

  A \<open>struct gcip_kci\<close> contains its mailbox and the mailbox points back to it; here the state is the
  mailbox, and its \<open>mb_world\<close> holds the other members of the structure. The circular buffer of the
  requests that the firmware makes (reverse KCI) is a second ring buffer, with one slot kept free.
\<close>

section \<open>Elements and state\<close>

definition GCIP_KCI_REVERSE_FLAG :: u64 where "GCIP_KCI_REVERSE_FLAG = 0x8000000000000000"

record kci_command_element =
  kc_seq :: u64
  kc_code :: u16
  kc_dma_address :: u64
  kc_dma_size :: u32
  kc_dma_flags :: u32

text \<open>\<open>retval\<close> and \<open>rkci_value2\<close> are one member of a union.\<close>

record kci_response_element =
  kr_seq :: u64
  kr_code :: u16
  kr_rkci_value1 :: u16
  kr_retval :: u32

datatype kci_doorbell_reason = GCIP_KCI_PUSH_CMD | GCIP_KCI_CONSUME_RESP

record reverse_kci =
  rk_head :: u64
  rk_tail :: u64
  rk_buffer_size :: u32
  rk_buffer :: "(nat \<Rightarrow> kci_response_element) option"
  rk_work :: bool

text \<open>A work is pending or not. \<open>kci_ops\<close> tells whether the operators are set.\<close>

record 'x gcip_kci =
  kci_cmd_queue_lock :: bool
  kci_resp_queue_lock :: bool
  kci_work :: bool
  kci_rkci :: reverse_kci
  kci_usage_work :: bool
  kci_ops :: bool
  kci_data :: 'x

type_synonym 'x kci_state = "(kci_command_element, kci_response_element, unit, 'x gcip_kci) mailbox"

record 's gcip_kci_ops =
  ko_get_cmd_queue_head :: "('s \<Rightarrow> u32) option"
  ko_get_cmd_queue_tail :: "('s \<Rightarrow> u32) option"
  ko_inc_cmd_queue_tail :: "(u32 \<Rightarrow> 's \<Rightarrow> 's) option"
  ko_get_resp_queue_size :: "('s \<Rightarrow> u32) option"
  ko_get_resp_queue_head :: "('s \<Rightarrow> u32) option"
  ko_get_resp_queue_tail :: "('s \<Rightarrow> u32 \<times> 's) option"
  ko_inc_resp_queue_head :: "(u32 \<Rightarrow> 's \<Rightarrow> 's) option"
  ko_trigger_doorbell :: "(kci_doorbell_reason \<Rightarrow> 's \<Rightarrow> 's) option"
  ko_reverse_kci_handle_response :: "(kci_response_element \<Rightarrow> 's \<Rightarrow> 's) option"
  ko_update_usage :: "('s \<Rightarrow> int \<times> 's) option"
  ko_is_block_off :: "('s \<Rightarrow> bool) option"
  ko_on_error :: "(int \<Rightarrow> 's \<Rightarrow> 's) option"

definition upd_kci :: "('x gcip_kci \<Rightarrow> 'x gcip_kci) \<Rightarrow> 'x kci_state \<Rightarrow> 'x kci_state" where
  "upd_kci f s = s\<lparr>mb_world := f (mb_world s)\<rparr>"

section \<open>The mailbox operators\<close>

definition gcip_kci_get_cmd_queue_tail :: "'x kci_state gcip_kci_ops \<Rightarrow> 'x kci_state \<Rightarrow> u32" where
  "gcip_kci_get_cmd_queue_tail ops s = the (ko_get_cmd_queue_tail ops) s"

definition gcip_kci_inc_cmd_queue_tail ::
  "'x kci_state gcip_kci_ops \<Rightarrow> u32 \<Rightarrow> 'x kci_state \<Rightarrow> 'x kci_state" where
  "gcip_kci_inc_cmd_queue_tail ops inc s = the (ko_inc_cmd_queue_tail ops) inc s"

definition gcip_kci_acquire_cmd_queue_lock ::
  "bool \<Rightarrow> bool \<Rightarrow> 'x kci_state \<Rightarrow> int \<times> bool \<times> 'x kci_state" where
  "gcip_kci_acquire_cmd_queue_lock tr atomic s =
     (1, atomic, upd_kci (\<lambda>k. k\<lparr>kci_cmd_queue_lock := True\<rparr>) s)"

definition gcip_kci_release_cmd_queue_lock :: "'x kci_state \<Rightarrow> 'x kci_state" where
  "gcip_kci_release_cmd_queue_lock s = upd_kci (\<lambda>k. k\<lparr>kci_cmd_queue_lock := False\<rparr>) s"

definition gcip_kci_get_cmd_elem_seq :: "kci_command_element \<Rightarrow> u64" where
  "gcip_kci_get_cmd_elem_seq cmd = kc_seq cmd"

definition gcip_kci_set_cmd_elem_seq :: "kci_command_element \<Rightarrow> u64 \<Rightarrow> kci_command_element" where
  "gcip_kci_set_cmd_elem_seq cmd seq = cmd\<lparr>kc_seq := seq\<rparr>"

definition gcip_kci_get_resp_queue_size :: "'x kci_state gcip_kci_ops \<Rightarrow> 'x kci_state \<Rightarrow> u32" where
  "gcip_kci_get_resp_queue_size ops s = the (ko_get_resp_queue_size ops) s"

definition gcip_kci_get_resp_queue_head :: "'x kci_state gcip_kci_ops \<Rightarrow> 'x kci_state \<Rightarrow> u32" where
  "gcip_kci_get_resp_queue_head ops s = the (ko_get_resp_queue_head ops) s"

definition gcip_kci_get_resp_queue_tail ::
  "'x kci_state gcip_kci_ops \<Rightarrow> 'x kci_state \<Rightarrow> u32 \<times> 'x kci_state" where
  "gcip_kci_get_resp_queue_tail ops s = the (ko_get_resp_queue_tail ops) s"

definition gcip_kci_inc_resp_queue_head ::
  "'x kci_state gcip_kci_ops \<Rightarrow> u32 \<Rightarrow> 'x kci_state \<Rightarrow> 'x kci_state" where
  "gcip_kci_inc_resp_queue_head ops inc s = the (ko_inc_resp_queue_head ops) inc s"

definition gcip_kci_acquire_resp_queue_lock ::
  "bool \<Rightarrow> bool \<Rightarrow> 'x kci_state \<Rightarrow> int \<times> bool \<times> 'x kci_state" where
  "gcip_kci_acquire_resp_queue_lock tr atomic s =
     (let ret = (if tr \<and> kci_resp_queue_lock (mb_world s) then 0 else 1);
          s = (if ret \<noteq> 0 then upd_kci (\<lambda>k. k\<lparr>kci_resp_queue_lock := True\<rparr>) s else s)
      in (ret, True, s))"

definition gcip_kci_release_resp_queue_lock :: "'x kci_state \<Rightarrow> 'x kci_state" where
  "gcip_kci_release_resp_queue_lock s = upd_kci (\<lambda>k. k\<lparr>kci_resp_queue_lock := False\<rparr>) s"

definition gcip_kci_get_resp_elem_seq :: "kci_response_element \<Rightarrow> u64" where
  "gcip_kci_get_resp_elem_seq resp = kr_seq resp"

definition gcip_kci_set_resp_elem_seq :: "kci_response_element \<Rightarrow> u64 \<Rightarrow> kci_response_element" where
  "gcip_kci_set_resp_elem_seq resp seq = resp\<lparr>kr_seq := seq\<rparr>"

definition gcip_kci_wait_for_cmd_queue_not_full ::
  "'x kci_state kernel \<Rightarrow> 'x kci_state gcip_kci_ops \<Rightarrow> 'x kci_state \<Rightarrow> int \<times> 'x kci_state" where
  "gcip_kci_wait_for_cmd_queue_not_full K ops s =
     (let tail = the (ko_get_cmd_queue_tail ops) s;
          wrap_bit = mb_queue_wrap_bit s;
          (ret, s) = k_wait_event_timeout K
            (\<lambda>s. ucast (the (ko_get_cmd_queue_head ops) s) \<noteq> (ucast tail XOR wrap_bit))
            (mb_timeout s) s
      in if ret = 0 then (- ETIMEDOUT, s) else (0, s))"

definition gcip_kci_after_enqueue_cmd ::
  "'x kci_state gcip_kci_ops \<Rightarrow> kci_command_element \<Rightarrow> 'x kci_state \<Rightarrow> int \<times> 'x kci_state" where
  "gcip_kci_after_enqueue_cmd ops cmd s = (0, the (ko_trigger_doorbell ops) GCIP_KCI_PUSH_CMD s)"

definition gcip_kci_after_fetch_resps ::
  "'x kci_state gcip_kci_ops \<Rightarrow> u32 \<Rightarrow> 'x kci_state \<Rightarrow> 'x kci_state" where
  "gcip_kci_after_fetch_resps ops num_resps s =
     (let sz = the (ko_get_resp_queue_size ops) s
      in if num_resps \<ge> sz div 2 then the (ko_trigger_doorbell ops) GCIP_KCI_CONSUME_RESP s else s)"

section \<open>The buffer of reverse requests\<close>

text \<open>The macros of the kernel's \<^verbatim>\<open>linux/circ_buf.h\<close>, at the width the code uses them.\<close>

definition CIRC_CNT :: "u64 \<Rightarrow> u64 \<Rightarrow> u32 \<Rightarrow> u64" where
  "CIRC_CNT head tail sz = (head - tail) AND ucast (sz - 1)"

definition CIRC_SPACE :: "u64 \<Rightarrow> u64 \<Rightarrow> u32 \<Rightarrow> u64" where
  "CIRC_SPACE head tail sz = CIRC_CNT tail (head + 1) sz"

definition gcip_reverse_kci_add_resp ::
  "kci_response_element \<Rightarrow> 'x kci_state \<Rightarrow> int \<times> 'x kci_state" where
  "gcip_reverse_kci_add_resp resp s =
     (let rkci = kci_rkci (mb_world s);
          head = rk_head rkci;
          tail = rk_tail rkci
      in if CIRC_SPACE head tail (rk_buffer_size rkci) \<ge> 1 then
           case rk_buffer rkci of
             None \<Rightarrow> (0, fault s)
           | Some buffer \<Rightarrow>
               let rkci = rkci\<lparr>rk_buffer := Some (buffer(unat head := resp))\<rparr>;
                   rkci = rkci\<lparr>rk_head := (head + 1) AND ucast (rk_buffer_size rkci - 1)\<rparr>;
                   rkci = rkci\<lparr>rk_work := True\<rparr>
               in (0, upd_kci (\<lambda>k. k\<lparr>kci_rkci := rkci\<rparr>) s)
         else (- ENOSPC, s))"

definition gcip_kci_is_rx_elem_reversed :: "kci_response_element \<Rightarrow> 'x kci_state \<Rightarrow> bool" where
  "gcip_kci_is_rx_elem_reversed elem s = c_true (kr_seq elem AND GCIP_KCI_REVERSE_FLAG)"

definition gcip_kci_handle_reversed_command ::
  "kci_response_element \<Rightarrow> 'x kci_state \<Rightarrow> int \<times> 'x kci_state" where
  "gcip_kci_handle_reversed_command elem s = gcip_reverse_kci_add_resp elem s"

definition gcip_kci_is_block_off :: "'x kci_state gcip_kci_ops \<Rightarrow> 'x kci_state \<Rightarrow> bool" where
  "gcip_kci_is_block_off ops s = (case ko_is_block_off ops of Some f \<Rightarrow> f s | None \<Rightarrow> False)"

definition gcip_kci_on_error :: "'x kci_state gcip_kci_ops \<Rightarrow> int \<Rightarrow> 'x kci_state \<Rightarrow> 'x kci_state" where
  "gcip_kci_on_error ops err s = (case ko_on_error ops of Some f \<Rightarrow> f err s | None \<Rightarrow> s)"

definition gcip_kci_mailbox_ops ::
  "'x kci_state kernel \<Rightarrow> 'x kci_state gcip_kci_ops \<Rightarrow>
     (kci_command_element, kci_response_element, unit, 'x gcip_kci) mbox_ops" where
  "gcip_kci_mailbox_ops K ops = no_ops\<lparr>
     op_get_tx_queue_tail := Some (gcip_kci_get_cmd_queue_tail ops),
     op_inc_tx_queue_tail := Some (gcip_kci_inc_cmd_queue_tail ops),
     op_acquire_tx_queue_lock := Some gcip_kci_acquire_cmd_queue_lock,
     op_release_tx_queue_lock := Some gcip_kci_release_cmd_queue_lock,
     op_get_cmd_elem_seq := Some gcip_kci_get_cmd_elem_seq,
     op_set_cmd_elem_seq := Some gcip_kci_set_cmd_elem_seq,
     op_get_rx_queue_size := Some (gcip_kci_get_resp_queue_size ops),
     op_get_rx_queue_head := Some (gcip_kci_get_resp_queue_head ops),
     op_get_rx_queue_tail := Some (gcip_kci_get_resp_queue_tail ops),
     op_inc_rx_queue_head := Some (gcip_kci_inc_resp_queue_head ops),
     op_acquire_rx_queue_lock := Some gcip_kci_acquire_resp_queue_lock,
     op_release_rx_queue_lock := Some gcip_kci_release_resp_queue_lock,
     op_get_resp_elem_seq := Some gcip_kci_get_resp_elem_seq,
     op_set_resp_elem_seq := Some gcip_kci_set_resp_elem_seq,
     op_wait_for_tx_queue_not_full := Some (gcip_kci_wait_for_cmd_queue_not_full K ops),
     op_is_rx_elem_reversed := Some gcip_kci_is_rx_elem_reversed,
     op_handle_reversed_command := Some gcip_kci_handle_reversed_command,
     op_after_enqueue_cmd := Some (gcip_kci_after_enqueue_cmd ops),
     op_after_fetch_resps := Some (gcip_kci_after_fetch_resps ops),
     op_is_block_off := Some (gcip_kci_is_block_off ops),
     op_on_error := Some (gcip_kci_on_error ops)\<rparr>"

section \<open>Client calls\<close>

text \<open>
  \<open>ar\<close> and \<open>b\<close> are the addresses of the \<open>async_resp\<close> and of the response on the stack of the callee.
\<close>

definition gcip_kci_send_cmd_return_resp ::
  "'x kci_state kernel \<Rightarrow> 'x kci_state gcip_kci_ops \<Rightarrow> ptr \<Rightarrow> kci_command_element \<Rightarrow> ptr option \<Rightarrow>
     'x kci_state \<Rightarrow> int \<times> 'x kci_state" where
  "gcip_kci_send_cmd_return_resp K ops ar cmd resp s =
     (let flags = (if c_true (kc_seq cmd AND GCIP_KCI_REVERSE_FLAG)
                   then GCIP_MAILBOX_CMD_FLAGS_SKIP_ASSIGN_SEQ else 0);
          (ret, s) = gcip_mailbox_send_cmd K (gcip_kci_mailbox_ops K ops) ar cmd resp flags s
      in if ret \<noteq> 0 then (ret, s)
         else (case resp of Some b \<Rightarrow> (uint (kr_code (mb_resp_bufs s b)), s) | None \<Rightarrow> (0, s)))"

definition gcip_kci_send_cmd ::
  "'x kci_state kernel \<Rightarrow> 'x kci_state gcip_kci_ops \<Rightarrow> ptr \<Rightarrow> ptr \<Rightarrow> kci_command_element \<Rightarrow>
     'x kci_state \<Rightarrow> int \<times> 'x kci_state" where
  "gcip_kci_send_cmd K ops ar b cmd s =
     (if c_true (kc_seq cmd AND GCIP_KCI_REVERSE_FLAG)
      then gcip_kci_send_cmd_return_resp K ops ar cmd None s
      else gcip_kci_send_cmd_return_resp K ops ar cmd (Some b) s)"

definition gcip_kci_consume_responses_work ::
  "'x kci_state kernel \<Rightarrow> 'x kci_state gcip_kci_ops \<Rightarrow> 'x kci_state \<Rightarrow> 'x kci_state option" where
  "gcip_kci_consume_responses_work K ops s =
     gcip_mailbox_consume_responses_work K (gcip_kci_mailbox_ops K ops) s"

definition gcip_kci_handle_irq ::
  "'x kci_state kernel \<Rightarrow> 'x kci_state gcip_kci_ops \<Rightarrow> 'x kci_state \<Rightarrow> 'x kci_state" where
  "gcip_kci_handle_irq K ops s =
     (let s = gcip_mailbox_consume_one_response (gcip_kci_mailbox_ops K ops) s
      in upd_kci (\<lambda>k. k\<lparr>kci_work := True\<rparr>) s)"

definition gcip_kci_update_usage_work ::
  "'x kci_state gcip_kci_ops \<Rightarrow> 'x kci_state \<Rightarrow> 'x kci_state" where
  "gcip_kci_update_usage_work ops s = snd (the (ko_update_usage ops) s)"

definition gcip_kci_update_usage_async :: "'x kci_state \<Rightarrow> 'x kci_state" where
  "gcip_kci_update_usage_async s = upd_kci (\<lambda>k. k\<lparr>kci_usage_work := True\<rparr>) s"

text \<open>The element is returned when there was one.\<close>

definition gcip_reverse_kci_remove_resp ::
  "'x kci_state \<Rightarrow> kci_response_element option \<times> 'x kci_state" where
  "gcip_reverse_kci_remove_resp s =
     (let rkci = kci_rkci (mb_world s);
          head = rk_head rkci;
          tail = rk_tail rkci
      in if CIRC_CNT head tail (rk_buffer_size rkci) \<ge> 1 then
           case rk_buffer rkci of
             None \<Rightarrow> (None, fault s)
           | Some buffer \<Rightarrow>
               let resp = buffer (unat tail);
                   tail = (tail + 1) AND ucast (rk_buffer_size rkci - 1)
               in (Some resp, upd_kci (\<lambda>k. k\<lparr>kci_rkci := rkci\<lparr>rk_tail := tail\<rparr>\<rparr>) s)
         else (None, s))"

partial_function (option) gcip_reverse_kci_work ::
  "'x kci_state gcip_kci_ops \<Rightarrow> 'x kci_state \<Rightarrow> 'x kci_state option" where
  "gcip_reverse_kci_work ops s =
     (case gcip_reverse_kci_remove_resp s of
        (None, s) \<Rightarrow> Some s
      | (Some resp, s) \<Rightarrow>
          gcip_reverse_kci_work ops (the (ko_reverse_kci_handle_response ops) resp s))"

section \<open>Set-up and release\<close>

definition gcip_reverse_kci_init ::
  "'x kci_state kernel \<Rightarrow> (nat \<Rightarrow> kci_response_element) \<Rightarrow> u32 \<Rightarrow> 'x kci_state \<Rightarrow>
     int \<times> 'x kci_state" where
  "gcip_reverse_kci_init K zeroed buffer_size s =
     (if rk_buffer (kci_rkci (mb_world s)) \<noteq> None then (0, s)
      else
        let rkci = (kci_rkci (mb_world s))\<lparr>rk_head := 0, rk_tail := 0, rk_buffer_size := buffer_size\<rparr>;
            (p, s) = k_kzalloc K False s
        in if p = None then (- ENOMEM, upd_kci (\<lambda>k. k\<lparr>kci_rkci := rkci\<rparr>) s)
           else (0, upd_kci (\<lambda>k. k\<lparr>kci_rkci := rkci\<lparr>rk_buffer := Some zeroed, rk_work := False\<rparr>\<rparr>) s))"

definition gcip_reverse_kci_reinit :: "'x kci_state \<Rightarrow> 'x kci_state" where
  "gcip_reverse_kci_reinit s =
     upd_kci (\<lambda>k. k\<lparr>kci_rkci := (kci_rkci k)\<lparr>rk_head := 0, rk_tail := 0\<rparr>\<rparr>) s"

definition gcip_kci_set_ops ::
  "'x kci_state gcip_kci_ops option \<Rightarrow> 'x kci_state \<Rightarrow> int \<times> 'x kci_state" where
  "gcip_kci_set_ops ops_ptr s =
     (case ops_ptr of
        None \<Rightarrow> (0, upd_kci (\<lambda>k. k\<lparr>kci_ops := False\<rparr>) s)
      | Some ops \<Rightarrow>
          if ko_get_cmd_queue_head ops = None \<or> ko_get_cmd_queue_tail ops = None \<or>
             ko_inc_cmd_queue_tail ops = None then (- EINVAL, s)
          else if ko_get_resp_queue_size ops = None \<or> ko_get_resp_queue_head ops = None \<or>
             ko_get_resp_queue_tail ops = None \<or> ko_inc_resp_queue_head ops = None then (- EINVAL, s)
          else if ko_trigger_doorbell ops = None then (- EINVAL, s)
          else (0, upd_kci (\<lambda>k. k\<lparr>kci_ops := True\<rparr>) s))"

record 'x gcip_kci_args =
  ka_cmd_queue :: "nat \<Rightarrow> kci_command_element"
  ka_resp_queue :: "nat \<Rightarrow> kci_response_element"
  ka_queue_wrap_bit :: u32
  ka_rkci_buffer_size :: u32
  ka_timeout :: u32
  ka_ops :: "'x kci_state gcip_kci_ops option"
  ka_data :: 'x

text \<open>\<open>nodata\<close> stands for the null pointer that the error path stores, \<open>zeroed\<close> for zeroed memory.\<close>

definition gcip_kci_init ::
  "'x kci_state kernel \<Rightarrow> (nat \<Rightarrow> kci_response_element) \<Rightarrow> 'x \<Rightarrow> 'x gcip_kci_args \<Rightarrow>
     'x kci_state \<Rightarrow> int \<times> 'x kci_state" where
  "gcip_kci_init K zeroed nodata args s =
     (if kci_ops (mb_world s) then (0, s)
      else
        let s = upd_kci (\<lambda>k. k\<lparr>kci_data := ka_data args\<rparr>) s;
            (ret, s) = gcip_kci_set_ops (ka_ops args) s
        in if ret \<noteq> 0 then (ret, upd_kci (\<lambda>k. k\<lparr>kci_data := nodata\<rparr>) s)
           else
             let (ret, s) = gcip_reverse_kci_init K zeroed (ka_rkci_buffer_size args) s
             in if ret \<noteq> 0 then
                  (ret, upd_kci (\<lambda>k. k\<lparr>kci_data := nodata\<rparr>) (snd (gcip_kci_set_ops None s)))
                else
                  let mailbox_args = \<lparr>arg_mode = GCIP_MAILBOX_MODE_ALL,
                        arg_queue_wrap_bit = ka_queue_wrap_bit args,
                        arg_tx_queue = ka_cmd_queue args, arg_rx_queue = ka_resp_queue args,
                        arg_timeout = ka_timeout args,
                        arg_ops = Some (gcip_kci_mailbox_ops K (the (ka_ops args))),
                        arg_data = mb_world s\<rparr>;
                      (ret, s) = gcip_mailbox_init mailbox_args s
                  in if ret \<noteq> 0 then
                       (ret, upd_kci (\<lambda>k. k\<lparr>kci_data := nodata\<rparr>) (snd (gcip_kci_set_ops None s)))
                     else (0, upd_kci (\<lambda>k. k\<lparr>kci_cmd_queue_lock := False,
                             kci_resp_queue_lock := False, kci_work := False,
                             kci_usage_work := False\<rparr>) s))"

definition gcip_kci_reinit :: "'x kci_state \<Rightarrow> 'x kci_state" where
  "gcip_kci_reinit s = gcip_reverse_kci_reinit s"

text \<open>Cancelling a work that is pending removes it; one that runs is waited for.\<close>

definition gcip_kci_cancel_work_queues :: "'x kci_state \<Rightarrow> 'x kci_state" where
  "gcip_kci_cancel_work_queues s =
     upd_kci (\<lambda>k. k\<lparr>kci_usage_work := False, kci_work := False,
       kci_rkci := (kci_rkci k)\<lparr>rk_work := False\<rparr>\<rparr>) s"

definition gcip_kci_release ::
  "'x kci_state kernel \<Rightarrow> 'x kci_state gcip_kci_ops \<Rightarrow> 'x \<Rightarrow> 'x kci_state \<Rightarrow> 'x kci_state" where
  "gcip_kci_release K ops nodata s =
     (let s = upd_kci (\<lambda>k. k\<lparr>kci_rkci := (kci_rkci k)\<lparr>rk_buffer := None\<rparr>\<rparr>) s;
          s = snd (gcip_kci_set_ops None s);
          s = upd_kci (\<lambda>k. k\<lparr>kci_data := nodata\<rparr>) s
      in gcip_mailbox_release K (gcip_kci_mailbox_ops K ops) s)"

end
