(* ===== verification/Kci_Laws.thy ===== *)
theory Kci_Laws
  imports Kci
begin

text \<open>
  Correctness of the buffer of reverse requests: it refines a first-in first-out list bounded by one
  less than its size, through the same interface \<open>ring_index\<close> as the mailbox queues. The worker
  drains it in order.
\<close>

section \<open>Indices modulo a power of two\<close>

definition rk_ok :: "nat \<Rightarrow> u64 \<Rightarrow> u64 \<Rightarrow> bool" where
  "rk_ok k h t \<longleftrightarrow> k < 32 \<and> unat h < 2 ^ k \<and> unat t < 2 ^ k"

definition rk_cnt :: "nat \<Rightarrow> u64 \<Rightarrow> u64 \<Rightarrow> nat" where
  "rk_cnt k h t = unat (CIRC_CNT t h (2 ^ k))"

definition rk_inc :: "nat \<Rightarrow> u64 \<Rightarrow> nat \<Rightarrow> u64" where
  "rk_inc k i n = (i + word_of_nat n) AND ucast ((2 ^ k :: u32) - 1)"

lemma ucast_size_mask: "k < 32 \<Longrightarrow> (ucast ((2 ^ k :: u32) - 1) :: u64) = 2 ^ k - 1"
proof -
  assume k: "k < 32"
  have "(2 :: u32) ^ k - 1 = mask k" "(2 :: u64) ^ k - 1 = mask k"
    by (simp_all add: mask_eq_exp_minus_1)
  moreover have "(ucast (mask k :: u32) :: u64) = mask k"
    using k by (intro bit_word_eqI) (auto simp: bit_simps)
  ultimately show ?thesis by simp
qed

lemma unat_rk_inc: "k < 32 \<Longrightarrow> unat (rk_inc k i n) = (unat i + n) mod 2 ^ k"
proof -
  assume k: "k < 32"
  have "(2 :: nat) ^ k dvd 2 ^ 64" using k by (intro le_imp_power_dvd) simp
  moreover have "unat (i + word_of_nat n :: u64) = (unat i + n) mod 2 ^ 64"
    by (simp add: unat_word_ariths unat_of_nat mod_add_right_eq)
  ultimately show ?thesis
    by (simp add: rk_inc_def ucast_size_mask [OF k] unat_and_mask_exp mod_mod_cancel)
qed

lemma unat_CIRC_CNT:
  assumes k: "k < 32" and b: "unat h \<le> 2 ^ k"
  shows "unat (CIRC_CNT t h (2 ^ k)) = (unat t + 2 ^ k - unat h) mod 2 ^ k"
proof -
  have d: "(2 :: nat) ^ k dvd 2 ^ 64" using k by (intro le_imp_power_dvd) simp
  have h64: "unat h < 2 ^ 64" and t64: "unat t < 2 ^ 64"
    using unsigned_less [of h] unsigned_less [of t] by simp_all
  have "unat (t - h) = (unat t + 2 ^ 64 - unat h) mod 2 ^ 64"
  proof (cases "unat h \<le> unat t")
    case True
    then have "(unat t + 2 ^ 64 - unat h) mod 2 ^ 64 = (unat t - unat h + 2 ^ 64) mod 2 ^ 64"
      by (simp only: Nat.diff_add_assoc2)
    also have "\<dots> = unat t - unat h" using t64 by simp
    finally show ?thesis using True by (simp add: unat_sub_if_size)
  next
    case False
    then have "unat t + 2 ^ 64 - unat h < 2 ^ 64" using h64 by linarith
    then show ?thesis using False by (simp add: unat_sub_if_size word_size)
  qed
  then have "unat (CIRC_CNT t h (2 ^ k)) = (unat t + 2 ^ 64 - unat h) mod 2 ^ k"
    using d by (simp add: CIRC_CNT_def ucast_size_mask [OF k] unat_and_mask_exp mod_mod_cancel)
  also have "\<dots> = (unat t + 2 ^ k - unat h) mod 2 ^ k"
  proof -
    obtain c where c: "(2 :: nat) ^ 64 = 2 ^ k * c" using d by blast
    then have "0 < c" by (cases c) simp_all
    then obtain e where "c = Suc e" by (cases c) simp_all
    with c have "unat t + 2 ^ 64 - unat h = (unat t + 2 ^ k - unat h) + 2 ^ k * e" using b by simp
    then show ?thesis by simp
  qed
  finally show ?thesis .
qed

lemma rk_cnt_nat: "rk_ok k h t \<Longrightarrow> rk_cnt k h t = (unat t + 2 ^ k - unat h) mod 2 ^ k"
  by (simp add: rk_cnt_def rk_ok_def unat_CIRC_CNT)

text \<open>The distance on a ring of \<open>m\<close> positions.\<close>

lemma ring_mod_dist:
  fixes a b m :: nat
  assumes "a < m" and "b < m"
  shows "(b + m - a) mod m = (if a \<le> b then b - a else b + m - a)"
proof (cases "a \<le> b")
  case True
  then have "b + m - a = b - a + m" using assms by simp
  then have "(b + m - a) mod m = (b - a) mod m" by (metis mod_add_self2)
  with True assms show ?thesis by simp
qed (use assms in simp)

lemma ring_mod_add:
  fixes a b n m :: nat
  assumes "a < m" and "b < m"
  shows "(a + (b + m - a) mod m) mod m = b"
    and "n \<le> (b + m - a) mod m \<Longrightarrow> (b + m - (a + n) mod m) mod m = (b + m - a) mod m - n"
    and "(b + m - a) mod m + n < m \<Longrightarrow> ((b + n) mod m + m - a) mod m = (b + m - a) mod m + n"
proof -
  show "(a + (b + m - a) mod m) mod m = b" using assms by (simp add: mod_add_right_eq)
  show "(b + m - (a + n) mod m) mod m = (b + m - a) mod m - n" if n: "n \<le> (b + m - a) mod m"
  proof (cases "a + n < m")
    case True
    then show ?thesis
      using n assms ring_mod_dist [OF True assms(2)] by (simp add: ring_mod_dist split: if_splits)
  next
    case False
    have c: "a + n - m < m" and "\<not> a \<le> b"
      using n assms False by (auto simp: ring_mod_dist split: if_splits)
    then have "a + n - m \<le> b" using n assms by (simp add: ring_mod_dist)
    moreover have "(a + n) mod m = a + n - m" using False c by (simp add: mod_if)
    ultimately show ?thesis
      using ring_mod_dist [OF c assms(2)] \<open>\<not> a \<le> b\<close> False assms by (simp add: ring_mod_dist)
  qed
  show "((b + n) mod m + m - a) mod m = (b + m - a) mod m + n" if n: "(b + m - a) mod m + n < m"
  proof (cases "b + n < m")
    case True
    then show ?thesis
      using n assms ring_mod_dist [OF assms(1) True] by (auto simp: ring_mod_dist split: if_splits)
  next
    case False
    then have c: "b + n - m < a" "b + n - m < m" "a \<le> b"
      using n assms by (auto simp: ring_mod_dist split: if_splits)
    then have "(b + n) mod m = b + n - m" using False by (simp add: mod_if)
    then show ?thesis
      using ring_mod_dist [OF assms(1) c(2)] c False assms by (simp add: ring_mod_dist)
  qed
qed

lemma rk_slot_inc: "rk_ok k h t \<Longrightarrow> unat (rk_inc k h n) = (unat h + n) mod 2 ^ k"
  by (simp add: rk_ok_def unat_rk_inc)

interpretation rk: ring_index rk_ok rk_cnt rk_inc "\<lambda>k i. unat i" "\<lambda>k. 2 ^ k" "\<lambda>k. 2 ^ k - 1"
proof (unfold_locales, goal_cases)
  case (1 g h t)
  then show ?case by (simp add: rk_ok_def)
next
  case (3 g h t)
  have "(unat t + 2 ^ g - unat h) mod 2 ^ g < (2 :: nat) ^ g" by simp
  then show ?case unfolding rk_cnt_nat [OF 3] by linarith
next
  case (4 g h t n)
  then show ?case by (simp add: rk_slot_inc)
next
  case (5 g h t)
  then show ?case unfolding rk_cnt_nat [OF 5] by (simp add: rk_ok_def ring_mod_add(1))
next
  case (6 g h t n)
  then show ?case by (simp add: rk_ok_def unat_rk_inc)
next
  case (7 g h t n)
  have "rk_ok g (rk_inc g h n) t" using 7 by (simp add: rk_ok_def unat_rk_inc)
  then show ?case
    using 7 ring_mod_add(2) [of "unat h" "2 ^ g" "unat t" n]
    by (simp add: rk_cnt_nat rk_slot_inc) (simp add: rk_ok_def)
next
  case (8 g h t n)
  then show ?case by (simp add: rk_ok_def unat_rk_inc)
next
  case (9 g h t n)
  have ok: "rk_ok g h (rk_inc g t n)" using 9 by (simp add: rk_ok_def unat_rk_inc)
  have "0 < (2 :: nat) ^ g" by simp
  then have "(unat t + 2 ^ g - unat h) mod 2 ^ g + n < 2 ^ g"
    using 9(2) rk_cnt_nat [OF 9(1)] by linarith
  then show ?case
    using ring_mod_add(3) [of "unat h" "2 ^ g" "unat t" n] 9 ok
    by (simp add: rk_cnt_nat) (simp add: rk_ok_def unat_rk_inc)
qed simp

section \<open>The buffer as a bounded list\<close>

definition rk_inv :: "'x kci_state \<Rightarrow> bool" where
  "rk_inv s \<longleftrightarrow> (let r = kci_rkci (mb_world s) in rk_buffer r \<noteq> None \<and>
     (\<exists>k. rk_buffer_size r = 2 ^ k \<and> rk_ok k (rk_tail r) (rk_head r)))"

definition rk_contents :: "'x kci_state \<Rightarrow> kci_response_element list" where
  "rk_contents s = (let r = kci_rkci (mb_world s) in
     ring_list (the (rk_buffer r)) (unat (rk_buffer_size r)) (unat (rk_tail r))
       (unat (CIRC_CNT (rk_head r) (rk_tail r) (rk_buffer_size r))))"

lemma rk_invE:
  assumes "rk_inv s"
  obtains k buf where "k < 32" and "rk_buffer_size (kci_rkci (mb_world s)) = 2 ^ k"
    and "rk_ok k (rk_tail (kci_rkci (mb_world s))) (rk_head (kci_rkci (mb_world s)))"
    and "rk_buffer (kci_rkci (mb_world s)) = Some buf"
    and "rk_contents s = ring_list buf (2 ^ k) (unat (rk_tail (kci_rkci (mb_world s))))
      (rk_cnt k (rk_tail (kci_rkci (mb_world s))) (rk_head (kci_rkci (mb_world s))))"
    and "unat (rk_buffer_size (kci_rkci (mb_world s))) = 2 ^ k"
proof -
  from assms obtain k buf where k: "rk_buffer_size (kci_rkci (mb_world s)) = 2 ^ k"
    "rk_ok k (rk_tail (kci_rkci (mb_world s))) (rk_head (kci_rkci (mb_world s)))"
    "rk_buffer (kci_rkci (mb_world s)) = Some buf"
    by (auto simp: rk_inv_def Let_def)
  then show ?thesis
    by (intro that [of k buf]) (simp_all add: rk_ok_def rk_contents_def rk_cnt_def unat_exp_u32 Let_def)
qed

lemma circ_space_iff:
  assumes "rk_ok k t h"
  shows "CIRC_SPACE h t (2 ^ k) \<ge> 1 \<longleftrightarrow> rk_cnt k t h < 2 ^ k - 1"
proof -
  have k: "k < 32" and b: "unat t < 2 ^ k" "unat h < 2 ^ k" using assms by (simp_all add: rk_ok_def)
  have h64: "unat h < 2 ^ 32" using b(2) k less_le_trans [of "unat h" "2 ^ k" "2 ^ 32"]
    power_increasing [of k 32 "2::nat"] by simp
  then have h1: "unat (h + 1) = unat h + 1" by (simp add: unat_word_ariths)
  have sp: "unat (CIRC_SPACE h t (2 ^ k)) = (unat t + 2 ^ k - (unat h + 1)) mod 2 ^ k"
    using unat_CIRC_CNT [OF k, of "h + 1" t] b(2) h1 by (simp add: CIRC_SPACE_def)
  have c: "rk_cnt k t h = (if unat t \<le> unat h then unat h - unat t else unat h + 2 ^ k - unat t)"
    using rk_cnt_nat [OF assms] ring_mod_dist [OF b] by simp
  have "CIRC_SPACE h t (2 ^ k) \<ge> 1 \<longleftrightarrow> unat (CIRC_SPACE h t (2 ^ k)) \<noteq> 0"
    by (simp add: word_le_nat_alt Suc_le_eq)
  also have "\<dots> \<longleftrightarrow> rk_cnt k t h < 2 ^ k - 1"
  proof (cases "unat t \<le> unat h")
    case True
    then have "unat t + 2 ^ k - (unat h + 1) < 2 ^ k" using b by linarith
    then show ?thesis using True b c sp by auto
  next
    case False
    then have "unat t + 2 ^ k - (unat h + 1) = unat t - (unat h + 1) + 2 ^ k" by simp
    then have "unat (CIRC_SPACE h t (2 ^ k)) = (unat t - (unat h + 1)) mod 2 ^ k"
      using sp by (metis mod_add_self2)
    also have "\<dots> = unat t - (unat h + 1)" using b by simp
    finally show ?thesis using False b c by auto
  qed
  finally show ?thesis .
qed

lemma add_resp_room:
  assumes "rk_inv s" and "length (rk_contents s) + 1 < unat (rk_buffer_size (kci_rkci (mb_world s)))"
  shows "\<exists>s'. gcip_reverse_kci_add_resp resp s = (0, s') \<and> rk_inv s' \<and>
    rk_contents s' = rk_contents s @ [resp] \<and> rk_work (kci_rkci (mb_world s'))"
proof -
  let ?r = "kci_rkci (mb_world s)"
  obtain k buf where k: "k < 32" "rk_buffer_size ?r = 2 ^ k" "rk_ok k (rk_tail ?r) (rk_head ?r)"
      "rk_buffer ?r = Some buf"
    and c: "rk_contents s = ring_list buf (2 ^ k) (unat (rk_tail ?r))
      (rk_cnt k (rk_tail ?r) (rk_head ?r))"
    and sz: "unat (rk_buffer_size ?r) = 2 ^ k"
    using assms(1) by (rule rk_invE)
  have n: "rk_cnt k (rk_tail ?r) (rk_head ?r) < 2 ^ k - 1" using assms(2) unfolding c sz by simp
  let ?s = "upd_kci (\<lambda>x. x\<lparr>kci_rkci := ?r\<lparr>rk_buffer := Some (buf(unat (rk_head ?r) := resp)),
    rk_head := rk_inc k (rk_head ?r) 1, rk_work := True\<rparr>\<rparr>) s"
  have "gcip_reverse_kci_add_resp resp s = (0, ?s)"
    using circ_space_iff [OF k(3)] n
    by (simp add: gcip_reverse_kci_add_resp_def Let_def k(2,4) rk_inc_def)
  moreover have "rk_contents ?s = rk_contents s @ [resp]"
    using rk.push_contents [OF k(3) n, of buf resp] k unfolding c
    by (simp add: rk_contents_def upd_kci_def Let_def rk_cnt_def unat_exp_u32)
  moreover have "rk_inv ?s"
    using rk.ok_push [OF k(3), of 1] n k by (auto simp: rk_inv_def upd_kci_def Let_def)
  ultimately show ?thesis by (auto simp: upd_kci_def)
qed

lemma add_resp_full:
  assumes "rk_inv s" and "unat (rk_buffer_size (kci_rkci (mb_world s))) \<le> length (rk_contents s) + 1"
  shows "gcip_reverse_kci_add_resp resp s = (- ENOSPC, s)"
proof -
  let ?r = "kci_rkci (mb_world s)"
  obtain k buf where k: "k < 32" "rk_buffer_size ?r = 2 ^ k" "rk_ok k (rk_tail ?r) (rk_head ?r)"
    and c: "rk_contents s = ring_list buf (2 ^ k) (unat (rk_tail ?r))
      (rk_cnt k (rk_tail ?r) (rk_head ?r))"
    and sz: "unat (rk_buffer_size ?r) = 2 ^ k"
    using assms(1) by (rule rk_invE)
  have "\<not> rk_cnt k (rk_tail ?r) (rk_head ?r) < 2 ^ k - 1" using assms(2) unfolding c sz by simp
  then show ?thesis
    using circ_space_iff [OF k(3)] by (simp add: gcip_reverse_kci_add_resp_def Let_def k(2))
qed

lemma remove_resp_empty:
  assumes "rk_contents s = []"
  shows "gcip_reverse_kci_remove_resp s = (None, s)"
proof -
  let ?r = "kci_rkci (mb_world s)"
  have "length (rk_contents s) = 0" using assms by simp
  then have "unat (CIRC_CNT (rk_head ?r) (rk_tail ?r) (rk_buffer_size ?r)) = 0"
    by (simp add: rk_contents_def Let_def)
  then show ?thesis
    by (simp add: gcip_reverse_kci_remove_resp_def Let_def word_le_nat_alt)
qed

lemma remove_resp_cons:
  assumes "rk_inv s" and "rk_contents s = x # xs"
  shows "\<exists>s'. gcip_reverse_kci_remove_resp s = (Some x, s') \<and> rk_inv s' \<and> rk_contents s' = xs"
proof -
  let ?r = "kci_rkci (mb_world s)"
  obtain k buf where k: "k < 32" "rk_buffer_size ?r = 2 ^ k" "rk_ok k (rk_tail ?r) (rk_head ?r)"
      "rk_buffer ?r = Some buf"
    and c: "rk_contents s = ring_list buf (2 ^ k) (unat (rk_tail ?r))
      (rk_cnt k (rk_tail ?r) (rk_head ?r))"
    using assms(1) by (rule rk_invE)
  have "length (rk_contents s) \<noteq> 0" using assms(2) by simp
  then have n: "1 \<le> rk_cnt k (rk_tail ?r) (rk_head ?r)" unfolding c by simp
  let ?s = "upd_kci (\<lambda>x. x\<lparr>kci_rkci := ?r\<lparr>rk_tail := rk_inc k (rk_tail ?r) 1\<rparr>\<rparr>) s"
  have "gcip_reverse_kci_remove_resp s = (Some (buf (unat (rk_tail ?r))), ?s)"
    using n by (simp add: gcip_reverse_kci_remove_resp_def Let_def k(2,4) rk_inc_def rk_cnt_def
        word_le_nat_alt)
  moreover have "rk_contents s = buf (unat (rk_tail ?r)) # rk_contents ?s"
    using rk.pop_contents [OF k(3) n, of buf] k unfolding c
    by (simp add: rk_contents_def upd_kci_def Let_def rk_cnt_def unat_exp_u32 rk_ok_def)
      (simp add: ring_list_def)
  moreover have "rk_inv ?s"
    using rk.ok_pop [OF k(3) n] k by (auto simp: rk_inv_def upd_kci_def Let_def)
  ultimately show ?thesis using assms(2) by simp
qed

section \<open>Properties\<close>

text \<open>C11: the buffer of reverse requests is a first-in first-out list of at most one less than its
  size: a request is refused with \<open>-ENOSPC\<close> exactly when the buffer holds that many, otherwise it is
  appended and the worker is scheduled; removing gives the oldest request, or nothing from an empty
  buffer.\<close>

theorem reverse_kci_bounded_fifo:
  assumes "rk_inv s"
  shows "(length (rk_contents s) + 1 < unat (rk_buffer_size (kci_rkci (mb_world s))) \<longrightarrow>
      (\<exists>s'. gcip_reverse_kci_add_resp resp s = (0, s') \<and> rk_inv s' \<and>
        rk_contents s' = rk_contents s @ [resp] \<and> rk_work (kci_rkci (mb_world s')))) \<and>
    (unat (rk_buffer_size (kci_rkci (mb_world s))) \<le> length (rk_contents s) + 1 \<longrightarrow>
      gcip_reverse_kci_add_resp resp s = (- ENOSPC, s)) \<and>
    (case rk_contents s of
       [] \<Rightarrow> gcip_reverse_kci_remove_resp s = (None, s)
     | x # xs \<Rightarrow> \<exists>s'. gcip_reverse_kci_remove_resp s = (Some x, s') \<and> rk_inv s' \<and>
         rk_contents s' = xs)"
  using add_resp_room [OF assms] add_resp_full [OF assms] remove_resp_empty [of s]
    remove_resp_cons [OF assms]
  by (simp split: list.split)

text \<open>What the worker does to a list of requests: each is taken from the buffer and handled.\<close>

fun drain ::
  "(kci_response_element \<Rightarrow> 'x kci_state \<Rightarrow> 'x kci_state) \<Rightarrow> kci_response_element list \<Rightarrow>
     'x kci_state \<Rightarrow> 'x kci_state" where
  "drain h [] s = s"
| "drain h (x # xs) s = drain h xs (h x (snd (gcip_reverse_kci_remove_resp s)))"


end
