(* ===== verification/Gxp_Kci.thy ===== *)
theory Gxp_Kci
  imports Kci_Laws
begin

text \<open>
  The DSP's control mailbox: the operators of \<^verbatim>\<open>gxp-kci.c\<close> under the generic KCI, and the proof that
  the two together provide the receive, transmit and wait-list interfaces of the mailbox.

  Parameters: \<open>dev\<close>, what the firmware did before the response tail is read; \<open>rkci\<close> and \<open>usage\<close>, the
  handler of a reverse request and the usage update.
\<close>

section \<open>The operators\<close>

definition KCI_CIRCULAR_QUEUE_WRAP_BIT :: u32 where "KCI_CIRCULAR_QUEUE_WRAP_BIT = 2 ^ 15"

type_synonym gxp_kci_state = "gxp_mailbox kci_state"

definition upd_mbx :: "(gxp_mailbox \<Rightarrow> gxp_mailbox) \<Rightarrow> gxp_kci_state \<Rightarrow> gxp_kci_state" where
  "upd_mbx f s = upd_kci (\<lambda>k. k\<lparr>kci_data := f (kci_data k)\<rparr>) s"

abbreviation mbx :: "gxp_kci_state \<Rightarrow> gxp_mailbox" where
  "mbx s \<equiv> kci_data (mb_world s)"

definition gxp_kci_get_cmd_queue_head :: "gxp_kci_state \<Rightarrow> u32" where
  "gxp_kci_get_cmd_queue_head s = ucast (gxp_mailbox_read_cmd_queue_head (mbx s))"

definition gxp_kci_get_cmd_queue_tail :: "gxp_kci_state \<Rightarrow> u32" where
  "gxp_kci_get_cmd_queue_tail s = gx_cmd_queue_tail (mbx s)"

definition gxp_kci_inc_cmd_queue_tail :: "u32 \<Rightarrow> gxp_kci_state \<Rightarrow> gxp_kci_state" where
  "gxp_kci_inc_cmd_queue_tail inc s =
     upd_mbx (\<lambda>m. snd (gxp_mailbox_inc_cmd_queue_tail_nolock m inc KCI_CIRCULAR_QUEUE_WRAP_BIT)) s"

definition gxp_kci_get_resp_queue_size :: "gxp_kci_state \<Rightarrow> u32" where
  "gxp_kci_get_resp_queue_size s = gx_resp_queue_size (mbx s)"

definition gxp_kci_get_resp_queue_head :: "gxp_kci_state \<Rightarrow> u32" where
  "gxp_kci_get_resp_queue_head s = gx_resp_queue_head (mbx s)"

definition gxp_kci_get_resp_queue_tail ::
  "(gxp_kci_state \<Rightarrow> gxp_kci_state) \<Rightarrow> gxp_kci_state \<Rightarrow> u32 \<times> gxp_kci_state" where
  "gxp_kci_get_resp_queue_tail dev s =
     (let s = dev s in (ucast (gxp_mailbox_read_resp_queue_tail (mbx s)), s))"

definition gxp_kci_inc_resp_queue_head :: "u32 \<Rightarrow> gxp_kci_state \<Rightarrow> gxp_kci_state" where
  "gxp_kci_inc_resp_queue_head inc s =
     upd_mbx (\<lambda>m. snd (gxp_mailbox_inc_resp_queue_head_nolock m inc KCI_CIRCULAR_QUEUE_WRAP_BIT)) s"

definition gxp_kci_trigger_doorbell :: "kci_doorbell_reason \<Rightarrow> gxp_kci_state \<Rightarrow> gxp_kci_state" where
  "gxp_kci_trigger_doorbell reason s = upd_mbx (\<lambda>m. gxp_mailbox_generate_device_interrupt m 1) s"

definition gxp_kci_is_block_off :: "gxp_kci_state \<Rightarrow> bool" where
  "gxp_kci_is_block_off s = gx_blk_down (mbx s)"

definition gxp_kci_ops ::
  "(gxp_kci_state \<Rightarrow> gxp_kci_state) \<Rightarrow> (kci_response_element \<Rightarrow> gxp_kci_state \<Rightarrow> gxp_kci_state) \<Rightarrow>
     (gxp_kci_state \<Rightarrow> int \<times> gxp_kci_state) \<Rightarrow> gxp_kci_state gcip_kci_ops" where
  "gxp_kci_ops dev rkci usage = \<lparr>
     ko_get_cmd_queue_head = Some gxp_kci_get_cmd_queue_head,
     ko_get_cmd_queue_tail = Some gxp_kci_get_cmd_queue_tail,
     ko_inc_cmd_queue_tail = Some gxp_kci_inc_cmd_queue_tail,
     ko_get_resp_queue_size = Some gxp_kci_get_resp_queue_size,
     ko_get_resp_queue_head = Some gxp_kci_get_resp_queue_head,
     ko_get_resp_queue_tail = Some (gxp_kci_get_resp_queue_tail dev),
     ko_inc_resp_queue_head = Some gxp_kci_inc_resp_queue_head,
     ko_trigger_doorbell = Some gxp_kci_trigger_doorbell,
     ko_reverse_kci_handle_response = Some rkci,
     ko_update_usage = Some usage,
     ko_is_block_off = Some gxp_kci_is_block_off,
     ko_on_error = None\<rparr>"

definition gxp_kci_table ::
  "gxp_kci_state kernel \<Rightarrow> (gxp_kci_state \<Rightarrow> gxp_kci_state) \<Rightarrow>
     (kci_response_element \<Rightarrow> gxp_kci_state \<Rightarrow> gxp_kci_state) \<Rightarrow>
     (gxp_kci_state \<Rightarrow> int \<times> gxp_kci_state) \<Rightarrow>
     (kci_command_element, kci_response_element, unit, gxp_mailbox gcip_kci) mbox_ops" where
  "gxp_kci_table K dev rkci usage = gcip_kci_mailbox_ops K (gxp_kci_ops dev rkci usage)"

lemma gxp_kci_table_simps [simp]:
  "op_get_tx_queue_tail (gxp_kci_table K dev rkci usage) = Some gxp_kci_get_cmd_queue_tail"
  "op_inc_tx_queue_tail (gxp_kci_table K dev rkci usage) = Some gxp_kci_inc_cmd_queue_tail"
  "op_acquire_tx_queue_lock (gxp_kci_table K dev rkci usage) = Some gcip_kci_acquire_cmd_queue_lock"
  "op_release_tx_queue_lock (gxp_kci_table K dev rkci usage) = Some gcip_kci_release_cmd_queue_lock"
  "op_get_cmd_elem_seq (gxp_kci_table K dev rkci usage) = Some kc_seq"
  "op_set_cmd_elem_seq (gxp_kci_table K dev rkci usage) = Some (\<lambda>c q. c\<lparr>kc_seq := q\<rparr>)"
  "op_get_rx_queue_size (gxp_kci_table K dev rkci usage) = Some gxp_kci_get_resp_queue_size"
  "op_get_rx_queue_head (gxp_kci_table K dev rkci usage) = Some gxp_kci_get_resp_queue_head"
  "op_get_rx_queue_tail (gxp_kci_table K dev rkci usage) = Some (gxp_kci_get_resp_queue_tail dev)"
  "op_inc_rx_queue_head (gxp_kci_table K dev rkci usage) = Some gxp_kci_inc_resp_queue_head"
  "op_acquire_rx_queue_lock (gxp_kci_table K dev rkci usage) = Some gcip_kci_acquire_resp_queue_lock"
  "op_release_rx_queue_lock (gxp_kci_table K dev rkci usage) = Some gcip_kci_release_resp_queue_lock"
  "op_get_resp_elem_seq (gxp_kci_table K dev rkci usage) = Some kr_seq"
  "op_set_resp_elem_seq (gxp_kci_table K dev rkci usage) = Some (\<lambda>r q. r\<lparr>kr_seq := q\<rparr>)"
  "op_wait_for_tx_queue_not_full (gxp_kci_table K dev rkci usage) =
    Some (gcip_kci_wait_for_cmd_queue_not_full K (gxp_kci_ops dev rkci usage))"
  "op_before_enqueue_wait_list (gxp_kci_table K dev rkci usage) = None"
  "op_after_enqueue_cmd (gxp_kci_table K dev rkci usage) =
    Some (\<lambda>cmd s. (0, gxp_kci_trigger_doorbell GCIP_KCI_PUSH_CMD s))"
  "op_after_fetch_resps (gxp_kci_table K dev rkci usage) =
    Some (gcip_kci_after_fetch_resps (gxp_kci_ops dev rkci usage))"
  "op_is_block_off (gxp_kci_table K dev rkci usage) = Some gxp_kci_is_block_off"
  "op_on_error (gxp_kci_table K dev rkci usage) = Some (\<lambda>e s. s)"
  "op_release_awaiter_data (gxp_kci_table K dev rkci usage) = None"
  "op_does_response_match_waiter (gxp_kci_table K dev rkci usage) = None"
  "op_is_rx_elem_reversed (gxp_kci_table K dev rkci usage) = Some gcip_kci_is_rx_elem_reversed"
  "op_handle_reversed_command (gxp_kci_table K dev rkci usage) = Some gcip_kci_handle_reversed_command"
  by (simp_all add: gxp_kci_table_def gcip_kci_mailbox_ops_def no_ops_def gxp_kci_ops_def fun_eq_iff
      gcip_kci_get_cmd_queue_tail_def gcip_kci_inc_cmd_queue_tail_def gcip_kci_get_resp_queue_size_def
      gcip_kci_get_resp_queue_head_def gcip_kci_get_resp_queue_tail_def gcip_kci_inc_resp_queue_head_def
      gcip_kci_get_cmd_elem_seq_def gcip_kci_set_cmd_elem_seq_def gcip_kci_get_resp_elem_seq_def
      gcip_kci_set_resp_elem_seq_def gcip_kci_after_enqueue_cmd_def gcip_kci_is_block_off_def
      gcip_kci_on_error_def)

section \<open>Invariants\<close>

definition kci_rx_tail :: "gxp_kci_state \<Rightarrow> u32" where
  "kci_rx_tail s = ucast (gxp_mailbox_read_resp_queue_tail (mbx s))"

definition kci_rx_inv :: "gxp_kci_state \<Rightarrow> bool" where
  "kci_rx_inv s \<longleftrightarrow> mb_queue_wrap_bit s = 2 ^ 15 \<and>
     circ_ok (gx_resp_queue_size (mbx s), 2 ^ 15) (gx_resp_queue_head (mbx s)) (kci_rx_tail s)"

definition kci_tx_size :: "gxp_kci_state \<Rightarrow> u32" where
  "kci_tx_size s = gx_cmd_queue_size (mbx s)"

definition kci_tx_inv :: "gxp_kci_state \<Rightarrow> bool" where
  "kci_tx_inv s \<longleftrightarrow> mb_queue_wrap_bit s = 2 ^ 15 \<and>
     circ_ok (gx_cmd_queue_size (mbx s), 2 ^ 15) (gxp_kci_get_cmd_queue_head s) (gx_cmd_queue_tail (mbx s))"

definition kci_tx_contents :: "gxp_kci_state \<Rightarrow> kci_command_element list" where
  "kci_tx_contents s = circ_contents (mb_tx_queue s) (gx_cmd_queue_size (mbx s)) (2 ^ 15)
     (gxp_kci_get_cmd_queue_head s) (gx_cmd_queue_tail (mbx s))"

definition kci_rx_contents :: "gxp_kci_state \<Rightarrow> kci_response_element list" where
  "kci_rx_contents s = circ_contents (mb_rx_queue s) (gx_resp_queue_size (mbx s)) (2 ^ 15)
     (gx_resp_queue_head (mbx s)) (kci_rx_tail s)"

abbreviation kci_locked :: "gxp_kci_state \<Rightarrow> bool" where
  "kci_locked s \<equiv> kci_cmd_queue_lock (mb_world s)"

text \<open>What is relied on in the firmware: it appends to the response queue.\<close>

definition kci_device_appends :: "(gxp_kci_state \<Rightarrow> gxp_kci_state) \<Rightarrow> bool" where
  "kci_device_appends dev \<longleftrightarrow> (\<forall>s. kci_rx_inv s \<longrightarrow> kci_rx_inv (dev s) \<and>
     gx_resp_queue_size (mbx (dev s)) = gx_resp_queue_size (mbx s) \<and>
     gx_resp_queue_head (mbx (dev s)) = gx_resp_queue_head (mbx s) \<and>
     (\<exists>new. kci_rx_contents (dev s) = kci_rx_contents s @ new))"

text \<open>
  What is relied on in waiting for an event. It ends with the condition true or times out. Other
  tasks keep the wait list in order and do not redirect the buffers of waiters; while this task
  holds the command queue lock nobody adds a waiter or a command, and the firmware only consumes
  commands.
\<close>

definition kci_waits_ok ::
  "gxp_kci_state kernel \<Rightarrow>
     (kci_command_element, kci_response_element, unit, gxp_mailbox gcip_kci) mbox_ops \<Rightarrow> bool" where
  "kci_waits_ok K T \<longleftrightarrow> (\<forall>cond n s left s'. k_wait_event_timeout K cond n s = (left, s') \<longrightarrow>
     (left \<noteq> 0 \<longrightarrow> cond s') \<and>
     (wl_inv T s \<longrightarrow> wl_inv T s' \<and>
        (\<forall>e \<in> set (mb_wait_list s). ar_resp (mb_async_resps s' (wl_async_resp e)) =
           ar_resp (mb_async_resps s (wl_async_resp e))) \<and>
        (kci_locked s \<longrightarrow> wl_shrinks T s s')) \<and>
     (kci_tx_inv s \<longrightarrow> kci_locked s \<longrightarrow> kci_tx_inv s' \<and>
        gx_cmd_queue_tail (mbx s') = gx_cmd_queue_tail (mbx s) \<and>
        gx_cmd_queue_size (mbx s') = gx_cmd_queue_size (mbx s) \<and>
        (\<exists>m. kci_tx_contents s' = drop m (kci_tx_contents s))))"

section \<open>The interfaces hold\<close>

lemma core_upd [simp]: "mb_core (upd_kci f s) = mb_core s" "mb_core (upd_mbx g s) = mb_core s"
  by (simp_all add: upd_mbx_def upd_kci_def mb_core_def)

lemma gxp_kci_sync:
  assumes K: "kernel_ok K" and W: "kci_waits_ok K (gxp_kci_table K dev rkci usage)"
  shows "mailbox_sync K (gxp_kci_table K dev rkci usage) kci_locked"
proof (unfold_locales, goal_cases)
  case (1 tr at s r at' s')
  then have "s' = upd_kci (\<lambda>k. k\<lparr>kci_cmd_queue_lock := True\<rparr>) s"
    by (simp add: gcip_kci_acquire_cmd_queue_lock_def)
  moreover have "kci_locked (upd_kci (\<lambda>k. k\<lparr>kci_cmd_queue_lock := True\<rparr>) s)"
    by (simp add: upd_kci_def)
  ultimately show ?case by simp
next
  case (2 s)
  then show ?case by (simp add: gcip_kci_release_cmd_queue_lock_def)
next
  case (3 s r s')
  obtain l s1 where w: "k_wait_event_timeout K (\<lambda>t. ucast (the (ko_get_cmd_queue_head
      (gxp_kci_ops dev rkci usage)) t) \<noteq> (ucast (the (ko_get_cmd_queue_tail
      (gxp_kci_ops dev rkci usage)) s) XOR mb_queue_wrap_bit s)) (mb_timeout s) s = (l, s1)"
    by (rule prod.exhaust)
  have "s' = s1"
    using 3(3) by (auto simp: gcip_kci_wait_for_cmd_queue_not_full_def Let_def w split: if_splits)
  then show ?case using W w 3(1,2) unfolding kci_waits_ok_def by blast
next
  case (4 n s)
  then show ?case by (simp add: gxp_kci_inc_cmd_queue_tail_def)
next
  case (6 g c s r s')
  then show ?case by (auto simp: gxp_kci_trigger_doorbell_def)
next
  case (9 at s p s')
  then show ?case using kernel_okD(1) [OF K 9] by simp
next
  case (12 s cond n l s')
  then show ?case using W unfolding kci_waits_ok_def by blast
qed auto

lemma wrap15: "(ucast ((2 :: u64) ^ 15) :: u32) = 2 ^ 15"
  by (rule ucast32_exp) simp

lemma kci_rx_geom:
  "kci_rx_inv s \<Longrightarrow> rx_geom (gxp_kci_table K dev rkci usage) s = (gx_resp_queue_size (mbx s), 2 ^ 15)"
  "rx_head (gxp_kci_table K dev rkci usage) s = gx_resp_queue_head (mbx s)"
  "kci_rx_inv s \<Longrightarrow>
    rx_contents (gxp_kci_table K dev rkci usage) kci_rx_tail s = kci_rx_contents s"
  unfolding rx_geom_def rx_contents_def rx_head_def kci_rx_contents_def kci_rx_inv_def
  by (auto simp: gxp_kci_get_resp_queue_size_def gxp_kci_get_resp_queue_head_def)

lemma kci_upd_simps [simp]:
  "mb_world (upd_mbx f s) = (mb_world s)\<lparr>kci_data := f (mbx s)\<rparr>"
  "mb_queue_wrap_bit (upd_mbx f s) = mb_queue_wrap_bit s"
  "mb_rx_queue (upd_mbx f s) = mb_rx_queue s" "mb_tx_queue (upd_mbx f s) = mb_tx_queue s"
  "mb_world (upd_kci h s) = h (mb_world s)" "mb_queue_wrap_bit (upd_kci h s) = mb_queue_wrap_bit s"
  "mb_rx_queue (upd_kci h s) = mb_rx_queue s" "mb_tx_queue (upd_kci h s) = mb_tx_queue s"
  by (simp_all add: upd_mbx_def upd_kci_def)

lemma kci_rx_same:
  assumes "kci_rx_inv s" and "mb_queue_wrap_bit s' = mb_queue_wrap_bit s"
    and "gx_resp_queue_size (mbx s') = gx_resp_queue_size (mbx s)"
    and "gx_resp_queue_head (mbx s') = gx_resp_queue_head (mbx s)"
    and "gxp_mailbox_read_resp_queue_tail (mbx s') = gxp_mailbox_read_resp_queue_tail (mbx s)"
    and "mb_rx_queue s' = mb_rx_queue s"
  shows "kci_rx_inv s' \<and> rx_same (gxp_kci_table K dev rkci usage) kci_rx_tail s s'"
proof -
  have "kci_rx_inv s'" using assms by (simp add: kci_rx_inv_def kci_rx_tail_def)
  with assms show ?thesis by (simp add: rx_same_def kci_rx_geom kci_rx_tail_def)
qed

lemma gxp_kci_rx:
  assumes D: "kci_device_appends dev" and K: "kernel_ok K"
  shows "mailbox_rx K (gxp_kci_table K dev rkci usage) kci_rx_inv kci_rx_tail"
proof (unfold_locales, goal_cases)
  case (1 s)
  then show ?case by (simp add: kci_rx_geom) (simp add: kci_rx_inv_def)
next
  case (2 s t s')
  then have s': "s' = dev s" "t = kci_rx_tail s'"
    by (auto simp: gxp_kci_get_resp_queue_tail_def Let_def kci_rx_tail_def)
  have d: "kci_rx_inv s'" "gx_resp_queue_size (mbx s') = gx_resp_queue_size (mbx s)"
    "gx_resp_queue_head (mbx s') = gx_resp_queue_head (mbx s)"
    "\<exists>new. kci_rx_contents s' = kci_rx_contents s @ new"
    using D 2(1) s'(1) unfolding kci_device_appends_def by auto
  then show ?case using s' 2(1) by (simp add: kci_rx_geom)
next
  case (3 s n s')
  let ?m = "mbx s"
  have ok: "circ_ok (gx_resp_queue_size ?m, 2 ^ 15) (gx_resp_queue_head ?m)
      (ucast (gxp_mailbox_read_resp_queue_tail ?m))"
    using 3(1) by (simp add: kci_rx_inv_def kci_rx_tail_def)
  have n: "unat n \<le> circ_cnt (gx_resp_queue_size ?m, 2 ^ 15) (gx_resp_queue_head ?m)
      (ucast (gxp_mailbox_read_resp_queue_tail ?m))"
    using 3(2) kci_rx_geom(1) [OF 3(1)] by (simp add: kci_rx_geom(2) kci_rx_tail_def)
  have s': "s' = upd_mbx (\<lambda>m. gxp_mailbox_set_resp_queue_head ?m
      (circ_inc (gx_resp_queue_size ?m, 2 ^ 15) (gx_resp_queue_head ?m) (unat n))) s"
    using 3(3) inc_resp_head [OF ok n]
    by (auto simp: gxp_kci_inc_resp_queue_head_def KCI_CIRCULAR_QUEUE_WRAP_BIT_def upd_mbx_def upd_kci_def)
  have inv: "kci_rx_inv s'"
    using 3(1) circ.ok_pop [OF ok n] by (simp add: s' kci_rx_inv_def kci_rx_tail_def)
  show ?case
    using 3(1) inv by (simp add: kci_rx_geom) (simp add: s' kci_rx_tail_def)
next
  case (4 s tr at r at' s')
  then show ?case
    by (intro kci_rx_same) (auto simp: gcip_kci_acquire_resp_queue_lock_def Let_def split: if_splits)
next
  case (5 s s')
  then show ?case by (intro kci_rx_same) (auto simp: gcip_kci_release_resp_queue_lock_def)
next
  case (6 s f n s')
  then show ?case
    by (intro kci_rx_same)
      (auto simp: gcip_kci_after_fetch_resps_def Let_def gxp_kci_ops_def gxp_kci_trigger_doorbell_def
        split: if_splits)
next
  case (7 s n at grown s')
  then show ?case using kernel_okD(2) [OF K 7(2)] by (simp add: rx_same_def)
qed

lemma kci_tx_geom:
  "kci_tx_inv s \<Longrightarrow> tx_geom kci_tx_size s = (gx_cmd_queue_size (mbx s), 2 ^ 15)"
  "tx_tail (gxp_kci_table K dev rkci usage) s = gx_cmd_queue_tail (mbx s)"
  "kci_tx_inv s \<Longrightarrow> tx_contents (gxp_kci_table K dev rkci usage) kci_tx_size
    gxp_kci_get_cmd_queue_head s = kci_tx_contents s"
  unfolding tx_geom_def tx_contents_def tx_tail_def kci_tx_contents_def kci_tx_inv_def
  by (auto simp: kci_tx_size_def gxp_kci_get_cmd_queue_tail_def)

lemma kci_tx_same:
  assumes "kci_tx_inv s" and "mb_queue_wrap_bit s' = mb_queue_wrap_bit s"
    and "gx_cmd_queue_size (mbx s') = gx_cmd_queue_size (mbx s)"
    and "gx_cmd_queue_tail (mbx s') = gx_cmd_queue_tail (mbx s)"
    and "gxp_mailbox_read_cmd_queue_head (mbx s') = gxp_mailbox_read_cmd_queue_head (mbx s)"
  shows "kci_tx_inv s' \<and> tx_regs (gxp_kci_table K dev rkci usage) kci_tx_size gxp_kci_get_cmd_queue_head
      s' = tx_regs (gxp_kci_table K dev rkci usage) kci_tx_size gxp_kci_get_cmd_queue_head s"
  using assms by (simp add: kci_tx_inv_def tx_regs_def kci_tx_size_def kci_tx_geom
      gxp_kci_get_cmd_queue_head_def)

lemma kci_not_full:
  assumes "kci_tx_inv s" and "ucast (gxp_kci_get_cmd_queue_head s) \<noteq>
      (ucast (gx_cmd_queue_tail (mbx s)) XOR mb_queue_wrap_bit s)"
  shows "circ_cnt (gx_cmd_queue_size (mbx s), 2 ^ 15) (gxp_kci_get_cmd_queue_head s)
    (gx_cmd_queue_tail (mbx s)) < unat (gx_cmd_queue_size (mbx s))"
proof -
  let ?h = "gxp_kci_get_cmd_queue_head s" and ?t = "gx_cmd_queue_tail (mbx s)"
  have ok: "circ_ok (gx_cmd_queue_size (mbx s), 2 ^ 15) ?h ?t" and w: "mb_queue_wrap_bit s = 2 ^ 15"
    using assms(1) by (simp_all add: kci_tx_inv_def)
  have "ucast ?h \<noteq> (ucast ?t XOR ucast ((2 :: u32) ^ 15) :: u64)"
    using assms(2) w ucast64_exp [of 15] by simp
  then have "?h \<noteq> ?t XOR 2 ^ 15" unfolding ucast64_xor ucast64_eq .
  then show ?thesis using circ_full_iff [OF ok] circ_okD(4) [OF ok] by linarith
qed

lemma kci_wait_tx:
  assumes W: "kci_waits_ok K (gxp_kci_table K dev rkci usage)" and inv: "kci_tx_inv s"
    and lock: "kci_locked s"
    and w: "gcip_kci_wait_for_cmd_queue_not_full K (gxp_kci_ops dev rkci usage) s = (r, s')"
  shows "kci_tx_inv s'" and "\<exists>m. kci_tx_contents s' = drop m (kci_tx_contents s)"
    and "r = 0 \<Longrightarrow> circ_cnt (gx_cmd_queue_size (mbx s'), 2 ^ 15) (gxp_kci_get_cmd_queue_head s')
      (gx_cmd_queue_tail (mbx s')) < unat (gx_cmd_queue_size (mbx s'))"
proof -
  let ?cond = "\<lambda>t. (ucast (gxp_kci_get_cmd_queue_head t) :: u64) \<noteq>
    (ucast (gx_cmd_queue_tail (mbx s)) XOR mb_queue_wrap_bit s)"
  obtain l s1 where k: "k_wait_event_timeout K ?cond (mb_timeout s) s = (l, s1)"
    by (rule prod.exhaust)
  have s': "s' = s1" "r = 0 \<Longrightarrow> l \<noteq> 0"
    using w k by (auto simp: gcip_kci_wait_for_cmd_queue_not_full_def Let_def gxp_kci_ops_def
        gxp_kci_get_cmd_queue_tail_def split: if_splits)
  have c: "l \<noteq> 0 \<longrightarrow> ?cond s1" "kci_tx_inv s1" "gx_cmd_queue_tail (mbx s1) = gx_cmd_queue_tail (mbx s)"
    "\<exists>m. kci_tx_contents s1 = drop m (kci_tx_contents s)"
    using W k inv lock unfolding kci_waits_ok_def by blast+
  show "kci_tx_inv s'" and "\<exists>m. kci_tx_contents s' = drop m (kci_tx_contents s)" using c s' by simp_all
  show "circ_cnt (gx_cmd_queue_size (mbx s'), 2 ^ 15) (gxp_kci_get_cmd_queue_head s')
      (gx_cmd_queue_tail (mbx s')) < unat (gx_cmd_queue_size (mbx s'))" if "r = 0"
  proof (rule kci_not_full)
    show "kci_tx_inv s'" using c(2) s' by simp
    have "mb_queue_wrap_bit s1 = mb_queue_wrap_bit s" using inv c(2) by (simp add: kci_tx_inv_def)
    then show "ucast (gxp_kci_get_cmd_queue_head s') \<noteq>
        (ucast (gx_cmd_queue_tail (mbx s')) XOR mb_queue_wrap_bit s')"
      using c(1,3) s' that by simp
  qed
qed

lemma gxp_kci_tx:
  assumes K: "kernel_ok K" and W: "kci_waits_ok K (gxp_kci_table K dev rkci usage)"
  shows "mailbox_tx K (gxp_kci_table K dev rkci usage) kci_tx_inv kci_tx_size
    gxp_kci_get_cmd_queue_head kci_locked"
proof (unfold_locales, goal_cases)
  case (1 s)
  have "wide_wrap s"
    unfolding wide_wrap_def using 1 by (intro exI [of _ 15]) (simp add: kci_tx_inv_def)
  with 1 show ?case by (simp add: kci_tx_geom) (simp add: kci_tx_inv_def)
next
  case (2 s s')
  then show ?case by (intro kci_tx_same) simp_all
next
  case (3 s r s')
  note w = kci_wait_tx [OF W 3(1,2), of r s']
  have w0: "gcip_kci_wait_for_cmd_queue_not_full K (gxp_kci_ops dev rkci usage) s = (r, s')"
    using 3(3) by simp
  show ?case
    using w [OF w0] 3(1) by (simp add: kci_tx_geom) (simp add: kci_tx_size_def)
next
  case (4 s s')
  let ?m = "mbx s"
  have ok: "circ_ok (gx_cmd_queue_size ?m, 2 ^ 15) (ucast (gxp_mailbox_read_cmd_queue_head ?m))
      (gx_cmd_queue_tail ?m)"
    using 4(1) by (simp add: kci_tx_inv_def gxp_kci_get_cmd_queue_head_def)
  have n: "circ_cnt (gx_cmd_queue_size ?m, 2 ^ 15) (ucast (gxp_mailbox_read_cmd_queue_head ?m))
      (gx_cmd_queue_tail ?m) < unat (gx_cmd_queue_size ?m)"
    using 4(2) kci_tx_geom(1) [OF 4(1)]
    by (simp add: kci_tx_geom(2) kci_tx_size_def gxp_kci_get_cmd_queue_head_def)
  have s': "s' = upd_mbx (\<lambda>m. gxp_mailbox_set_cmd_queue_tail ?m
      (circ_inc (gx_cmd_queue_size ?m, 2 ^ 15) (gx_cmd_queue_tail ?m) 1)) s"
    using 4(3) inc_cmd_tail [OF ok n]
    by (auto simp: gxp_kci_inc_cmd_queue_tail_def KCI_CIRCULAR_QUEUE_WRAP_BIT_def upd_mbx_def upd_kci_def)
  have inv: "kci_tx_inv s'"
    using 4(1) circ.ok_push [OF ok, of 1] n
    by (simp add: s' kci_tx_inv_def gxp_kci_get_cmd_queue_head_def)
  then show ?case
    using 4(1) by (simp add: tx_regs_def kci_tx_geom)
      (simp add: s' kci_tx_size_def gxp_kci_get_cmd_queue_head_def)
next
  case (5 s tr at r at' s')
  then have s': "s' = upd_kci (\<lambda>k. k\<lparr>kci_cmd_queue_lock := True\<rparr>) s"
    by (simp add: gcip_kci_acquire_cmd_queue_lock_def)
  then show ?case using kci_tx_same [OF 5(1), of s'] by simp
next
  case (6 s s')
  then have s': "s' = upd_kci (\<lambda>k. k\<lparr>kci_cmd_queue_lock := False\<rparr>) s"
    by (simp add: gcip_kci_release_cmd_queue_lock_def)
  then show ?case using kci_tx_same [OF 6(1), of s'] by simp
next
  case (7 s f b aw r s')
  then show ?case by simp
next
  case (8 s g c r s')
  then have s': "r = 0" "s' = upd_mbx (\<lambda>m. gxp_mailbox_generate_device_interrupt m 1) s"
    by (auto simp: gxp_kci_trigger_doorbell_def)
  then show ?case using kci_tx_same [OF 8(1), of s'] by simp
next
  case (9 s at p s')
  then show ?case using kernel_okD(1) [OF K 9(2)] by simp
qed

section \<open>The interfaces on an idle kernel\<close>

lemma idle_kci_waits: "kci_waits_ok idle_kernel T"
  by (auto simp: kci_waits_ok_def idle_kernel_def wl_shrinks_def intro: exI [of _ 0])

lemma idle_kci_device: "kci_device_appends id"
  by (simp add: kci_device_appends_def)

interpretation kci_sync: mailbox_sync idle_kernel "gxp_kci_table idle_kernel dev rkci usage" kci_locked
  for dev rkci usage
  by (rule gxp_kci_sync [OF idle_kernel_ok idle_kci_waits])

interpretation kci_rx: mailbox_rx idle_kernel "gxp_kci_table idle_kernel id rkci usage" kci_rx_inv
  kci_rx_tail for rkci usage
  by (rule gxp_kci_rx [OF idle_kci_device idle_kernel_ok])

interpretation kci_tx: mailbox_tx idle_kernel "gxp_kci_table idle_kernel dev rkci usage" kci_tx_inv
  kci_tx_size gxp_kci_get_cmd_queue_head kci_locked for dev rkci usage
  by (rule gxp_kci_tx [OF idle_kernel_ok idle_kci_waits])

section \<open>Properties\<close>

lemma mode_all_assigns: "mb_mode s = GCIP_MAILBOX_MODE_ALL \<Longrightarrow> assigns_seq 0 s"
  by (simp add: assigns_seq_def should_maintain_seq_num_def mode_defs)

text \<open>C1: a control command sent synchronously. However the call ends (answered, timed out, queue full,
  out of memory), the wait list has no entry for the \<open>async_resp\<close> on the caller's stack when it
  returns, so that a late response cannot be written to a dead frame; the list stays in order; and
  when the mailbox reports success the response has arrived and its code is returned.\<close>

theorem kci_send_cmd_safe:
  assumes "kernel_ok K" and "kci_waits_ok K (gxp_kci_table K dev rkci usage)"
    and "wl_inv (gxp_kci_table K dev rkci usage) s" and "fresh_resp ar b s"
    and "mb_mode s = GCIP_MAILBOX_MODE_ALL" and "mb_cur_seq s + 1 \<noteq> 0"
    and "kc_seq cmd AND GCIP_KCI_REVERSE_FLAG = 0"
    and "gcip_kci_send_cmd K (gxp_kci_ops dev rkci usage) ar b cmd s = (r, s')"
  shows "wl_inv (gxp_kci_table K dev rkci usage) s' \<and>
    (\<forall>u \<in> set (mb_wait_list s'). wl_async_resp u \<noteq> ar) \<and>
    (\<exists>ret. gcip_mailbox_send_cmd K (gxp_kci_table K dev rkci usage) ar cmd (Some b) 0 s = (ret, s') \<and>
      (if ret = 0 then ar_status (mb_async_resps s' ar) = GCIP_MAILBOX_STATUS_OK \<and>
         r = uint (kr_code (mb_resp_bufs s' b))
       else r = ret))"
proof -
  obtain ret s1 where m: "gcip_mailbox_send_cmd K (gxp_kci_table K dev rkci usage) ar cmd (Some b) 0 s
    = (ret, s1)" by (rule prod.exhaust)
  have r: "s1 = s'" "r = (if ret = 0 then uint (kr_code (mb_resp_bufs s1 b)) else ret)"
    using assms(7,8) m
    by (auto simp: gcip_kci_send_cmd_def gcip_kci_send_cmd_return_resp_def Let_def
        gxp_kci_table_def [symmetric] split: if_splits)
  from mailbox_sync.send_cmd_no_dangling [OF gxp_kci_sync [OF assms(1,2)] m assms(3,4)
      mode_all_assigns [OF assms(5)] assms(6)] m r
  show ?thesis by auto
qed

text \<open>C8: the control mailbox transmits in order: a command that is sent is appended to the command
  queue behind everything the firmware has not consumed, and a command that is refused leaves the
  queue as it is.\<close>

theorem kci_enqueue_cmd_fifo:
  assumes "kernel_ok K" and "kci_waits_ok K (gxp_kci_table K dev rkci usage)" and "kci_tx_inv s"
    and "gcip_mailbox_enqueue_cmd K (gxp_kci_table K dev rkci usage) cmd ar aw flags s = (r, cmd', s')"
  shows "kci_tx_inv s' \<and>
    (\<exists>n. kci_tx_contents s' = drop n (kci_tx_contents s) @ (if r = 0 then [cmd'] else []))"
  using mailbox_tx.enqueue_cmd_consumed [OF gxp_kci_tx [OF assms(1,2)] assms(3,4)]
    kci_tx_geom(3) [OF assms(3)] kci_tx_geom(3) [of s'] by auto

text \<open>C9: the control mailbox receives in order: fetching ends, and what it returns followed by what
  stays in the response queue is what was there followed by what the firmware appended meanwhile.\<close>

theorem kci_fetch_responses_fifo:
  assumes "kci_device_appends dev" and "kernel_ok K" and "kci_rx_inv s"
    and "\<not> gx_blk_down (kci_data (mb_world s))"
    and "trylock \<longrightarrow> \<not> kci_resp_queue_lock (mb_world s)"
  shows "\<exists>ret tot s' new.
    gcip_mailbox_fetch_responses K (gxp_kci_table K dev rkci usage) trylock s = Some (ret, tot, s') \<and>
    kci_rx_inv s' \<and> unat tot = length (fetched_list ret) \<and>
    fetched_list ret @ kci_rx_contents s' = kci_rx_contents s @ new \<and>
    ((\<forall>n at s. fst (k_krealloc K n at s)) \<longrightarrow> kci_rx_contents s' = [])"
proof -
  let ?T = "gxp_kci_table K dev rkci usage"
  have "\<exists>ret tot s' new. gcip_mailbox_fetch_responses K ?T trylock s = Some (ret, tot, s') \<and>
    kci_rx_inv s' \<and> unat tot = length (fetched_list ret) \<and>
    fetched_list ret @ rx_contents ?T kci_rx_tail s' = rx_contents ?T kci_rx_tail s @ new \<and>
    ((\<forall>n at s. fst (k_krealloc K n at s)) \<longrightarrow> rx_contents ?T kci_rx_tail s' = [])"
  proof (rule mailbox_rx.fetch_responses_fifo [OF gxp_kci_rx [OF assms(1,2)] assms(3)])
    show "\<not> IS_BLOCK_OFF ?T s" using assms(4) by (simp add: IS_BLOCK_OFF_def gxp_kci_is_block_off_def)
    show "the (op_acquire_rx_queue_lock ?T) trylock False s =
        (1, True, upd_kci (\<lambda>k. k\<lparr>kci_resp_queue_lock := True\<rparr>) s)"
      using assms(5) by (simp add: gcip_kci_acquire_resp_queue_lock_def)
  qed simp
  then show ?thesis by (metis assms(3) kci_rx_geom(3))
qed

text \<open>C10: a received element with the reverse flag in its sequence number goes to the buffer of reverse
  requests and leaves all waiters alone; one without the flag never reaches that buffer.\<close>

theorem kci_rx_dispatch:
  assumes "\<forall>e \<in> set (mb_wait_list s). wl_awaiter e = None"
  shows "if kr_seq elem AND GCIP_KCI_REVERSE_FLAG \<noteq> 0
    then gcip_mailbox_handle_rx_elem (gxp_kci_table K dev rkci usage) elem s =
        snd (gcip_reverse_kci_add_resp elem s) \<and>
      mb_core (gcip_mailbox_handle_rx_elem (gxp_kci_table K dev rkci usage) elem s) = mb_core s
    else mb_world (gcip_mailbox_handle_rx_elem (gxp_kci_table K dev rkci usage) elem s) = mb_world s"
proof -
  let ?T = "gxp_kci_table K dev rkci usage"
  have add: "mb_core (snd (gcip_reverse_kci_add_resp elem s)) = mb_core s"
    by (simp add: gcip_reverse_kci_add_resp_def Let_def split: option.split)
  have "fst (handle_response_locked ?T elem s) = None"
    using assms by (auto simp: handle_response_locked_def Let_def split: option.splits
        elim!: take_first_SomeE)
  then have "mb_world (gcip_mailbox_handle_response ?T elem s) = mb_world s"
    by (auto simp: gcip_mailbox_handle_response_def case_prod_beta)
      (auto simp: handle_response_locked_def Let_def split: option.splits)
  with add show ?thesis
    by (simp add: gcip_mailbox_handle_rx_elem_def gcip_kci_is_rx_elem_reversed_def
        gcip_kci_handle_reversed_command_def)
qed

text \<open>A control mailbox after set-up: queues of 1024 elements, both empty.\<close>

definition no_resp :: kci_response_element where
  "no_resp = \<lparr>kr_seq = 0, kr_code = 0, kr_rkci_value1 = 0, kr_retval = 0\<rparr>"

definition no_cmd :: kci_command_element where
  "no_cmd = \<lparr>kc_seq = 0, kc_code = 7, kc_dma_address = 0, kc_dma_size = 0, kc_dma_flags = 0\<rparr>"

definition kci_example :: gxp_kci_state where
  "kci_example = \<lparr>mb_mode = GCIP_MAILBOX_MODE_ALL, mb_queue_wrap_bit = 2 ^ 15, mb_cur_seq = 0,
     mb_tx_queue = (\<lambda>_. no_cmd), mb_rx_queue = (\<lambda>_. no_resp), mb_wait_list = [], mb_timeout = 5000,
     mb_ops = True, mb_async_resps = (\<lambda>_. \<lparr>ar_status = 0, ar_resp = None\<rparr>),
     mb_resp_bufs = (\<lambda>_. no_resp), mb_awaiters = (\<lambda>_. None), mb_fault = False,
     mb_world = \<lparr>kci_cmd_queue_lock = False, kci_resp_queue_lock = False, kci_work = False,
       kci_rkci = \<lparr>rk_head = 2, rk_tail = 0, rk_buffer_size = 8,
         rk_buffer = Some ((\<lambda>_. no_resp)(1 := no_resp\<lparr>kr_code := 4\<rparr>)), rk_work = True\<rparr>,
       kci_usage_work = False, kci_ops = True,
       kci_data = gxp_example\<lparr>gx_data_regs := (\<lambda>_. 0), gx_cmd_queue_size := 1024,
         gx_cmd_queue_tail := 0, gx_resp_queue_size := 1024, gx_resp_queue_head := 0\<rparr>\<rparr>\<rparr>"

lemma kci_example_inv:
  "kci_rx_inv kci_example" "kci_tx_inv kci_example" "wl_inv T kci_example" "fresh_resp ar b kci_example"
proof -
  have "\<exists>k < 32. (2 ^ 15 :: u32) = 2 ^ k" by (rule exI [of _ 15]) simp
  then have "circ_ok (1024, 2 ^ 15) 0 0"
    by (simp add: circ_ok_def circ_valid_def circ_geometry_def gcip_valid_circ_queue_size_def
        circ_pos_def ring_dist_def circ_defs)
  then show "kci_rx_inv kci_example" "kci_tx_inv kci_example"
    by (simp_all add: kci_rx_inv_def kci_tx_inv_def kci_example_def kci_rx_tail_def
        gxp_kci_get_cmd_queue_head_def read_defs Let_def data_read_def)
  show "wl_inv T kci_example" "fresh_resp ar b kci_example"
    by (simp_all add: kci_example_def wl_inv_def view_ok_def fresh_resp_def)
qed

lemma kci_example_rk: "rk_inv kci_example" "length (rk_contents kci_example) = 2"
proof -
  have "rk_ok 3 0 2" by (simp add: rk_ok_def)
  then show "rk_inv kci_example" by (auto simp: rk_inv_def kci_example_def intro!: exI [of _ 3])
  show "length (rk_contents kci_example) = 2"
    by (simp add: rk_contents_def kci_example_def CIRC_CNT_def Let_def)
qed

theorem kci_send_cmd_safe_witness:
  "\<exists>r s'. gcip_kci_send_cmd idle_kernel (gxp_kci_ops id (\<lambda>r s. s) (\<lambda>s. (0, s))) 1 2 no_cmd kci_example
      = (r, s') \<and> (\<forall>u \<in> set (mb_wait_list s'). wl_async_resp u \<noteq> 1)"
proof -
  obtain r s' where e: "gcip_kci_send_cmd idle_kernel (gxp_kci_ops id (\<lambda>r s. s) (\<lambda>s. (0, s))) 1 2 no_cmd
    kci_example = (r, s')" by (rule prod.exhaust)
  have "mb_mode kci_example = GCIP_MAILBOX_MODE_ALL" "mb_cur_seq kci_example + 1 \<noteq> 0"
    "kc_seq no_cmd AND GCIP_KCI_REVERSE_FLAG = 0"
    by (simp_all add: kci_example_def no_cmd_def)
  from kci_send_cmd_safe [OF idle_kernel_ok idle_kci_waits kci_example_inv(3,4) this e] e
  show ?thesis by blast
qed

theorem kci_enqueue_cmd_fifo_witness:
  "\<exists>r cmd' s' n. gcip_mailbox_enqueue_cmd idle_kernel (gxp_kci_table idle_kernel id (\<lambda>r s. s)
      (\<lambda>s. (0, s))) no_cmd 1 None 0 kci_example = (r, cmd', s') \<and>
    kci_tx_contents s' = drop n (kci_tx_contents kci_example) @ (if r = 0 then [cmd'] else [])"
proof -
  obtain r cmd' s' where e: "gcip_mailbox_enqueue_cmd idle_kernel (gxp_kci_table idle_kernel id
    (\<lambda>r s. s) (\<lambda>s. (0, s))) no_cmd 1 None 0 kci_example = (r, cmd', s')" by (rule prod_cases3)
  from kci_enqueue_cmd_fifo [OF idle_kernel_ok idle_kci_waits kci_example_inv(2) e] e
  show ?thesis by blast
qed

theorem kci_fetch_responses_fifo_witness:
  "\<exists>ret tot s' new. gcip_mailbox_fetch_responses idle_kernel (gxp_kci_table idle_kernel id (\<lambda>r s. s)
      (\<lambda>s. (0, s))) True kci_example = Some (ret, tot, s') \<and>
    fetched_list ret @ kci_rx_contents s' = kci_rx_contents kci_example @ new"
proof -
  have "\<not> gx_blk_down (kci_data (mb_world kci_example))"
    "True \<longrightarrow> \<not> kci_resp_queue_lock (mb_world kci_example)"
    by (simp_all add: kci_example_def gxp_example_def)
  from kci_fetch_responses_fifo [OF idle_kci_device idle_kernel_ok kci_example_inv(1) this]
  show ?thesis by blast
qed

theorem kci_rx_dispatch_witness:
  "gcip_mailbox_handle_rx_elem (gxp_kci_table idle_kernel id (\<lambda>r s. s) (\<lambda>s. (0, s)))
      (no_resp\<lparr>kr_seq := GCIP_KCI_REVERSE_FLAG\<rparr>) kci_example =
    snd (gcip_reverse_kci_add_resp (no_resp\<lparr>kr_seq := GCIP_KCI_REVERSE_FLAG\<rparr>) kci_example)"
proof -
  have "\<forall>e \<in> set (mb_wait_list kci_example). wl_awaiter e = None" by (simp add: kci_example_def)
  from kci_rx_dispatch [OF this, of "no_resp\<lparr>kr_seq := GCIP_KCI_REVERSE_FLAG\<rparr>" idle_kernel id
      "\<lambda>r s. s" "\<lambda>s. (0, s)"]
  show ?thesis by (simp add: GCIP_KCI_REVERSE_FLAG_def)
qed

theorem reverse_kci_bounded_fifo_witness:
  "\<exists>s'. gcip_reverse_kci_add_resp no_resp kci_example = (0, s') \<and>
    rk_contents s' = rk_contents kci_example @ [no_resp]"
proof -
  have "length (rk_contents kci_example) + 1 < unat (rk_buffer_size (kci_rkci (mb_world kci_example)))"
    using kci_example_rk(2) by (simp add: kci_example_def)
  with reverse_kci_bounded_fifo [OF kci_example_rk(1), of no_resp] show ?thesis by blast
qed


definition kci_ops_complete :: "'s gcip_kci_ops \<Rightarrow> bool" where
  "kci_ops_complete ops \<longleftrightarrow> ko_get_cmd_queue_head ops \<noteq> None \<and> ko_get_cmd_queue_tail ops \<noteq> None \<and>
     ko_inc_cmd_queue_tail ops \<noteq> None \<and> ko_get_resp_queue_size ops \<noteq> None \<and>
     ko_get_resp_queue_head ops \<noteq> None \<and> ko_get_resp_queue_tail ops \<noteq> None \<and>
     ko_inc_resp_queue_head ops \<noteq> None \<and> ko_trigger_doorbell ops \<noteq> None"

lemma kci_ops_verify:
  "gcip_mailbox_ops_verify (Some (gcip_kci_mailbox_ops K ops)) GCIP_MAILBOX_MODE_ALL = 0"
  by (simp add: gcip_mailbox_ops_verify_def gcip_kci_mailbox_ops_def)

lemma kci_set_ops:
  "gcip_kci_set_ops ptr s = (case ptr of None \<Rightarrow> (0, upd_kci (\<lambda>k. k\<lparr>kci_ops := False\<rparr>) s)
    | Some ops \<Rightarrow> if kci_ops_complete ops then (0, upd_kci (\<lambda>k. k\<lparr>kci_ops := True\<rparr>) s) else (- EINVAL, s))"
  by (auto simp: gcip_kci_set_ops_def kci_ops_complete_def split: option.split)



end
