(* ===== verification/Gcip_Pm.thy ===== *)
theory Gcip_Pm
  imports Gcip_Prelude
begin

text \<open>
  The power management interface of a GCIP device (gcip-pm.c, gcip-pm.h): a counter of power-up
  votes over two device callbacks, a delayed worker that retries a power-down the device refused,
  and a worker that drops votes asynchronously.

  The callbacks \<open>power_up\<close>, \<open>power_down\<close>, \<open>after_create\<close> and \<open>before_destroy\<close> act on the private data
  of the IP driver, of type \<open>'w\<close>; they are fields of the interface, as in the code. Every function
  that takes the lock \<open>pm->lock\<close> is one step: the lock is held from its first access to the state to
  its last one. Where the code reads the state before it takes the lock, or lets go of the lock in
  a loop, the state it finds afterwards is an argument. Counters are of type \<open>int\<close>, and so are they
  here; a wrap would take \<open>2 ^ 31\<close> outstanding votes.
\<close>

section \<open>State\<close>

record 'w gcip_pm =
  power_down_work :: bool \<comment> \<open>the delayed work is queued\<close>
  count :: int
  suspendable_count :: int
  power_down_pending :: bool
  put_async_work :: bool \<comment> \<open>the work is queued\<close>
  put_async_count :: int
  pm_data :: 'w
  pm_before_destroy :: "('w \<Rightarrow> 'w) option"
  power_up :: "'w \<Rightarrow> int \<times> 'w"
  power_down :: "'w \<Rightarrow> int \<times> 'w"

record 'w gcip_pm_args =
  args_dev :: bool \<comment> \<open>whether the device pointer is set\<close>
  args_data :: 'w
  args_power_up :: "('w \<Rightarrow> int \<times> 'w) option"
  args_power_down :: "('w \<Rightarrow> int \<times> 'w) option"
  args_after_create :: "('w \<Rightarrow> int \<times> 'w) option"
  args_before_destroy :: "('w \<Rightarrow> 'w) option"

type_synonym pm_flags = u32

definition GCIP_PM_SUSPENDABLE :: pm_flags where
  "GCIP_PM_SUSPENDABLE = 1"

section \<open>Operations\<close>

definition gcip_pm_try_power_down :: "'w gcip_pm \<Rightarrow> 'w gcip_pm" where
  "gcip_pm_try_power_down pm =
    (let (ret, w) = power_down pm (pm_data pm); pm = pm\<lparr>pm_data := w\<rparr> in
     if ret = - EAGAIN then pm\<lparr>power_down_pending := True, power_down_work := True\<rparr>
     else pm\<lparr>power_down_pending := False\<rparr>)"

text \<open>The body of the delayed work; the kernel has taken it off the queue before it runs.\<close>

definition gcip_pm_async_power_down_work :: "'w gcip_pm \<Rightarrow> 'w gcip_pm" where
  "gcip_pm_async_power_down_work pm =
    (if power_down_pending pm then gcip_pm_try_power_down pm else pm)"

definition gcip_pm_put_flags_locked :: "'w gcip_pm \<Rightarrow> pm_flags \<Rightarrow> 'w gcip_pm" where
  "gcip_pm_put_flags_locked pm flags =
    (if count pm = 0 then pm
     else
       let pm = pm\<lparr>count := count pm - 1\<rparr>;
           pm = (if count pm = 0 then gcip_pm_try_power_down (pm\<lparr>power_down_pending := True\<rparr>) else pm)
       in if c_true (flags AND GCIP_PM_SUSPENDABLE) then
            let pm = pm\<lparr>suspendable_count := suspendable_count pm - 1\<rparr> in
            if suspendable_count pm > count pm then pm\<lparr>suspendable_count := count pm\<rparr> else pm
          else pm)"

definition gcip_pm_put :: "'w gcip_pm \<Rightarrow> 'w gcip_pm" where
  "gcip_pm_put pm = gcip_pm_put_flags_locked pm 0"

definition gcip_pm_put_flags :: "'w gcip_pm \<Rightarrow> pm_flags \<Rightarrow> 'w gcip_pm" where
  "gcip_pm_put_flags pm flags = gcip_pm_put_flags_locked pm flags"

lemma try_power_down_fields [simp]:
  "count (gcip_pm_try_power_down pm) = count pm"
  "suspendable_count (gcip_pm_try_power_down pm) = suspendable_count pm"
  "put_async_count (gcip_pm_try_power_down pm) = put_async_count pm"
  "put_async_work (gcip_pm_try_power_down pm) = put_async_work pm"
  "power_up (gcip_pm_try_power_down pm) = power_up pm"
  "power_down (gcip_pm_try_power_down pm) = power_down pm"
  "pm_before_destroy (gcip_pm_try_power_down pm) = pm_before_destroy pm"
  by (simp_all add: gcip_pm_try_power_down_def Let_def split: prod.split)

lemma put_flags_async_fields [simp]:
  "put_async_count (gcip_pm_put_flags_locked pm f) = put_async_count pm"
  "put_async_work (gcip_pm_put_flags_locked pm f) = put_async_work pm"
  "power_up (gcip_pm_put_flags_locked pm f) = power_up pm"
  "power_down (gcip_pm_put_flags_locked pm f) = power_down pm"
  "pm_before_destroy (gcip_pm_put_flags_locked pm f) = pm_before_destroy pm"
  by (simp_all add: gcip_pm_put_flags_locked_def Let_def)

text \<open>
  The body of the asynchronous put: \<open>atomic_dec_if_positive\<close> leaves the counter alone and ends the
  loop unless it is positive.
\<close>

function gcip_pm_async_put_work :: "'w gcip_pm \<Rightarrow> 'w gcip_pm" where
  "gcip_pm_async_put_work pm =
    (if put_async_count pm > 0
     then gcip_pm_async_put_work (gcip_pm_put (pm\<lparr>put_async_count := put_async_count pm - 1\<rparr>))
     else pm)"
  by pat_completeness auto

termination gcip_pm_async_put_work
  by (relation "measure (\<lambda>pm. nat (put_async_count pm))") (simp_all add: gcip_pm_put_def)

declare gcip_pm_async_put_work.simps [simp del]

text \<open>
  Creation: \<open>alloc\<close> is the outcome of \<open>devm_kzalloc\<close>. The result is the interface or the error, with
  the private data as \<open>after_create\<close> left it.
\<close>

definition gcip_pm_create :: "bool \<Rightarrow> 'w gcip_pm_args \<Rightarrow> (int \<times> 'w) + 'w gcip_pm" where
  "gcip_pm_create alloc args =
    (case (args_power_up args, args_power_down args) of
       (Some up, Some down) \<Rightarrow>
         if \<not> args_dev args then Inl (- EINVAL, args_data args)
         else if \<not> alloc then Inl (- ENOMEM, args_data args)
         else
           let pm = \<lparr>power_down_work = False, count = 0, suspendable_count = 0,
                     power_down_pending = False, put_async_work = False, put_async_count = 0,
                     pm_data = args_data args, pm_before_destroy = args_before_destroy args,
                     power_up = up, power_down = down\<rparr>
           in (case args_after_create args of
                 None \<Rightarrow> Inr pm
               | Some f \<Rightarrow>
                   let (ret, w) = f (args_data args) in
                   if ret \<noteq> 0 then Inl (ret, w) else Inr (pm\<lparr>pm_data := w\<rparr>))
     | _ \<Rightarrow> Inl (- EINVAL, args_data args))"

text \<open>\<open>flush_work\<close> waits for the work; if it is queued it runs before the call returns.\<close>

definition gcip_pm_flush_put_work :: "'w gcip_pm \<Rightarrow> 'w gcip_pm" where
  "gcip_pm_flush_put_work pm =
    (if put_async_work pm then gcip_pm_async_put_work (pm\<lparr>put_async_work := False\<rparr>) else pm)"

text \<open>The private data that is left when the interface is gone.\<close>

definition gcip_pm_destroy :: "'w gcip_pm \<Rightarrow> 'w" where
  "gcip_pm_destroy pm =
    (let pm = gcip_pm_flush_put_work pm;
         pm = pm\<lparr>power_down_pending := False\<rparr>;
         pm = pm\<lparr>power_down_work := False\<rparr>
     in case pm_before_destroy pm of None \<Rightarrow> pm_data pm | Some f \<Rightarrow> f (pm_data pm))"

definition gcip_pm_get_locked :: "'w gcip_pm \<Rightarrow> pm_flags \<Rightarrow> int \<times> 'w gcip_pm" where
  "gcip_pm_get_locked pm flags =
    (let (ret, pm) =
       (if count pm = 0 then
          if power_down_pending pm then (0, pm\<lparr>power_down_pending := False\<rparr>)
          else let (ret, w) = power_up pm (pm_data pm) in (ret, pm\<lparr>pm_data := w\<rparr>)
        else (0, pm))
     in if ret = 0 then
          let pm = pm\<lparr>count := count pm + 1\<rparr>;
              pm = (if c_true (flags AND GCIP_PM_SUSPENDABLE) then
                      let pm = pm\<lparr>suspendable_count := suspendable_count pm + 1\<rparr> in
                      if suspendable_count pm > count pm then pm\<lparr>suspendable_count := count pm\<rparr>
                      else pm
                    else pm)
          in (ret, pm)
        else (ret, pm))"

text \<open>
  \<open>seen\<close> is the counter as it was read before the lock was taken, \<open>free\<close> the outcome of
  \<open>mutex_trylock\<close>, \<open>pm\<close> the state when the lock has been taken.
\<close>

definition gcip_pm_get_if_powered :: "int \<Rightarrow> bool \<Rightarrow> 'w gcip_pm \<Rightarrow> bool \<Rightarrow> int \<times> 'w gcip_pm" where
  "gcip_pm_get_if_powered seen free pm blocking =
    (if seen = 0 then (- EAGAIN, pm)
     else if \<not> blocking \<and> \<not> free then (- EAGAIN, pm)
     else if count pm \<noteq> 0 then gcip_pm_get_locked pm 0
     else (- EAGAIN, pm))"

definition gcip_pm_get :: "'w gcip_pm \<Rightarrow> int \<times> 'w gcip_pm" where
  "gcip_pm_get pm = gcip_pm_get_locked pm 0"

definition gcip_pm_get_flags :: "'w gcip_pm \<Rightarrow> pm_flags \<Rightarrow> int \<times> 'w gcip_pm" where
  "gcip_pm_get_flags pm flags = gcip_pm_get_locked pm flags"

definition gcip_pm_put_async :: "'w gcip_pm \<Rightarrow> 'w gcip_pm" where
  "gcip_pm_put_async pm = pm\<lparr>put_async_count := put_async_count pm + 1, put_async_work := True\<rparr>"

text \<open>\<open>flush_delayed_work\<close> runs the work at once if it is queued.\<close>

definition flush_power_down_work :: "'w gcip_pm \<Rightarrow> 'w gcip_pm" where
  "flush_power_down_work pm =
    (if power_down_work pm then gcip_pm_async_power_down_work (pm\<lparr>power_down_work := False\<rparr>) else pm)"

text \<open>
  The loop of the flush: \<open>retry\<close> is a C \<open>int\<close>, tested and decremented after each round, and \<open>others n\<close>
  is what other threads do to the interface while this one sleeps before the round that has \<open>n\<close>
  retries left.
\<close>

function flush_rounds :: "(u32 \<Rightarrow> 'w gcip_pm \<Rightarrow> 'w gcip_pm) \<Rightarrow> u32 \<Rightarrow> 'w gcip_pm \<Rightarrow> 'w gcip_pm" where
  "flush_rounds others retry pm =
    (let pm = flush_power_down_work (others retry pm) in
     if power_down_pending pm \<and> c_true retry then flush_rounds others (retry - 1) pm else pm)"
  by pat_completeness auto

termination flush_rounds
  by (relation "measure (\<lambda>(_, retry, _). unat retry)") (simp_all add: unat_minus_one unat_gt_0)

declare flush_rounds.simps [simp del]

definition gcip_pm_flush_delayed_power_down_work ::
    "(u32 \<Rightarrow> 'w gcip_pm \<Rightarrow> 'w gcip_pm) \<Rightarrow> 'w gcip_pm \<Rightarrow> u32 \<Rightarrow> 'w gcip_pm" where
  "gcip_pm_flush_delayed_power_down_work others pm retry =
    (let pm = flush_rounds others retry pm in
     if power_down_pending pm then pm\<lparr>power_down_pending := False\<rparr> else pm)"

definition gcip_pm_flush_work ::
    "(u32 \<Rightarrow> 'w gcip_pm \<Rightarrow> 'w gcip_pm) \<Rightarrow> 'w gcip_pm \<Rightarrow> u32 \<Rightarrow> 'w gcip_pm" where
  "gcip_pm_flush_work others pm retry =
    gcip_pm_flush_delayed_power_down_work others (gcip_pm_flush_put_work pm) retry"

definition gcip_pm_get_count :: "'w gcip_pm \<Rightarrow> int" where
  "gcip_pm_get_count pm = count pm"

text \<open>The result, with what is stored through the second argument.\<close>

definition gcip_pm_suspendable_locked :: "'w gcip_pm \<Rightarrow> bool \<times> int" where
  "gcip_pm_suspendable_locked pm =
    (let c = gcip_pm_get_count pm in
     if c > suspendable_count pm then (False, c)
     else if power_down_pending pm then (False, c)
     else (True, c))"

definition gcip_pm_is_powered :: "'w gcip_pm option \<Rightarrow> bool" where
  "gcip_pm_is_powered pm = (case pm of None \<Rightarrow> True | Some pm \<Rightarrow> gcip_pm_get_count pm > 0)"

definition gcip_pm_shutdown :: "'w gcip_pm \<Rightarrow> bool \<Rightarrow> 'w gcip_pm" where
  "gcip_pm_shutdown pm force =
    (if count pm \<noteq> 0 \<and> \<not> force then pm else gcip_pm_try_power_down pm)"

end
