(* ===== verification/Gcip_Pm_Laws.thy ===== *)
theory Gcip_Pm_Laws
  imports Gcip_Pm
begin

text \<open>
  Laws of the power management interface: what each operation does on every branch, that the
  asynchronous put is as many puts as were asked for, that the flush of the delayed work ends with
  nothing pending, the counting of suspendable votes, and, for a device whose callbacks keep their
  contract, that the device is on as long as there is a vote.
\<close>

section \<open>Branches of the operations\<close>

lemma try_power_down_eq:
  "gcip_pm_try_power_down pm =
    (let r = power_down pm (pm_data pm) in
     pm\<lparr>power_down_pending := fst r = - EAGAIN,
        power_down_work := (fst r = - EAGAIN \<or> power_down_work pm), pm_data := snd r\<rparr>)"
  by (simp add: gcip_pm_try_power_down_def Let_def split: prod.split)

lemma get_locked_held:
  "count pm \<noteq> 0 \<Longrightarrow> gcip_pm_get_locked pm 0 = (0, pm\<lparr>count := count pm + 1\<rparr>)"
  by (simp add: gcip_pm_get_locked_def)

lemma put_held:
  "count pm \<noteq> 0 \<Longrightarrow> count pm \<noteq> 1 \<Longrightarrow> gcip_pm_put pm = pm\<lparr>count := count pm - 1\<rparr>"
  by (simp add: gcip_pm_put_def gcip_pm_put_flags_locked_def)

lemma gets_held:
  "count pm > 0 \<Longrightarrow> ((\<lambda>pm. snd (gcip_pm_get pm)) ^^ k) pm = pm\<lparr>count := count pm + int k\<rparr>"
  by (induction k) (simp_all add: gcip_pm_get_def get_locked_held add_ac)

lemma puts_held:
  "count pm > int k \<Longrightarrow> (gcip_pm_put ^^ k) pm = pm\<lparr>count := count pm - int k\<rparr>"
proof (induction k)
  case (Suc k)
  then have "(gcip_pm_put ^^ k) pm = pm\<lparr>count := count pm - int k\<rparr>"
    by simp
  then show ?case
    using Suc.prems by (simp add: put_held)
qed simp

text \<open>
  A device for the witnesses: its data is the number of times it will still refuse to power down.
\<close>

definition stubborn_args :: "nat \<Rightarrow> nat gcip_pm_args" where
  "stubborn_args k = \<lparr>args_dev = True, args_data = k, args_power_up = Some (\<lambda>w. (0, w)),
     args_power_down = Some (\<lambda>w. if w > 0 then (- EAGAIN, w - 1) else (0, w)),
     args_after_create = None, args_before_destroy = None\<rparr>"

definition stubborn_pm :: "nat \<Rightarrow> nat gcip_pm" where
  "stubborn_pm k = \<lparr>power_down_work = False, count = 0, suspendable_count = 0,
     power_down_pending = False, put_async_work = False, put_async_count = 0, pm_data = k,
     pm_before_destroy = None, power_up = (\<lambda>w. (0, w)),
     power_down = (\<lambda>w. if w > 0 then (- EAGAIN, w - 1) else (0, w))\<rparr>"

lemma stubborn_create: "gcip_pm_create True (stubborn_args k) = Inr (stubborn_pm k)"
  by (simp add: gcip_pm_create_def stubborn_args_def stubborn_pm_def)

text \<open>Votes nest. While a device has a vote, any number of further power-ups followed by as many
  power-downs gives back the interface exactly as it was, without calling the device.\<close>

theorem pm_votes_nest:
  assumes "count pm > 0"
  shows "(gcip_pm_put ^^ k) (((\<lambda>pm. snd (gcip_pm_get pm)) ^^ k) pm) = pm"
  using assms puts_held [of k "pm\<lparr>count := count pm + int k\<rparr>"] by (simp add: gets_held)

theorem pm_votes_nest_witness:
  "(gcip_pm_put ^^ 3) (((\<lambda>pm. snd (gcip_pm_get pm)) ^^ 3) (snd (gcip_pm_get (stubborn_pm 1)))) =
    snd (gcip_pm_get (stubborn_pm 1))"
  by (rule pm_votes_nest) (simp add: stubborn_pm_def gcip_pm_get_def gcip_pm_get_locked_def)

section \<open>The asynchronous put\<close>

lemma try_power_down_async_upd:
  "gcip_pm_try_power_down (pm\<lparr>put_async_count := n\<rparr>) = (gcip_pm_try_power_down pm)\<lparr>put_async_count := n\<rparr>"
  by (simp add: try_power_down_eq Let_def)

lemma put_async_upd:
  "gcip_pm_put (pm\<lparr>put_async_count := n\<rparr>) = (gcip_pm_put pm)\<lparr>put_async_count := n\<rparr>"
  by (simp add: gcip_pm_put_def gcip_pm_put_flags_locked_def try_power_down_eq Let_def)

lemma async_put_work_puts:
  "put_async_count pm = int n \<Longrightarrow>
    gcip_pm_async_put_work pm = ((gcip_pm_put ^^ n) pm)\<lparr>put_async_count := 0\<rparr>"
proof (induction n arbitrary: pm)
  case 0
  then show ?case
    by (simp add: gcip_pm_async_put_work.simps)
next
  case (Suc n)
  let ?q = "(gcip_pm_put pm)\<lparr>put_async_count := int n\<rparr>"
  have puts: "(gcip_pm_put ^^ m) (p\<lparr>put_async_count := i\<rparr>) = ((gcip_pm_put ^^ m) p)\<lparr>put_async_count := i\<rparr>"
    for m i and p :: "'a gcip_pm"
    by (induction m) (simp_all add: put_async_upd)
  have "gcip_pm_async_put_work pm = gcip_pm_async_put_work ?q"
    using Suc.prems by (subst gcip_pm_async_put_work.simps) (simp add: put_async_upd)
  also have "\<dots> = ((gcip_pm_put ^^ n) ?q)\<lparr>put_async_count := 0\<rparr>"
    by (rule Suc.IH) simp
  also have "\<dots> = ((gcip_pm_put ^^ Suc n) pm)\<lparr>put_async_count := 0\<rparr>"
    by (simp add: puts funpow_swap1 del: funpow.simps(2)) (simp add: funpow_swap1)
  finally show ?case .
qed



section \<open>Flushing the delayed power-down\<close>

text \<open>However the device answers and whatever other threads do meanwhile, the flush returns, and when
  it returns no power-down is pending.\<close>

theorem flush_leaves_nothing_pending:
  "\<not> power_down_pending (gcip_pm_flush_delayed_power_down_work others pm retry)"
  by (simp add: gcip_pm_flush_delayed_power_down_work_def Let_def)

lemma async_power_down_work_pending:
  "power_down_pending pm \<Longrightarrow> power_down_work pm \<Longrightarrow>
    flush_power_down_work pm = gcip_pm_try_power_down (pm\<lparr>power_down_work := False\<rparr>)"
  by (simp add: flush_power_down_work_def gcip_pm_async_power_down_work_def)

lemma flush_rounds_quiet:
  assumes "power_down_pending pm" and "power_down_work pm" and "j \<le> unat retry"
    and "\<forall>i<j. fst (power_down pm (((\<lambda>w. snd (power_down pm w)) ^^ i) (pm_data pm))) = - EAGAIN"
    and "j = unat retry \<or>
      fst (power_down pm (((\<lambda>w. snd (power_down pm w)) ^^ j) (pm_data pm))) \<noteq> - EAGAIN"
  shows "\<exists>b. flush_rounds (\<lambda>_ pm. pm) retry pm =
    pm\<lparr>power_down_pending := b, power_down_work := b,
       pm_data := ((\<lambda>w. snd (power_down pm w)) ^^ Suc j) (pm_data pm)\<rparr>"
  using assms
proof (induction j arbitrary: pm retry)
  case 0
  then show ?case
    by (subst flush_rounds.simps)
      (auto simp: async_power_down_work_pending try_power_down_eq Let_def unat_eq_0)
next
  case (Suc j)
  let ?f = "\<lambda>w. snd (power_down pm w)"
  let ?q = "pm\<lparr>power_down_pending := True, power_down_work := True, pm_data := ?f (pm_data pm)\<rparr>"
  have nz: "retry \<noteq> 0"
    using Suc.prems(3) by (auto simp: unat_eq_0)
  then have pred: "j \<le> unat (retry - 1)" "j = unat (retry - 1) \<longleftrightarrow> Suc j = unat retry"
    using Suc.prems(3) by (auto simp: unat_minus_one)
  have denied: "fst (power_down pm (pm_data pm)) = - EAGAIN"
    using Suc.prems(4) by (metis funpow_0 zero_less_Suc)
  have shift: "(?f ^^ i) (?f w) = (?f ^^ Suc i) w" for i w
    by (simp only: funpow_Suc_right o_apply)
  have "\<exists>b. flush_rounds (\<lambda>_ pm. pm) (retry - 1) ?q =
      ?q\<lparr>power_down_pending := b, power_down_work := b, pm_data := (?f ^^ Suc j) (pm_data ?q)\<rparr>"
    using Suc.IH [of ?q "retry - 1"] Suc.prems pred
    by (simp add: shift del: funpow.simps(2))
  moreover have "flush_rounds (\<lambda>_ pm. pm) retry pm = flush_rounds (\<lambda>_ pm. pm) (retry - 1) ?q"
    using Suc.prems(1,2) nz denied
    by (subst flush_rounds.simps) (simp add: async_power_down_work_pending try_power_down_eq Let_def)
  ultimately show ?case
    by (simp add: shift del: funpow.simps(2))
qed



section \<open>Suspendable votes\<close>

text \<open>
  \<open>pm_votes pm n s\<close>: a created interface has come to the state \<open>pm\<close> by calls that balance (each put
  drops a vote that was taken with the same flags), and \<open>n\<close> plain and \<open>s\<close> suspendable votes are
  outstanding. The workers and a cancelled power-down may run at any moment.
\<close>

inductive pm_votes :: "'w gcip_pm \<Rightarrow> nat \<Rightarrow> nat \<Rightarrow> bool" where
  created: "gcip_pm_create True args = Inr pm \<Longrightarrow> pm_votes pm 0 0"
| get: "pm_votes pm n s \<Longrightarrow> gcip_pm_get pm = (0, pm') \<Longrightarrow> pm_votes pm' (Suc n) s"
| get_if_powered: "pm_votes pm n s \<Longrightarrow> gcip_pm_get_if_powered seen free pm blocking = (0, pm') \<Longrightarrow>
    pm_votes pm' (Suc n) s"
| get_suspendable: "pm_votes pm n s \<Longrightarrow> gcip_pm_get_flags pm GCIP_PM_SUSPENDABLE = (0, pm') \<Longrightarrow>
    pm_votes pm' n (Suc s)"
| get_fails: "pm_votes pm n s \<Longrightarrow> gcip_pm_get_flags pm flags = (ret, pm') \<Longrightarrow> ret \<noteq> 0 \<Longrightarrow>
    pm_votes pm' n s"
| put: "pm_votes pm (Suc n) s \<Longrightarrow> pm_votes (gcip_pm_put pm) n s"
| put_suspendable: "pm_votes pm n (Suc s) \<Longrightarrow>
    pm_votes (gcip_pm_put_flags pm GCIP_PM_SUSPENDABLE) n s"
| power_down_work: "pm_votes pm n s \<Longrightarrow> pm_votes (flush_power_down_work pm) n s"
| cancelled: "pm_votes pm n s \<Longrightarrow> pm_votes (pm\<lparr>power_down_pending := False\<rparr>) n s"

lemmas pm_get_defs = gcip_pm_get_def gcip_pm_get_flags_def gcip_pm_get_if_powered_def
  gcip_pm_get_locked_def Let_def

lemma create_fields:
  "gcip_pm_create True args = Inr pm \<Longrightarrow>
    count pm = 0 \<and> suspendable_count pm = 0 \<and> put_async_count pm = 0 \<and>
    \<not> power_down_pending pm \<and> args_power_up args = Some (power_up pm) \<and>
    args_power_down args = Some (power_down pm)"
  by (auto simp: gcip_pm_create_def Let_def split: option.splits if_splits prod.splits)

lemma get_locked_counts:
  assumes "gcip_pm_get_locked pm flags = (ret, pm')" and "suspendable_count pm \<le> count pm"
  shows "count pm' = count pm + (if ret = 0 then 1 else 0) \<and>
    suspendable_count pm' =
      suspendable_count pm + (if ret = 0 \<and> flags AND GCIP_PM_SUSPENDABLE \<noteq> 0 then 1 else 0)"
  using assms
  by (auto simp: gcip_pm_get_locked_def Let_def split: if_splits prod.splits)

lemma put_locked_counts:
  assumes "count pm \<noteq> 0"
  shows "count (gcip_pm_put_flags_locked pm flags) = count pm - 1"
    and "suspendable_count pm \<le> count pm \<Longrightarrow>
      suspendable_count (gcip_pm_put_flags_locked pm flags) =
      suspendable_count pm - (if flags AND GCIP_PM_SUSPENDABLE \<noteq> 0 then 1 else 0)"
  using assms by (simp_all add: gcip_pm_put_flags_locked_def Let_def)

lemma flush_power_down_work_counts [simp]:
  "count (flush_power_down_work pm) = count pm"
  "suspendable_count (flush_power_down_work pm) = suspendable_count pm"
  by (simp_all add: flush_power_down_work_def gcip_pm_async_power_down_work_def)

lemma pm_votes_counts:
  "pm_votes pm n s \<Longrightarrow> count pm = int n + int s \<and> suspendable_count pm = int s"
proof (induction rule: pm_votes.induct)
  case (created args pm)
  then show ?case
    by (auto dest: create_fields)
next
  case (get_if_powered pm n s seen free blocking pm')
  then show ?case
    by (auto simp: gcip_pm_get_if_powered_def dest!: get_locked_counts split: if_splits)
qed (auto simp: gcip_pm_get_def gcip_pm_get_flags_def gcip_pm_put_def gcip_pm_put_flags_def
    put_locked_counts GCIP_PM_SUSPENDABLE_def dest!: get_locked_counts)



section \<open>A device that keeps its contract\<close>

text \<open>
  The steps that threads and workers take on an interface: every operation of gcip-pm.h except a
  shutdown, and whatever else the IP driver does to its private data (the relation \<open>other\<close>). The loop of
  the asynchronous put takes one vote per step, since other threads may run between two of its
  rounds.
\<close>

inductive pm_step :: "('w \<Rightarrow> 'w \<Rightarrow> bool) \<Rightarrow> 'w gcip_pm \<Rightarrow> 'w gcip_pm \<Rightarrow> bool" for other where
  driver: "other (pm_data pm) w \<Longrightarrow> pm_step other pm (pm\<lparr>pm_data := w\<rparr>)"
| get: "pm_step other pm (snd (gcip_pm_get_flags pm flags))"
| get_if_powered: "pm_step other pm (snd (gcip_pm_get_if_powered seen free pm blocking))"
| put: "pm_step other pm (gcip_pm_put_flags pm flags)"
| put_async: "pm_step other pm (gcip_pm_put_async pm)"
| put_round: "put_async_count pm > 0 \<Longrightarrow>
    pm_step other pm (gcip_pm_put (pm\<lparr>put_async_count := put_async_count pm - 1\<rparr>))"
| power_down_work: "pm_step other pm (flush_power_down_work pm)"
| cancelled: "pm_step other pm (pm\<lparr>power_down_pending := False\<rparr>)"

definition pm_reachable :: "('w \<Rightarrow> 'w \<Rightarrow> bool) \<Rightarrow> 'w gcip_pm_args \<Rightarrow> 'w gcip_pm \<Rightarrow> bool" where
  "pm_reachable other args pm \<longleftrightarrow> (\<exists>pm0. gcip_pm_create True args = Inr pm0 \<and> (pm_step other)\<^sup>*\<^sup>* pm0 pm)"

definition pm_inv :: "('w \<Rightarrow> int \<times> 'w) \<Rightarrow> ('w \<Rightarrow> int \<times> 'w) \<Rightarrow> ('w \<Rightarrow> bool) \<Rightarrow> 'w gcip_pm \<Rightarrow> bool" where
  "pm_inv up down on pm \<longleftrightarrow> power_up pm = up \<and> power_down pm = down \<and> 0 \<le> count pm \<and>
    0 \<le> put_async_count pm \<and> (count pm > 0 \<longrightarrow> on (pm_data pm)) \<and>
    (power_down_pending pm \<longrightarrow> power_down_work pm \<and> count pm = 0 \<and> on (pm_data pm))"

text \<open>
  What the interface relies on: after a successful power-up the device is on, a device that refuses
  to power down is left on, and nothing but the callbacks switches it off. Nothing is assumed of a
  power-down that fails otherwise.
\<close>

locale pm_device =
  fixes up down :: "'w \<Rightarrow> int \<times> 'w" and on :: "'w \<Rightarrow> bool" and other :: "'w \<Rightarrow> 'w \<Rightarrow> bool"
  assumes up_on: "up w = (0, w') \<Longrightarrow> on w'"
    and down_refused: "down w = (- EAGAIN, w') \<Longrightarrow> on w \<Longrightarrow> on w'"
    and other_keeps: "other w w' \<Longrightarrow> on w \<Longrightarrow> on w'"
begin

lemma try_power_down_inv:
  assumes "power_up pm = up" and "power_down pm = down" and "count pm = 0"
    and "0 \<le> put_async_count pm" and "on (pm_data pm)"
  shows "pm_inv up down on (gcip_pm_try_power_down pm)"
  using assms down_refused [of "pm_data pm" "snd (down (pm_data pm))"]
  by (auto simp: pm_inv_def try_power_down_eq Let_def prod_eq_iff)

lemma put_inv: "pm_inv up down on pm \<Longrightarrow> pm_inv up down on (gcip_pm_put_flags_locked pm flags)"
proof (cases "count pm = 1")
  case True
  moreover assume "pm_inv up down on pm"
  ultimately have "pm_inv up down on (gcip_pm_try_power_down (pm\<lparr>count := 0, power_down_pending := True\<rparr>))"
    by (intro try_power_down_inv) (simp_all add: pm_inv_def)
  with True show ?thesis
    by (simp add: gcip_pm_put_flags_locked_def Let_def pm_inv_def)
next
  case False
  moreover assume "pm_inv up down on pm"
  ultimately show ?thesis
    by (auto simp: gcip_pm_put_flags_locked_def Let_def pm_inv_def)
qed

lemma get_inv: "pm_inv up down on pm \<Longrightarrow> gcip_pm_get_locked pm flags = (ret, pm') \<Longrightarrow> pm_inv up down on pm'"
  using up_on [of "pm_data pm" "snd (up (pm_data pm))"]
  by (auto simp: pm_inv_def gcip_pm_get_locked_def Let_def prod_eq_iff split: if_splits prod.splits)

lemma work_inv: "pm_inv up down on pm \<Longrightarrow> pm_inv up down on (flush_power_down_work pm)"
  using try_power_down_inv [of "pm\<lparr>power_down_work := False\<rparr>"]
  by (auto simp: flush_power_down_work_def gcip_pm_async_power_down_work_def) (auto simp: pm_inv_def)

lemma step_inv: "pm_step other pm pm' \<Longrightarrow> pm_inv up down on pm \<Longrightarrow> pm_inv up down on pm'"
proof (induction rule: pm_step.induct)
  case (driver pm w)
  then show ?case
    using other_keeps by (auto simp: pm_inv_def)
next
  case (get pm flags)
  then show ?case
    using get_inv [of pm flags] by (simp add: gcip_pm_get_flags_def prod_eq_iff)
next
  case (get_if_powered pm seen free blocking)
  then show ?case
    using get_inv [of pm 0] by (simp add: gcip_pm_get_if_powered_def prod_eq_iff)
next
  case (put_round pm)
  then show ?case
    unfolding gcip_pm_put_def by (intro put_inv) (simp add: pm_inv_def)
next
  case (put_async pm)
  then show ?case
    by (simp add: gcip_pm_put_async_def pm_inv_def)
next
  case (cancelled pm)
  then show ?case
    by (simp add: pm_inv_def)
qed (simp_all add: gcip_pm_put_flags_def put_inv work_inv)

lemma reachable_inv:
  assumes "pm_reachable other args pm" and "args_power_up args = Some up" and "args_power_down args = Some down"
  shows "pm_inv up down on pm"
proof -
  obtain pm0 where "gcip_pm_create True args = Inr pm0" and "(pm_step other)\<^sup>*\<^sup>* pm0 pm"
    using assms(1) by (auto simp: pm_reachable_def)
  from this(2) show ?thesis
  proof (induction rule: rtranclp_induct)
    case base
    then show ?case
      using create_fields [OF \<open>gcip_pm_create True args = Inr pm0\<close>] assms by (auto simp: pm_inv_def)
  qed (rule step_inv)
qed

lemma reachable_powered:
  assumes "pm_reachable other args pm" and "args_power_up args = Some up" and "args_power_down args = Some down"
  shows "(gcip_pm_is_powered (Some pm) \<longrightarrow> on (pm_data pm)) \<and> 0 \<le> gcip_pm_get_count pm \<and>
    (power_down_pending pm \<longrightarrow> power_down_work pm \<and> gcip_pm_get_count pm = 0 \<and> on (pm_data pm))"
  using reachable_inv [OF assms]
  by (simp add: pm_inv_def gcip_pm_is_powered_def gcip_pm_get_count_def)

end

end
