(* ===== verification/Gxp_Lpm.thy ===== *)
theory Gxp_Lpm
  imports Gcip_Prelude
begin

text \<open>
  The local power manager of the DSP (gxp-lpm.c, gxp-lpm.h, callisto/lpm.h) and the doorbells it uses
  (gxp-doorbell.c): one power state machine (PSM) per core, for the control processor and for the
  block, driven through registers.

  The hardware is a parameter: a state of type \<open>'h\<close> and, in the record \<open>gxp_io\<close>, the kernel's register
  accessors and delays on it. A read may change the state, and so may the passing of time.
\<close>

section \<open>Registers\<close>

datatype reg_region = BLOCK_REGS | LPM_REGS | CMU_REGS | PMU_REGS | SYSREG_SHAREABILITY

record 'h gxp_io =
  readl :: "reg_region \<Rightarrow> u32 \<Rightarrow> 'h \<Rightarrow> u32 \<times> 'h"
  writel :: "u32 \<Rightarrow> reg_region \<Rightarrow> u32 \<Rightarrow> 'h \<Rightarrow> 'h"
  udelay :: "nat \<Rightarrow> 'h \<Rightarrow> 'h"
  msleep :: "nat \<Rightarrow> 'h \<Rightarrow> 'h"
  lpm_init_hook :: "('h \<Rightarrow> 'h) option"

definition gxp_read_32 :: "'h gxp_io \<Rightarrow> u32 \<Rightarrow> 'h \<Rightarrow> u32 \<times> 'h" where
  "gxp_read_32 io reg_offset h = readl io BLOCK_REGS reg_offset h"

definition gxp_write_32 :: "'h gxp_io \<Rightarrow> u32 \<Rightarrow> u32 \<Rightarrow> 'h \<Rightarrow> 'h" where
  "gxp_write_32 io reg_offset value h = writel io value BLOCK_REGS reg_offset h"

definition GXP_LPM_BASE :: u32 where "GXP_LPM_BASE = 0x40000"

definition lpm_read_32 :: "'h gxp_io \<Rightarrow> u32 \<Rightarrow> 'h \<Rightarrow> u32 \<times> 'h" where
  "lpm_read_32 io reg_offset h = readl io LPM_REGS (GXP_LPM_BASE + reg_offset) h"

definition lpm_write_32 :: "'h gxp_io \<Rightarrow> u32 \<Rightarrow> u32 \<Rightarrow> 'h \<Rightarrow> 'h" where
  "lpm_write_32 io reg_offset value h = writel io value LPM_REGS (GXP_LPM_BASE + reg_offset) h"

text \<open>The enumerations are C integers: a state number is passed where a register number is expected.\<close>

abbreviation (input) LPM_ACTIVE_STATE :: u32 where "LPM_ACTIVE_STATE \<equiv> 0"
abbreviation (input) LPM_CG_STATE :: u32 where "LPM_CG_STATE \<equiv> 1"
abbreviation (input) LPM_PG_W_RET_STATE :: u32 where "LPM_PG_W_RET_STATE \<equiv> 2"
abbreviation (input) LPM_PG_STATE :: u32 where "LPM_PG_STATE \<equiv> 3"

abbreviation (input) PSM_REG_ENABLE_STATE0_OFFSET :: u32 where "PSM_REG_ENABLE_STATE0_OFFSET \<equiv> 0"
abbreviation (input) PSM_REG_ENABLE_STATE1_OFFSET :: u32 where "PSM_REG_ENABLE_STATE1_OFFSET \<equiv> 1"
abbreviation (input) PSM_REG_ENABLE_STATE2_OFFSET :: u32 where "PSM_REG_ENABLE_STATE2_OFFSET \<equiv> 2"
abbreviation (input) PSM_REG_ENABLE_STATE3_OFFSET :: u32 where "PSM_REG_ENABLE_STATE3_OFFSET \<equiv> 3"
abbreviation (input) PSM_REG_START_OFFSET :: u32 where "PSM_REG_START_OFFSET \<equiv> 4"
abbreviation (input) PSM_REG_STATUS_OFFSET :: u32 where "PSM_REG_STATUS_OFFSET \<equiv> 5"
abbreviation (input) PSM_REG_CFG_OFFSET :: u32 where "PSM_REG_CFG_OFFSET \<equiv> 6"
abbreviation (input) PSM_REG_DEBUG_CFG_OFFSET :: u32 where "PSM_REG_DEBUG_CFG_OFFSET \<equiv> 7"
abbreviation (input) PSM_REG_GPIN_LO_RD_OFFSET :: u32 where "PSM_REG_GPIN_LO_RD_OFFSET \<equiv> 8"
abbreviation (input) PSM_REG_GPOUT_LO_WRT_OFFSET :: u32 where "PSM_REG_GPOUT_LO_WRT_OFFSET \<equiv> 9"
abbreviation (input) PSM_REG_GPOUT_LO_RD_OFFSET :: u32 where "PSM_REG_GPOUT_LO_RD_OFFSET \<equiv> 10"

abbreviation (input) LPM_PSM_CORE0 :: u32 where "LPM_PSM_CORE0 \<equiv> 0"
abbreviation (input) LPM_PSM_MCU :: u32 where "LPM_PSM_MCU \<equiv> 3"
abbreviation (input) LPM_PSM_TOP :: u32 where "LPM_PSM_TOP \<equiv> 4"
abbreviation (input) LPM_NUM_PSMS :: u32 where "LPM_NUM_PSMS \<equiv> 5"

abbreviation (input) GXP_NUM_CORES :: u32 where "GXP_NUM_CORES \<equiv> 3"
abbreviation (input) GXP_REG_MCU_ID :: u32 where "GXP_REG_MCU_ID \<equiv> 3"

definition CORE_TO_PSM :: "u32 \<Rightarrow> u32" where "CORE_TO_PSM core = LPM_PSM_CORE0 + core"

definition LPM_HW_MODE :: u32 where "LPM_HW_MODE = 0"
definition LPM_SW_PSM_MODE :: u32 where "LPM_SW_PSM_MODE = 1"
definition LPM_CFG_SW_PS_TARGET_OFFSET :: nat where "LPM_CFG_SW_PS_TARGET_OFFSET = 2"
definition PSM_INIT_DONE_MASK :: u32 where "PSM_INIT_DONE_MASK = 0x80"
definition PSM_CURR_STATE_MASK :: u32 where "PSM_CURR_STATE_MASK = 0x0F"
definition PSM_STATE_VALID_MASK :: u32 where "PSM_STATE_VALID_MASK = 0x10"
definition PSM_HW_MODE :: u32 where "PSM_HW_MODE = 0"
definition PSM_START :: u32 where "PSM_START = 1"

definition GXP_LPM_PSM_0_BASE :: u32 where "GXP_LPM_PSM_0_BASE = 0x1000"
definition GXP_LPM_PSM_SIZE :: u32 where "GXP_LPM_PSM_SIZE = 0x2000 - 0x1000"
definition LPM_REG_ENABLE_STATE_0 :: u32 where "LPM_REG_ENABLE_STATE_0 = 0x080"
definition PSM_STATE_TABLE_SZ :: u32 where "PSM_STATE_TABLE_SZ = 0x180 - 0x080"

definition gxp_lpm_psm_get_status_offset :: "u32 \<Rightarrow> u32" where
  "gxp_lpm_psm_get_status_offset psm =
    (if psm \<ge> LPM_NUM_PSMS then 0 else GXP_LPM_PSM_0_BASE + GXP_LPM_PSM_SIZE * psm + 0x688)"

definition gxp_lpm_psm_get_start_offset :: "u32 \<Rightarrow> u32" where
  "gxp_lpm_psm_get_start_offset psm =
    (if psm \<ge> LPM_NUM_PSMS then 0 else GXP_LPM_PSM_0_BASE + GXP_LPM_PSM_SIZE * psm + 0x684)"

definition gxp_lpm_psm_get_cfg_offset :: "u32 \<Rightarrow> u32" where
  "gxp_lpm_psm_get_cfg_offset psm =
    (if psm \<ge> LPM_NUM_PSMS then 0 else GXP_LPM_PSM_0_BASE + GXP_LPM_PSM_SIZE * psm + 0x680)"

definition gxp_lpm_psm_get_state_offset :: "u32 \<Rightarrow> u32 \<Rightarrow> u32" where
  "gxp_lpm_psm_get_state_offset psm state =
    (if psm \<ge> LPM_NUM_PSMS \<or> state > 3 then 0
     else GXP_LPM_PSM_0_BASE + GXP_LPM_PSM_SIZE * psm + LPM_REG_ENABLE_STATE_0 +
       PSM_STATE_TABLE_SZ * state)"

definition gxp_lpm_psm_get_debug_cfg_offset :: "u32 \<Rightarrow> u32" where
  "gxp_lpm_psm_get_debug_cfg_offset psm =
    (if psm \<ge> LPM_NUM_PSMS then 0 else GXP_LPM_PSM_0_BASE + GXP_LPM_PSM_SIZE * psm + 0x68C)"

definition gxp_lpm_psm_get_gpin_lo_rd_offset :: "u32 \<Rightarrow> u32" where
  "gxp_lpm_psm_get_gpin_lo_rd_offset psm =
    (if psm \<ge> LPM_NUM_PSMS then 0 else GXP_LPM_PSM_0_BASE + GXP_LPM_PSM_SIZE * psm + 0x6A0)"

definition gxp_lpm_psm_get_gpout_lo_wrt_offset :: "u32 \<Rightarrow> u32" where
  "gxp_lpm_psm_get_gpout_lo_wrt_offset psm =
    (if psm \<ge> LPM_NUM_PSMS then 0 else GXP_LPM_PSM_0_BASE + GXP_LPM_PSM_SIZE * psm + 0x6A8)"

definition gxp_lpm_psm_get_gpout_lo_rd_offset :: "u32 \<Rightarrow> u32" where
  "gxp_lpm_psm_get_gpout_lo_rd_offset psm =
    (if psm \<ge> LPM_NUM_PSMS then 0 else GXP_LPM_PSM_0_BASE + GXP_LPM_PSM_SIZE * psm + 0x6B0)"

definition get_reg_offset :: "u32 \<Rightarrow> u32 \<Rightarrow> u32" where
  "get_reg_offset reg_offset psm =
    (if reg_offset = PSM_REG_ENABLE_STATE0_OFFSET \<or> reg_offset = PSM_REG_ENABLE_STATE1_OFFSET \<or>
        reg_offset = PSM_REG_ENABLE_STATE2_OFFSET \<or> reg_offset = PSM_REG_ENABLE_STATE3_OFFSET
     then gxp_lpm_psm_get_state_offset psm reg_offset
     else if reg_offset = PSM_REG_START_OFFSET then gxp_lpm_psm_get_start_offset psm
     else if reg_offset = PSM_REG_STATUS_OFFSET then gxp_lpm_psm_get_status_offset psm
     else if reg_offset = PSM_REG_CFG_OFFSET then gxp_lpm_psm_get_cfg_offset psm
     else if reg_offset = PSM_REG_DEBUG_CFG_OFFSET then gxp_lpm_psm_get_debug_cfg_offset psm
     else if reg_offset = PSM_REG_GPIN_LO_RD_OFFSET then gxp_lpm_psm_get_gpin_lo_rd_offset psm
     else if reg_offset = PSM_REG_GPOUT_LO_WRT_OFFSET then gxp_lpm_psm_get_gpout_lo_wrt_offset psm
     else if reg_offset = PSM_REG_GPOUT_LO_RD_OFFSET then gxp_lpm_psm_get_gpout_lo_rd_offset psm
     else 0)"

definition lpm_read_32_psm :: "'h gxp_io \<Rightarrow> u32 \<Rightarrow> u32 \<Rightarrow> 'h \<Rightarrow> u32 \<times> 'h" where
  "lpm_read_32_psm io psm reg_offset h = lpm_read_32 io (get_reg_offset reg_offset psm) h"

definition lpm_write_32_psm :: "'h gxp_io \<Rightarrow> u32 \<Rightarrow> u32 \<Rightarrow> u32 \<Rightarrow> 'h \<Rightarrow> 'h" where
  "lpm_write_32_psm io psm reg_offset value h = lpm_write_32 io (get_reg_offset reg_offset psm) value h"

section \<open>Doorbells\<close>

definition GXP_REG_CORE_COMMON_INT_MASK_0 :: "u32 \<Rightarrow> u32" where
  "GXP_REG_CORE_COMMON_INT_MASK_0 core =
    (if core = GXP_REG_MCU_ID then 0x280000 + 0x4020 else 0x200000 + 0x10000 * core + 0x4010)"

definition GXP_REG_DOORBELL_BASE :: "u32 \<Rightarrow> u32" where
  "GXP_REG_DOORBELL_BASE i = 0xC0000 + 0x1000 * i"

definition GXP_REG_DOORBELL_STATUS :: "u32 \<Rightarrow> u32" where
  "GXP_REG_DOORBELL_STATUS i = GXP_REG_DOORBELL_BASE i + 0x0"

definition GXP_REG_DOORBELL_SET :: "u32 \<Rightarrow> u32" where
  "GXP_REG_DOORBELL_SET i = GXP_REG_DOORBELL_BASE i + 0x4"

definition GXP_REG_DOORBELL_CLEAR :: "u32 \<Rightarrow> u32" where
  "GXP_REG_DOORBELL_CLEAR i = GXP_REG_DOORBELL_BASE i + 0x8"

definition CORE_WAKEUP_DOORBELL :: "u32 \<Rightarrow> u32" where
  "CORE_WAKEUP_DOORBELL core = 0 + core"

definition gxp_doorbell_enable_for_core :: "'h gxp_io \<Rightarrow> u32 \<Rightarrow> u32 \<Rightarrow> 'h \<Rightarrow> 'h" where
  "gxp_doorbell_enable_for_core io doorbell_num core h =
    (let (val, h) = gxp_read_32 io (GXP_REG_CORE_COMMON_INT_MASK_0 core) h;
         val = val OR push_bit (unat doorbell_num) 1
     in gxp_write_32 io (GXP_REG_CORE_COMMON_INT_MASK_0 core) val h)"

definition gxp_doorbell_set :: "'h gxp_io \<Rightarrow> u32 \<Rightarrow> 'h \<Rightarrow> 'h" where
  "gxp_doorbell_set io doorbell_num h = gxp_write_32 io (GXP_REG_DOORBELL_SET doorbell_num) 1 h"

definition gxp_doorbell_clear :: "'h gxp_io \<Rightarrow> u32 \<Rightarrow> 'h \<Rightarrow> 'h" where
  "gxp_doorbell_clear io doorbell_num h = gxp_write_32 io (GXP_REG_DOORBELL_CLEAR doorbell_num) 1 h"

definition gxp_doorbell_status :: "'h gxp_io \<Rightarrow> u32 \<Rightarrow> 'h \<Rightarrow> u32 \<times> 'h" where
  "gxp_doorbell_status io doorbell_num h = gxp_read_32 io (GXP_REG_DOORBELL_STATUS doorbell_num) h"

section \<open>The power state machines\<close>

definition gxp_lpm_is_initialized :: "'h gxp_io \<Rightarrow> u32 \<Rightarrow> 'h \<Rightarrow> bool \<times> 'h" where
  "gxp_lpm_is_initialized io psm h =
    (let (status, h) = lpm_read_32_psm io psm PSM_REG_STATUS_OFFSET h in
     (c_true (status AND PSM_STATE_VALID_MASK), h))"

definition gxp_lpm_is_powered :: "'h gxp_io \<Rightarrow> u32 \<Rightarrow> 'h \<Rightarrow> bool \<times> 'h" where
  "gxp_lpm_is_powered io psm h =
    (let (status, h) = lpm_read_32_psm io psm PSM_REG_STATUS_OFFSET h in
     if \<not> c_true (status AND PSM_STATE_VALID_MASK) then (False, h)
     else let state = status AND PSM_CURR_STATE_MASK in
       (state = LPM_ACTIVE_STATE \<or> state = LPM_CG_STATE, h))"

definition gxp_lpm_get_state :: "'h gxp_io \<Rightarrow> u32 \<Rightarrow> 'h \<Rightarrow> u32 \<times> 'h" where
  "gxp_lpm_get_state io psm h =
    (let (status, h) = lpm_read_32_psm io psm PSM_REG_STATUS_OFFSET h in
     (status AND PSM_CURR_STATE_MASK, h))"

definition gxp_lpm_enable_state :: "'h gxp_io \<Rightarrow> u32 \<Rightarrow> u32 \<Rightarrow> 'h \<Rightarrow> 'h" where
  "gxp_lpm_enable_state io psm state h =
    (if state = LPM_ACTIVE_STATE \<or> state > LPM_PG_STATE then h
     else
       let h = lpm_write_32_psm io psm PSM_REG_ENABLE_STATE1_OFFSET 0 h;
           h = lpm_write_32_psm io psm PSM_REG_ENABLE_STATE2_OFFSET 0 h;
           h = lpm_write_32_psm io psm PSM_REG_ENABLE_STATE3_OFFSET 0 h
       in lpm_write_32_psm io psm state 1 h)"

text \<open>
  The polling loops: at most \<open>i\<close> reads of the status register with a delay after each one that does
  not satisfy the condition. The result is the number of rounds that were left, so 0 is a timeout.
\<close>

fun poll_status :: "'h gxp_io \<Rightarrow> u32 \<Rightarrow> (u32 \<Rightarrow> bool) \<Rightarrow> nat \<Rightarrow> nat \<Rightarrow> 'h \<Rightarrow> nat \<times> 'h" where
  "poll_status io psm cond delay 0 h = (0, h)"
| "poll_status io psm cond delay (Suc i) h =
    (let (status, h) = lpm_read_32_psm io psm PSM_REG_STATUS_OFFSET h in
     if cond status then (Suc i, h) else poll_status io psm cond delay i (udelay io delay h))"

definition psm_init_done :: "u32 \<Rightarrow> bool" where
  "psm_init_done status = c_true (status AND PSM_INIT_DONE_MASK)"

definition set_state_internal :: "'h gxp_io \<Rightarrow> u32 \<Rightarrow> u32 \<Rightarrow> 'h \<Rightarrow> int \<times> 'h" where
  "set_state_internal io psm target_state h =
    (let val = LPM_SW_PSM_MODE OR push_bit LPM_CFG_SW_PS_TARGET_OFFSET target_state;
         h = lpm_write_32_psm io psm PSM_REG_CFG_OFFSET val h;
         h = lpm_write_32_psm io psm PSM_REG_START_OFFSET 1 h;
         (i, h) = poll_status io psm psm_init_done 1 10000 h
     in if i = 0 then (- EIO, h) else (0, h))"

text \<open>The extra status reads of the verbose messages are part of what the device sees.\<close>

definition gxp_lpm_set_state :: "'h gxp_io \<Rightarrow> u32 \<Rightarrow> u32 \<Rightarrow> bool \<Rightarrow> 'h \<Rightarrow> int \<times> 'h" where
  "gxp_lpm_set_state io psm target_state verbose h =
    (let (curr_state, h) = gxp_lpm_get_state io psm h in
     if curr_state = target_state then (0, h)
     else
       let h = (if verbose then snd (lpm_read_32_psm io psm PSM_REG_STATUS_OFFSET h) else h);
           h = gxp_lpm_enable_state io psm target_state h;
           h = (if curr_state \<noteq> LPM_ACTIVE_STATE \<and> target_state \<noteq> LPM_ACTIVE_STATE
                then snd (set_state_internal io psm LPM_ACTIVE_STATE h) else h);
           h = snd (set_state_internal io psm target_state h);
           h = (if verbose
                then snd (lpm_read_32_psm io psm PSM_REG_STATUS_OFFSET (snd (gxp_lpm_get_state io psm h)))
                else h)
       in (0, lpm_write_32_psm io psm PSM_REG_CFG_OFFSET LPM_HW_MODE h))"

definition psm_enable :: "'h gxp_io \<Rightarrow> u32 \<Rightarrow> 'h \<Rightarrow> int \<times> 'h" where
  "psm_enable io psm h =
    (let (init, h) = gxp_lpm_is_initialized io psm h in
     if init then
       if psm \<noteq> LPM_PSM_TOP then gxp_lpm_set_state io psm LPM_PG_STATE True h else (0, h)
     else
       let h = lpm_write_32_psm io psm PSM_REG_START_OFFSET PSM_START h;
           (i, h) = poll_status io psm psm_init_done 1 10000 h
       in if i = 0 then (1, h) else (0, lpm_write_32_psm io psm PSM_REG_CFG_OFFSET PSM_HW_MODE h))"

definition gxp_lpm_init :: "'h gxp_io \<Rightarrow> 'h \<Rightarrow> 'h" where
  "gxp_lpm_init io h =
    (let h = (case lpm_init_hook io of None \<Rightarrow> h | Some f \<Rightarrow> f h) in
     snd (psm_enable io LPM_PSM_TOP h))"

definition gxp_lpm_destroy :: "'h gxp_io \<Rightarrow> 'h \<Rightarrow> 'h" where
  "gxp_lpm_destroy io h =
    (let h = lpm_write_32_psm io LPM_PSM_TOP PSM_REG_ENABLE_STATE1_OFFSET 0 h in
     lpm_write_32_psm io LPM_PSM_TOP PSM_REG_ENABLE_STATE2_OFFSET 0 h)"

definition gxp_lpm_up :: "'h gxp_io \<Rightarrow> u32 \<Rightarrow> 'h \<Rightarrow> int \<times> 'h" where
  "gxp_lpm_up io core h =
    (let h = gxp_doorbell_clear io (CORE_WAKEUP_DOORBELL core) h;
         (r, h) = psm_enable io (CORE_TO_PSM core) h
     in if r \<noteq> 0 then (- ETIMEDOUT, h)
        else (0, if core < GXP_NUM_CORES then gxp_lpm_enable_state io (CORE_TO_PSM core) LPM_CG_STATE h
                 else h))"

definition gxp_lpm_down :: "'h gxp_io \<Rightarrow> u32 \<Rightarrow> 'h \<Rightarrow> 'h" where
  "gxp_lpm_down io core h =
    (let (state, h) = gxp_lpm_get_state io (CORE_TO_PSM core) h in
     if state = LPM_PG_STATE then h
     else
       let h = gxp_lpm_enable_state io (CORE_TO_PSM core) LPM_PG_STATE h;
           h = gxp_doorbell_enable_for_core io (CORE_WAKEUP_DOORBELL core) core h;
           h = gxp_doorbell_set io (CORE_WAKEUP_DOORBELL core) h;
           h = msleep io 25 h;
           h = gxp_write_32 io (GXP_REG_CORE_COMMON_INT_MASK_0 core) 0 h;
           h = gxp_doorbell_clear io (CORE_WAKEUP_DOORBELL core) h
       in snd (gxp_lpm_set_state io (CORE_TO_PSM core) LPM_PG_STATE True h))"

definition gxp_lpm_wait_state_ne :: "'h gxp_io \<Rightarrow> u32 \<Rightarrow> u32 \<Rightarrow> 'h \<Rightarrow> bool \<times> 'h" where
  "gxp_lpm_wait_state_ne io psm state h =
    (let (i, h) = poll_status io psm (\<lambda>s. s AND PSM_CURR_STATE_MASK \<noteq> state) 2 100000 h in (i \<noteq> 0, h))"

definition gxp_lpm_wait_state_eq :: "'h gxp_io \<Rightarrow> u32 \<Rightarrow> u32 \<Rightarrow> 'h \<Rightarrow> bool \<times> 'h" where
  "gxp_lpm_wait_state_eq io psm state h =
    (let (i, h) = poll_status io psm (\<lambda>s. s AND PSM_CURR_STATE_MASK = state) 2 100000 h in (i \<noteq> 0, h))"

section \<open>Laws\<close>

text \<open>The status the \<open>k\<close>-th round of a polling loop would read, had no earlier round succeeded.\<close>

primrec poll_state :: "'h gxp_io \<Rightarrow> u32 \<Rightarrow> nat \<Rightarrow> nat \<Rightarrow> 'h \<Rightarrow> 'h" where
  "poll_state io psm delay 0 h = h"
| "poll_state io psm delay (Suc k) h =
    poll_state io psm delay k (udelay io delay (snd (lpm_read_32_psm io psm PSM_REG_STATUS_OFFSET h)))"

definition poll_read :: "'h gxp_io \<Rightarrow> u32 \<Rightarrow> nat \<Rightarrow> nat \<Rightarrow> 'h \<Rightarrow> u32" where
  "poll_read io psm delay k h =
    fst (lpm_read_32_psm io psm PSM_REG_STATUS_OFFSET (poll_state io psm delay k h))"

lemma poll_status_zero_iff:
  "fst (poll_status io psm cond delay n h) = 0 \<longleftrightarrow> (\<forall>k<n. \<not> cond (poll_read io psm delay k h))"
proof (induction n arbitrary: h)
  case (Suc n)
  show ?case
    by (simp add: Suc.IH Let_def All_less_Suc2 poll_read_def split: prod.split)
qed simp

text \<open>Waiting for a power state is exact: \<open>gxp_lpm_wait_state_eq\<close> succeeds if and only if one of the
  100000 status reads it has time for shows the state, and \<open>gxp_lpm_wait_state_ne\<close> if and only if one of
  them shows another state.\<close>

theorem lpm_wait_state_exact:
  "(fst (gxp_lpm_wait_state_eq io psm state h) \<longleftrightarrow>
     (\<exists>k<100000. poll_read io psm 2 k h AND PSM_CURR_STATE_MASK = state)) \<and>
   (fst (gxp_lpm_wait_state_ne io psm state h) \<longleftrightarrow>
     (\<exists>k<100000. poll_read io psm 2 k h AND PSM_CURR_STATE_MASK \<noteq> state))"
proof -
  have exact: "fst (case poll_status io psm c d n h of (i, h) \<Rightarrow> (i \<noteq> 0, h)) \<longleftrightarrow>
      (\<exists>k<n. c (poll_read io psm d k h))" for c d n
    using poll_status_zero_iff [of io psm c d n h] by (auto split: prod.split)
  show ?thesis
    unfolding gxp_lpm_wait_state_eq_def gxp_lpm_wait_state_ne_def Let_def exact by simp
qed

lemma lpm_set_state_returns_0: "fst (gxp_lpm_set_state io psm target verbose h) = 0"
  by (simp add: gxp_lpm_set_state_def Let_def split: prod.split)

lemma psm_enable_fails_iff:
  "fst (psm_enable io psm h) \<noteq> 0 \<longleftrightarrow>
    (let r = gxp_lpm_is_initialized io psm h;
         h3 = lpm_write_32_psm io psm PSM_REG_START_OFFSET PSM_START (snd r)
     in \<not> fst r \<and> (\<nexists>k. k < 10000 \<and> psm_init_done (poll_read io psm 1 k h3)))"
proof -
  let ?h2 = "snd (gxp_lpm_is_initialized io psm h)"
  let ?h3 = "lpm_write_32_psm io psm PSM_REG_START_OFFSET PSM_START ?h2"
  have "fst (psm_enable io psm h) \<noteq> 0 \<longleftrightarrow> \<not> fst (gxp_lpm_is_initialized io psm h) \<and>
      fst (poll_status io psm psm_init_done 1 10000 ?h3) = 0"
    by (simp add: psm_enable_def Let_def case_prod_beta lpm_set_state_returns_0)
  then show ?thesis
    by (simp add: poll_status_zero_iff Let_def)
qed

text \<open>C26: Powering a core up reports a timeout if and only if the state machine of the core has not been
  started before (its status is not valid) and does not announce that it is done within 10000 reads
  after the start. In particular a state machine that was started before and refuses to go to the
  power-gated state is not reported: \<open>gxp_lpm_set_state\<close> drops the error of the transition.\<close>

theorem lpm_up_outcome:
  "let psm = CORE_TO_PSM core;
       h1 = gxp_doorbell_clear io (CORE_WAKEUP_DOORBELL core) h;
       (init, h2) = gxp_lpm_is_initialized io psm h1;
       h3 = lpm_write_32_psm io psm PSM_REG_START_OFFSET PSM_START h2
   in fst (gxp_lpm_up io core h) =
     (if \<not> init \<and> (\<nexists>k. k < 10000 \<and> psm_init_done (poll_read io psm 1 k h3)) then - ETIMEDOUT else 0)"
proof -
  let ?h1 = "gxp_doorbell_clear io (CORE_WAKEUP_DOORBELL core) h"
  have "fst (gxp_lpm_up io core h) =
      (if fst (psm_enable io (CORE_TO_PSM core) ?h1) \<noteq> 0 then - ETIMEDOUT else 0)"
    by (simp add: gxp_lpm_up_def Let_def case_prod_beta)
  then show ?thesis
    by (simp only: psm_enable_fails_iff Let_def case_prod_beta)
qed

lemmas psm_offset_defs = get_reg_offset_def gxp_lpm_psm_get_state_offset_def
  gxp_lpm_psm_get_start_offset_def gxp_lpm_psm_get_status_offset_def gxp_lpm_psm_get_cfg_offset_def
  gxp_lpm_psm_get_debug_cfg_offset_def gxp_lpm_psm_get_gpin_lo_rd_offset_def
  gxp_lpm_psm_get_gpout_lo_wrt_offset_def gxp_lpm_psm_get_gpout_lo_rd_offset_def
  GXP_LPM_PSM_0_BASE_def GXP_LPM_PSM_SIZE_def LPM_REG_ENABLE_STATE_0_def PSM_STATE_TABLE_SZ_def

text \<open>Register numbers in the order of their addresses, and the low part of their offsets.\<close>

lemma get_reg_offset_eq:
  "psm \<in> {0, 1, 2, 3, 4} \<Longrightarrow> reg \<in> {0, 1, 2, 3, 4, 5, 6, 7, 8, 9, 10} \<Longrightarrow>
    unat (get_reg_offset reg psm) = 4096 * (unat psm + 1) +
      [0x80, 0x180, 0x280, 0x380, 0x684, 0x688, 0x680, 0x68C, 0x6A0, 0x6A8, 0x6B0] ! unat reg"
  by (elim insertE emptyE; simp add: psm_offset_defs word_le_nat_alt word_less_nat_alt)

text \<open>No two registers of the power manager share an address: the offset determines the state machine
  and the register, so programming one state machine never touches another.\<close>

theorem psm_registers_distinct:
  "inj_on (\<lambda>(psm, reg). get_reg_offset reg psm) ({0, 1, 2, 3, 4} \<times> {0, 1, 2, 3, 4, 5, 6, 7, 8, 9, 10})"
proof (rule inj_onI, clarify)
  let ?low = "[0x80, 0x180, 0x280, 0x380, 0x684, 0x688, 0x680, 0x68C, 0x6A0, 0x6A8, 0x6B0 :: nat]"
  fix p r q t :: u32
  assume p: "p \<in> {0, 1, 2, 3, 4}" and r: "r \<in> {0, 1, 2, 3, 4, 5, 6, 7, 8, 9, 10}"
    and q: "q \<in> {0, 1, 2, 3, 4}" and t: "t \<in> {0, 1, 2, 3, 4, 5, 6, 7, 8, 9, 10}"
    and "get_reg_offset r p = get_reg_offset t q"
  then have eq: "4096 * (unat p + 1) + ?low ! unat r = 4096 * (unat q + 1) + ?low ! unat t"
    using get_reg_offset_eq [OF p r] get_reg_offset_eq [OF q t] by metis
  have idx: "unat r < length ?low" "unat t < length ?low"
    using r t by auto
  have "\<forall>x\<in>set ?low. x < 4096"
    by simp
  then have low: "?low ! unat r < 4096" "?low ! unat t < 4096"
    using idx by (metis nth_mem)+
  have quot: "(4096 * (a + 1) + x) div 4096 = a + 1" if "x < 4096" for a x :: nat
    using that by simp
  have "unat p = unat q"
    using arg_cong [OF eq, of "\<lambda>n. n div 4096"] low by (simp only: quot)
  with eq have "?low ! unat r = ?low ! unat t"
    by simp
  moreover have "distinct ?low"
    by simp
  ultimately have "unat r = unat t"
    using idx nth_eq_iff_index_eq by blast
  with \<open>unat p = unat q\<close> show "p = q \<and> r = t"
    by (simp add: word_unat_eq_iff)
qed

end
