(* ===== verification/Gxp_Pm.thy ===== *)
theory Gxp_Pm
  imports Gcip_Pm Gxp_Lpm
begin

text \<open>
  The power manager of the DSP driver (gxp-pm.c, gxp-pm.h) with its chip and SoC layers (callisto-pm.c,
  mobile-soc-gsx01.c) and the clock multiplexers (gxp-cmu.c): block power, votes of the clients for a
  power state and a memory state, the workers that pass the winning vote on, clock multiplexers,
  the busy counter and the callbacks the generic interface of gcip-pm.c calls.

  Functions of the kernel and of other drivers are the parameter \<open>X\<close> of type \<open>gxp_ext\<close>, an extension of
  the register accessors of \<open>gxp_io\<close>; they act on the hardware state of type \<open>'h\<close>. The two optional
  hooks of the platform driver around block power, which start and stop the firmware of the control
  processor, are the parameter \<open>H\<close>. Functions that run under \<open>pm_lock\<close> or \<open>busy_lock\<close> are one step.
\<close>

section \<open>Power states\<close>

text \<open>Power states and memory states are their C numbers.\<close>

abbreviation (input) AUR_OFF :: nat where "AUR_OFF \<equiv> 0"
abbreviation (input) AUR_READY :: nat where "AUR_READY \<equiv> 1"
abbreviation (input) AUR_UUD :: nat where "AUR_UUD \<equiv> 2"
abbreviation (input) AUR_UUD_PLUS :: nat where "AUR_UUD_PLUS \<equiv> 8"
abbreviation (input) AUR_SUD :: nat where "AUR_SUD \<equiv> 11"
abbreviation (input) AUR_SUD_PLUS :: nat where "AUR_SUD_PLUS \<equiv> 14"
abbreviation (input) AUR_UD :: nat where "AUR_UD \<equiv> 16"
abbreviation (input) AUR_UD_PLUS :: nat where "AUR_UD_PLUS \<equiv> 18"
abbreviation (input) AUR_NOM :: nat where "AUR_NOM \<equiv> 21"
abbreviation (input) AUR_OVERDRIVE :: nat where "AUR_OVERDRIVE \<equiv> 22"
abbreviation (input) AUR_MEM_UNDEFINED :: nat where "AUR_MEM_UNDEFINED \<equiv> 0"
abbreviation (input) AUR_MEM_MAX :: nat where "AUR_MEM_MAX \<equiv> 6"

abbreviation (input) AUR_NUM_POWER_STATE :: nat where "AUR_NUM_POWER_STATE \<equiv> 23"
abbreviation (input) AUR_NUM_MEMORY_POWER_STATE :: nat where "AUR_NUM_MEMORY_POWER_STATE \<equiv> 7"
abbreviation (input) AUR_INIT_DVFS_STATE :: nat where "AUR_INIT_DVFS_STATE \<equiv> AUR_UUD"
abbreviation (input) AUR_MAX_ALLOW_STATE :: nat where "AUR_MAX_ALLOW_STATE \<equiv> AUR_OVERDRIVE"
abbreviation (input) AUR_MAX_ALLOW_MEMORY_STATE :: nat where "AUR_MAX_ALLOW_MEMORY_STATE \<equiv> AUR_MEM_MAX"
abbreviation (input) AUR_NUM_POWER_STATE_WORKER :: nat where "AUR_NUM_POWER_STATE_WORKER \<equiv> 4"

definition aur_power_state2rate :: "u64 list" where
  "aur_power_state2rate =
    [0, 178000, 178000, 178000, 178000, 178000, 178000, 178000, 256000, 256000, 256000, 355000,
     355000, 355000, 525000, 525000, 713000, 713000, 861000, 861000, 861000, 1065000, 1065000]"

definition aur_state_array :: "nat list" where
  "aur_state_array = [0, 1, 2, 3, 4, 5, 6, 7, 8, 9, 10, 11, 12, 13, 14, 15, 16, 17, 18, 19, 20, 21, 22]"

definition aur_memory_state_array :: "nat list" where
  "aur_memory_state_array = [0, 1, 2, 3, 4, 5, 6]"

record gxp_power_states =
  ps_power :: nat
  ps_memory :: nat
  ps_low_clkmux :: bool

definition off_states :: gxp_power_states where
  "off_states = \<lparr>ps_power = AUR_OFF, ps_memory = AUR_MEM_UNDEFINED, ps_low_clkmux = False\<rparr>"

definition uud_states :: gxp_power_states where
  "uud_states = \<lparr>ps_power = AUR_UUD, ps_memory = AUR_MEM_UNDEFINED, ps_low_clkmux = False\<rparr>"

section \<open>State\<close>

record gxp_set_acpm_state_work =
  aw_state :: nat
  aw_prev_state :: nat
  aw_low_clkmux :: bool
  aw_prev_low_clkmux :: bool
  aw_using :: bool

record gxp_req_pm_qos_work =
  qw_pm_value :: u64
  qw_using :: bool

text \<open>The work items on the single-threaded work queue, by the index of their worker.\<close>

datatype pm_work = Acpm_Work nat | Qos_Work nat

record 'h gxp_power_manager =
  pwr_state_req_count :: "u32 list"
  low_clkmux_pwr_state_req_count :: "u32 list"
  mem_pwr_state_req_count :: "u32 list"
  curr_low_clkmux :: bool
  last_scheduled_low_clkmux :: bool
  min_freq_limit :: u32
  max_freq_limit :: u32
  curr_state :: nat
  curr_memory_state :: nat
  set_acpm_state_work :: "gxp_set_acpm_state_work list"
  last_set_acpm_state_worker :: nat
  req_pm_qos_work :: "gxp_req_pm_qos_work list"
  last_req_pm_qos_worker :: nat
  pm_wq :: "pm_work list"
  bcl_dev :: bool
  force_mux_normal_count :: int
  thermal_limit :: u64
  blk_switch_count :: u64
  aur_status :: bool \<comment> \<open>whether the PMU status register is mapped\<close>
  busy_count :: u64
  cmu_mapped :: bool
  sysreg_shareability :: bool
  slow_clk_on_idle :: bool
  debugfs_wakelock_held :: bool
  hw :: 'h

datatype qos_class = INT_MIN | MIF_MIN | BCI_MIN | DSU_MIN

record 'h gxp_ext = "'h gxp_io" +
  pm_runtime_resume_and_get :: "'h \<Rightarrow> int \<times> 'h"
  pm_runtime_put_sync :: "'h \<Rightarrow> int \<times> 'h"
  exynos_acpm_set_rate :: "u32 \<Rightarrow> u64 \<Rightarrow> 'h \<Rightarrow> int \<times> 'h"
  exynos_acpm_get_rate :: "u32 \<Rightarrow> u64 \<Rightarrow> 'h \<Rightarrow> u64 \<times> 'h"
  exynos_pm_qos_update_request :: "qos_class \<Rightarrow> u32 \<Rightarrow> 'h \<Rightarrow> 'h"
  exynos_pm_qos_read_req_value :: "qos_class \<Rightarrow> 'h \<Rightarrow> u32"
  exynos_pm_qos_add_request :: "qos_class \<Rightarrow> u32 \<Rightarrow> 'h \<Rightarrow> 'h"
  exynos_pm_qos_remove_request :: "qos_class \<Rightarrow> 'h \<Rightarrow> 'h"
  pm_runtime_enable :: "'h \<Rightarrow> 'h"
  pm_runtime_disable :: "'h \<Rightarrow> 'h"
  google_init_aur_ratio :: "'h \<Rightarrow> int \<times> 'h"
  google_retrieve_bcl_handle :: "'h \<Rightarrow> bool"
  set_acpm_tj_power_status :: "bool \<Rightarrow> 'h \<Rightarrow> int \<times> 'h"
  usleep_range :: "nat \<Rightarrow> nat \<Rightarrow> 'h \<Rightarrow> 'h"
  gxp_kci_set_freq_limits :: "u32 \<Rightarrow> u32 \<Rightarrow> 'h \<Rightarrow> int \<times> 'h"

record 'h gxp_pm_hooks =
  pm_after_blk_on :: "('h gxp_power_manager \<Rightarrow> int \<times> 'h gxp_power_manager) option"
  pm_before_blk_off :: "('h gxp_power_manager \<Rightarrow> int \<times> 'h gxp_power_manager) option"

text \<open>A call that acts on the hardware state only, from inside the power manager.\<close>

definition on_hw :: "('h \<Rightarrow> 'h) \<Rightarrow> 'h gxp_power_manager \<Rightarrow> 'h gxp_power_manager" where
  "on_hw f mgr = mgr\<lparr>hw := f (hw mgr)\<rparr>"

definition call_hw :: "('h \<Rightarrow> 'a \<times> 'h) \<Rightarrow> 'h gxp_power_manager \<Rightarrow> 'a \<times> 'h gxp_power_manager" where
  "call_hw f mgr = (let (r, h) = f (hw mgr) in (r, mgr\<lparr>hw := h\<rparr>))"

section \<open>Clock multiplexers\<close>

abbreviation (input) PLL_CON0_PLL_AUR :: u32 where "PLL_CON0_PLL_AUR \<equiv> 0x100"
abbreviation (input) PLL_CON0_NOC_USER :: u32 where "PLL_CON0_NOC_USER \<equiv> 0x610"
abbreviation (input) AUR_CMU_MUX_LOW :: u32 where "AUR_CMU_MUX_LOW \<equiv> 0"
abbreviation (input) AUR_CMU_MUX_NORMAL :: u32 where "AUR_CMU_MUX_NORMAL \<equiv> 1"

definition GXP_CMU_MUX_STATE_SHIFT :: nat where "GXP_CMU_MUX_STATE_SHIFT = 4"

definition gxp_cmu_reg_read_32 ::
    "('h, 'x) gxp_ext_scheme \<Rightarrow> u32 \<Rightarrow> 'h gxp_power_manager \<Rightarrow> u32 \<times> 'h gxp_power_manager" where
  "gxp_cmu_reg_read_32 X offset mgr = call_hw (readl X CMU_REGS offset) mgr"

definition gxp_cmu_reg_write_32 ::
    "('h, 'x) gxp_ext_scheme \<Rightarrow> u32 \<Rightarrow> u32 \<Rightarrow> 'h gxp_power_manager \<Rightarrow> 'h gxp_power_manager" where
  "gxp_cmu_reg_write_32 X offset value mgr = on_hw (writel X value CMU_REGS offset) mgr"

definition gxp_cmu_get_mux_state ::
    "('h, 'x) gxp_ext_scheme \<Rightarrow> u32 \<Rightarrow> 'h gxp_power_manager \<Rightarrow> (int + u32) \<times> 'h gxp_power_manager" where
  "gxp_cmu_get_mux_state X mux_offset mgr =
    (if \<not> cmu_mapped mgr then (Inl (- ENODEV), mgr)
     else let (v, mgr) = gxp_cmu_reg_read_32 X mux_offset mgr in (Inr v, mgr))"

definition gxp_cmu_set_mux_state ::
    "('h, 'x) gxp_ext_scheme \<Rightarrow> u32 \<Rightarrow> u32 \<Rightarrow> 'h gxp_power_manager \<Rightarrow> int \<times> 'h gxp_power_manager" where
  "gxp_cmu_set_mux_state X mux_offset state mgr =
    (if \<not> cmu_mapped mgr then (- ENODEV, mgr)
     else if state > 1 then (- EINVAL, mgr)
     else (0, gxp_cmu_reg_write_32 X mux_offset (push_bit GXP_CMU_MUX_STATE_SHIFT state) mgr))"

definition gxp_cmu_set_mux_normal ::
    "('h, 'x) gxp_ext_scheme \<Rightarrow> 'h gxp_power_manager \<Rightarrow> 'h gxp_power_manager" where
  "gxp_cmu_set_mux_normal X mgr =
    snd (gxp_cmu_set_mux_state X PLL_CON0_NOC_USER AUR_CMU_MUX_NORMAL
      (snd (gxp_cmu_set_mux_state X PLL_CON0_PLL_AUR AUR_CMU_MUX_NORMAL mgr)))"

definition gxp_cmu_set_mux_low ::
    "('h, 'x) gxp_ext_scheme \<Rightarrow> 'h gxp_power_manager \<Rightarrow> 'h gxp_power_manager" where
  "gxp_cmu_set_mux_low X mgr =
    snd (gxp_cmu_set_mux_state X PLL_CON0_NOC_USER AUR_CMU_MUX_LOW
      (snd (gxp_cmu_set_mux_state X PLL_CON0_PLL_AUR AUR_CMU_MUX_LOW mgr)))"

section \<open>The SoC layer\<close>

datatype gxp_soc_qos_request = MEMORY_INT_QOS_REQ | COHERENT_FABRIC_QOS_REQ

definition aur_memory_state2int_table :: "u32 list" where
  "aur_memory_state2int_table = [0, 0, 0, 356000, 664000, 799000, 1066000]"

definition aur_memory_state2mif_table :: "u32 list" where
  "aur_memory_state2mif_table = [0, 0, 0, 1014000, 1352000, 2028000, 3744000]"

text \<open>The unit \<open>KHZ_PER_MHZ\<close> is an \<open>unsigned long\<close>: the signed values are extended to 64 bits first.\<close>

definition PM_QOS_FACTOR :: u64 where "PM_QOS_FACTOR = 1000"
definition PM_QOS_INT_SHIFT :: nat where "PM_QOS_INT_SHIFT = 16"
definition PM_QOS_MIF_MASK :: u64 where "PM_QOS_MIF_MASK = 0xFFFF"

definition pm_arg_encode :: "gxp_soc_qos_request \<Rightarrow> u32 \<Rightarrow> u32 \<Rightarrow> u64" where
  "pm_arg_encode qos_request qos_val_1 qos_val_2 =
    push_bit PM_QOS_INT_SHIFT (scast qos_val_1 div PM_QOS_FACTOR) OR (scast qos_val_2 div PM_QOS_FACTOR)"

definition pm_arg_decode :: "gxp_soc_qos_request \<Rightarrow> u64 \<Rightarrow> u32 \<times> u32" where
  "pm_arg_decode qos_request value =
    (ucast (drop_bit PM_QOS_INT_SHIFT value * PM_QOS_FACTOR),
     ucast ((value AND PM_QOS_MIF_MASK) * PM_QOS_FACTOR))"

definition gxp_soc_set_pm_arg_from_state :: "gxp_req_pm_qos_work \<Rightarrow> nat \<Rightarrow> gxp_req_pm_qos_work" where
  "gxp_soc_set_pm_arg_from_state work state =
    work\<lparr>qw_pm_value := pm_arg_encode MEMORY_INT_QOS_REQ
      (aur_memory_state2int_table ! state) (aur_memory_state2mif_table ! state)\<rparr>"

definition gxp_soc_pm_init :: "('h, 'x) gxp_ext_scheme \<Rightarrow> 'h \<Rightarrow> 'h" where
  "gxp_soc_pm_init X h =
    exynos_pm_qos_add_request X DSU_MIN 0 (exynos_pm_qos_add_request X BCI_MIN 0
      (exynos_pm_qos_add_request X MIF_MIN 0 (exynos_pm_qos_add_request X INT_MIN 0 h)))"

definition gxp_soc_pm_exit :: "('h, 'x) gxp_ext_scheme \<Rightarrow> 'h \<Rightarrow> 'h" where
  "gxp_soc_pm_exit X h =
    exynos_pm_qos_remove_request X INT_MIN (exynos_pm_qos_remove_request X MIF_MIN
      (exynos_pm_qos_remove_request X BCI_MIN (exynos_pm_qos_remove_request X DSU_MIN h)))"

definition gxp_soc_pm_set_request ::
    "('h, 'x) gxp_ext_scheme \<Rightarrow> gxp_soc_qos_request \<Rightarrow> u64 \<Rightarrow> 'h \<Rightarrow> 'h" where
  "gxp_soc_pm_set_request X qos_request value h =
    (let (v1, v2) = pm_arg_decode qos_request value in
     case qos_request of
       MEMORY_INT_QOS_REQ \<Rightarrow> exynos_pm_qos_update_request X MIF_MIN v2 (exynos_pm_qos_update_request X INT_MIN v1 h)
     | COHERENT_FABRIC_QOS_REQ \<Rightarrow>
         exynos_pm_qos_update_request X DSU_MIN v2 (exynos_pm_qos_update_request X BCI_MIN v1 h))"

definition gxp_soc_pm_get_request :: "('h, 'x) gxp_ext_scheme \<Rightarrow> gxp_soc_qos_request \<Rightarrow> 'h \<Rightarrow> u64" where
  "gxp_soc_pm_get_request X qos_request h =
    (case qos_request of
       MEMORY_INT_QOS_REQ \<Rightarrow> pm_arg_encode qos_request
         (exynos_pm_qos_read_req_value X INT_MIN h) (exynos_pm_qos_read_req_value X MIF_MIN h)
     | COHERENT_FABRIC_QOS_REQ \<Rightarrow> pm_arg_encode qos_request
         (exynos_pm_qos_read_req_value X BCI_MIN h) (exynos_pm_qos_read_req_value X DSU_MIN h))"

definition gxp_soc_pm_reset :: "('h, 'x) gxp_ext_scheme \<Rightarrow> 'h \<Rightarrow> 'h" where
  "gxp_soc_pm_reset X h =
    exynos_pm_qos_update_request X DSU_MIN 0 (exynos_pm_qos_update_request X BCI_MIN 0
      (exynos_pm_qos_update_request X MIF_MIN 0 (exynos_pm_qos_update_request X INT_MIN 0 h)))"

definition gxp_soc_pm_set_rate :: "('h, 'x) gxp_ext_scheme \<Rightarrow> u32 \<Rightarrow> u64 \<Rightarrow> 'h \<Rightarrow> int \<times> 'h" where
  "gxp_soc_pm_set_rate X i rate h = exynos_acpm_set_rate X i rate h"

definition gxp_soc_pm_get_rate :: "('h, 'x) gxp_ext_scheme \<Rightarrow> u32 \<Rightarrow> u64 \<Rightarrow> 'h \<Rightarrow> u64 \<times> 'h" where
  "gxp_soc_pm_get_rate X i dbg_val h = exynos_acpm_get_rate X i dbg_val h"

abbreviation io_of :: "('h, 'x) gxp_ext_scheme \<Rightarrow> 'h gxp_io" where
  "io_of X \<equiv> gxp_io.truncate X"

definition gxp_soc_lpm_init :: "('h, 'x) gxp_ext_scheme \<Rightarrow> 'h \<Rightarrow> 'h" where
  "gxp_soc_lpm_init X h = gxp_lpm_init (io_of X) h"

definition gxp_soc_lpm_destroy :: "('h, 'x) gxp_ext_scheme \<Rightarrow> 'h \<Rightarrow> 'h" where
  "gxp_soc_lpm_destroy X h = gxp_lpm_destroy (io_of X) h"

section \<open>The chip layer\<close>

definition gxp_iommu_setup_shareability ::
    "('h, 'x) gxp_ext_scheme \<Rightarrow> 'h gxp_power_manager \<Rightarrow> 'h gxp_power_manager" where
  "gxp_iommu_setup_shareability X mgr =
    (if \<not> sysreg_shareability mgr then mgr
     else
       let v = push_bit 13 1 OR push_bit 12 1 OR 1;
           mgr = on_hw (writel X v SYSREG_SHAREABILITY 0) mgr
       in on_hw (writel X v SYSREG_SHAREABILITY 4) mgr)"

definition callisto_after_blk_power_up ::
    "('h, 'x) gxp_ext_scheme \<Rightarrow> 'h gxp_power_manager \<Rightarrow> int \<times> 'h gxp_power_manager" where
  "callisto_after_blk_power_up X mgr =
    (let mgr = (if bcl_dev mgr then snd (call_hw (google_init_aur_ratio X) mgr) else mgr) in
     call_hw (set_acpm_tj_power_status X True) mgr)"

definition callisto_before_blk_power_down ::
    "('h, 'x) gxp_ext_scheme \<Rightarrow> 'h gxp_power_manager \<Rightarrow> int \<times> 'h gxp_power_manager" where
  "callisto_before_blk_power_down X mgr =
    (let (active, mgr) = call_hw (gxp_lpm_wait_state_eq (io_of X) LPM_PSM_TOP LPM_ACTIVE_STATE) mgr in
     if \<not> active then (- EAGAIN, mgr)
     else (0, snd (call_hw (set_acpm_tj_power_status X False) mgr)))"

definition gxp_pm_is_blk_down ::
    "('h, 'x) gxp_ext_scheme \<Rightarrow> 'h gxp_power_manager \<Rightarrow> bool \<times> 'h gxp_power_manager" where
  "gxp_pm_is_blk_down X mgr =
    (if aur_status mgr then
       let (v, mgr) = call_hw (readl X PMU_REGS 0) mgr in (v = 0, mgr)
     else (curr_state mgr = AUR_OFF, mgr))"

section \<open>Block power\<close>

definition gxp_pm_blkpwr_up ::
    "('h, 'x) gxp_ext_scheme \<Rightarrow> 'h gxp_power_manager \<Rightarrow> int \<times> 'h gxp_power_manager" where
  "gxp_pm_blkpwr_up X mgr =
    (let (ret, mgr) = call_hw (pm_runtime_resume_and_get X) mgr in
     if ret \<noteq> 0 then (ret, mgr)
     else
       let (ret, mgr) = callisto_after_blk_power_up X mgr in
       if ret \<noteq> 0 then (ret, snd (call_hw (pm_runtime_put_sync X) mgr)) else (0, mgr))"

definition gxp_pm_blkpwr_down ::
    "('h, 'x) gxp_ext_scheme \<Rightarrow> 'h gxp_power_manager \<Rightarrow> int \<times> 'h gxp_power_manager" where
  "gxp_pm_blkpwr_down X mgr =
    (let (ret, mgr) = callisto_before_blk_power_down X mgr in
     if ret \<noteq> 0 then (ret, mgr)
     else
       let (ret, mgr) = call_hw (pm_runtime_put_sync X) mgr in
       (ret, on_hw (gxp_soc_pm_reset X) mgr))"

abbreviation (input) AUR_DVFS_DOMAIN :: u32 where "AUR_DVFS_DOMAIN \<equiv> 19"

definition gxp_pm_blk_set_rate ::
    "('h, 'x) gxp_ext_scheme \<Rightarrow> 'h gxp_power_manager \<Rightarrow> u64 \<Rightarrow> int \<times> 'h gxp_power_manager" where
  "gxp_pm_blk_set_rate X mgr rate = call_hw (gxp_soc_pm_set_rate X AUR_DVFS_DOMAIN rate) mgr"

text \<open>The thermal limit decides on a warning only.\<close>

definition gxp_pm_blk_set_state_acpm ::
    "('h, 'x) gxp_ext_scheme \<Rightarrow> 'h gxp_power_manager \<Rightarrow> nat \<Rightarrow> int \<times> 'h gxp_power_manager" where
  "gxp_pm_blk_set_state_acpm X mgr state = gxp_pm_blk_set_rate X mgr (aur_power_state2rate ! state)"

definition BUSY_COUNT_OFF :: u64 where "BUSY_COUNT_OFF = NOT 0"

definition gxp_pm_can_busy :: "'h gxp_power_manager \<Rightarrow> 'h gxp_power_manager" where
  "gxp_pm_can_busy mgr = mgr\<lparr>busy_count := 0\<rparr>"

definition gxp_pm_no_busy :: "'h gxp_power_manager \<Rightarrow> 'h gxp_power_manager" where
  "gxp_pm_no_busy mgr = mgr\<lparr>busy_count := BUSY_COUNT_OFF\<rparr>"

definition gxp_pm_force_clkmux_normal ::
    "('h, 'x) gxp_ext_scheme \<Rightarrow> 'h gxp_power_manager \<Rightarrow> 'h gxp_power_manager" where
  "gxp_pm_force_clkmux_normal X mgr =
    (let mgr = (if curr_low_clkmux mgr then gxp_cmu_set_mux_normal X mgr else mgr) in
     mgr\<lparr>force_mux_normal_count := force_mux_normal_count mgr + 1\<rparr>)"

definition gxp_pm_resume_clkmux ::
    "('h, 'x) gxp_ext_scheme \<Rightarrow> 'h gxp_power_manager \<Rightarrow> 'h gxp_power_manager" where
  "gxp_pm_resume_clkmux X mgr =
    (let mgr = mgr\<lparr>force_mux_normal_count := force_mux_normal_count mgr - 1\<rparr> in
     if force_mux_normal_count mgr = 0 \<and> curr_low_clkmux mgr then gxp_cmu_set_mux_low X mgr else mgr)"

definition gxp_pm_blk_set_state_acpm_async ::
    "('h, 'x) gxp_ext_scheme \<Rightarrow> 'h gxp_power_manager \<Rightarrow> nat \<Rightarrow> 'h gxp_power_manager" where
  "gxp_pm_blk_set_state_acpm_async X mgr i =
    (let work = set_acpm_state_work mgr ! i;
         mgr = (if curr_state mgr = AUR_OFF then mgr
                else
                  let scheduled = aw_low_clkmux work;
                      prev = aw_prev_low_clkmux work;
                      is_core_booting = force_mux_normal_count mgr \<noteq> 0;
                      mgr = (if scheduled \<noteq> prev \<and> \<not> is_core_booting then
                               if prev then gxp_cmu_set_mux_normal X mgr
                               else if scheduled then gxp_cmu_set_mux_low X mgr
                               else mgr
                             else mgr);
                      mgr = mgr\<lparr>curr_low_clkmux := scheduled\<rparr>
                  in snd (gxp_pm_blk_set_state_acpm X mgr (aw_state work)))
     in mgr\<lparr>set_acpm_state_work := (set_acpm_state_work mgr)[i := (set_acpm_state_work mgr ! i)\<lparr>aw_using := False\<rparr>]\<rparr>)"

definition AUR_DVFS_DEBUG_REQ :: u64 where "AUR_DVFS_DEBUG_REQ = push_bit 31 1"
definition AUR_DEBUG_CORE_FREQ :: u64 where "AUR_DEBUG_CORE_FREQ = AUR_DVFS_DEBUG_REQ OR push_bit 27 3"

text \<open>The 64-bit rate is returned as a C \<open>int\<close>.\<close>

definition gxp_pm_blk_get_rate ::
    "('h, 'x) gxp_ext_scheme \<Rightarrow> 'h gxp_power_manager \<Rightarrow> u32 \<times> 'h gxp_power_manager" where
  "gxp_pm_blk_get_rate X mgr =
    (let (r, mgr) = call_hw (gxp_soc_pm_get_rate X AUR_DVFS_DOMAIN AUR_DEBUG_CORE_FREQ) mgr in (ucast r, mgr))"

definition gxp_pm_blk_on ::
    "('h, 'x) gxp_ext_scheme \<Rightarrow> 'h gxp_power_manager \<Rightarrow> int \<times> 'h gxp_power_manager" where
  "gxp_pm_blk_on X mgr =
    (let (ret, mgr) = gxp_pm_blkpwr_up X mgr in
     if ret \<noteq> 0 then (ret, mgr)
     else
       let mgr = snd (gxp_pm_blk_set_state_acpm X mgr AUR_INIT_DVFS_STATE);
           mgr = mgr\<lparr>curr_state := AUR_INIT_DVFS_STATE\<rparr>;
           mgr = gxp_iommu_setup_shareability X mgr;
           mgr = on_hw (gxp_soc_lpm_init X) mgr;
           mgr = mgr\<lparr>blk_switch_count := blk_switch_count mgr + 1\<rparr>
       in (ret, gxp_pm_can_busy mgr))"

definition gxp_pm_blk_off ::
    "('h, 'x) gxp_ext_scheme \<Rightarrow> 'h gxp_power_manager \<Rightarrow> int \<times> 'h gxp_power_manager" where
  "gxp_pm_blk_off X mgr =
    (if curr_state mgr = AUR_OFF then (0, mgr)
     else
       let mgr = gxp_pm_no_busy mgr;
           mgr = gxp_cmu_set_mux_normal X mgr;
           mgr = on_hw (gxp_soc_lpm_destroy X) mgr;
           (ret, mgr) = gxp_pm_blkpwr_down X mgr
       in if ret = 0 then (ret, mgr\<lparr>curr_state := AUR_OFF\<rparr>) else (ret, mgr))"

text \<open>
  The polling loop of \<open>gxp_pm_is_blk_down_timeout\<close>: the test comes after the body, so there is at least
  one round. The bound is computed in 32 bits and compared as a C \<open>int\<close>.
\<close>

fun blk_down_poll ::
    "('h, 'x) gxp_ext_scheme \<Rightarrow> nat \<Rightarrow> 'h gxp_power_manager \<Rightarrow> bool \<times> 'h gxp_power_manager" where
  "blk_down_poll X 0 mgr = (False, mgr)"
| "blk_down_poll X (Suc n) mgr =
    (let (down, mgr) = gxp_pm_is_blk_down X mgr in
     if down then (True, mgr)
     else blk_down_poll X n (on_hw (usleep_range X 200 400) mgr))"

definition blk_down_rounds :: "u32 \<Rightarrow> nat" where
  "blk_down_rounds timeout_ms = max 1 (nat (sint ((timeout_ms * 1000) div 200)))"

definition gxp_pm_is_blk_down_timeout ::
    "('h, 'x) gxp_ext_scheme \<Rightarrow> 'h gxp_power_manager \<Rightarrow> u32 \<Rightarrow> bool \<times> 'h gxp_power_manager" where
  "gxp_pm_is_blk_down_timeout X mgr timeout_ms =
    (if \<not> aur_status mgr then (curr_state mgr = AUR_OFF, mgr)
     else blk_down_poll X (blk_down_rounds timeout_ms) mgr)"

definition gxp_pm_blk_reboot ::
    "('h, 'x) gxp_ext_scheme \<Rightarrow> 'h gxp_power_manager \<Rightarrow> u32 \<Rightarrow> int \<times> 'h gxp_power_manager" where
  "gxp_pm_blk_reboot X mgr timeout_ms =
    (let (ret, mgr) = gxp_pm_blk_off X mgr in
     if ret \<noteq> 0 then (ret, mgr)
     else
       let (down, mgr) = gxp_pm_is_blk_down_timeout X mgr timeout_ms in
       if \<not> down then (- EBUSY, mgr) else gxp_pm_blk_on X mgr)"

text \<open>The counter of 64 bits is returned as a C \<open>int\<close>.\<close>

definition gxp_pm_get_blk_switch_count :: "'h gxp_power_manager \<Rightarrow> u32" where
  "gxp_pm_get_blk_switch_count mgr = ucast (blk_switch_count mgr)"

definition gxp_pm_get_blk_state :: "'h gxp_power_manager \<Rightarrow> nat" where
  "gxp_pm_get_blk_state mgr = curr_state mgr"

definition gxp_pm_core_on ::
    "('h, 'x) gxp_ext_scheme \<Rightarrow> 'h gxp_power_manager \<Rightarrow> u32 \<Rightarrow> int \<times> 'h gxp_power_manager" where
  "gxp_pm_core_on X mgr core =
    (let (init, mgr) = call_hw (gxp_lpm_is_initialized (io_of X) LPM_PSM_TOP) mgr in
     if \<not> init then (- EINVAL, mgr) else call_hw (gxp_lpm_up (io_of X) core) mgr)"

definition gxp_pm_core_off ::
    "('h, 'x) gxp_ext_scheme \<Rightarrow> 'h gxp_power_manager \<Rightarrow> u32 \<Rightarrow> 'h gxp_power_manager" where
  "gxp_pm_core_off X mgr core =
    (let (init, mgr) = call_hw (gxp_lpm_is_initialized (io_of X) LPM_PSM_TOP) mgr in
     if \<not> init then mgr else on_hw (gxp_lpm_down (io_of X) core) mgr)"

section \<open>Votes\<close>

text \<open>The first index from \<open>i\<close> on at which the predicate holds, the length of the array if there is none.\<close>

fun first_index :: "('a \<Rightarrow> bool) \<Rightarrow> 'a list \<Rightarrow> nat" where
  "first_index P [] = 0"
| "first_index P (x # xs) = (if P x then 0 else Suc (first_index P xs))"

definition gxp_pm_req_state_locked ::
    "'h gxp_power_manager \<Rightarrow> nat \<Rightarrow> bool \<Rightarrow> int \<times> 'h gxp_power_manager" where
  "gxp_pm_req_state_locked mgr state low_clkmux_vote =
    (if state > AUR_MAX_ALLOW_STATE then (- EINVAL, mgr)
     else if curr_state mgr = AUR_OFF then (- EBUSY, mgr)
     else if state = AUR_OFF then (0, mgr)
     else if state \<noteq> curr_state mgr \<or> low_clkmux_vote \<noteq> last_scheduled_low_clkmux mgr then
       let ws = set_acpm_state_work mgr;
           i = first_index (\<lambda>w. \<not> aw_using w) (take AUR_NUM_POWER_STATE_WORKER ws);
           (i, ws) =
             (if i = AUR_NUM_POWER_STATE_WORKER then (last_set_acpm_state_worker mgr, ws)
              else (i, ws[i := (ws ! i)\<lparr>aw_prev_state := curr_state mgr,
                                       aw_prev_low_clkmux := last_scheduled_low_clkmux mgr\<rparr>]));
           ws = ws[i := (ws ! i)\<lparr>aw_state := state, aw_low_clkmux := low_clkmux_vote\<rparr>];
           (ws, wq) =
             (if \<not> aw_using (ws ! i)
              then (ws[i := (ws ! i)\<lparr>aw_using := True\<rparr>], pm_wq mgr @ [Acpm_Work i])
              else (ws, pm_wq mgr))
       in (0, mgr\<lparr>set_acpm_state_work := ws, pm_wq := wq, curr_state := state,
                  last_scheduled_low_clkmux := low_clkmux_vote, last_set_acpm_state_worker := i\<rparr>)
     else (0, mgr))"

text \<open>
  The two vote tables of the power states: \<open>low\<close> selects the one for votes that accept the low clock
  frequency. The loops look for the entry of the state in \<open>aur_state_array\<close>.
\<close>

definition vote_down :: "nat list \<Rightarrow> nat \<Rightarrow> u32 list \<Rightarrow> u32 list" where
  "vote_down arr state counts =
    (let i = first_index (\<lambda>a. a = state) arr in
     if i < length arr then (if counts ! i = 0 then counts else counts[i := counts ! i - 1]) else counts)"

definition vote_up :: "nat list \<Rightarrow> nat \<Rightarrow> u32 list \<Rightarrow> u32 list" where
  "vote_up arr state counts =
    (let i = first_index (\<lambda>a. a = state) arr in
     if i < length arr then counts[i := counts ! i + 1] else counts)"

definition gxp_pm_revoke_power_state_vote ::
    "'h gxp_power_manager \<Rightarrow> nat \<Rightarrow> bool \<Rightarrow> 'h gxp_power_manager" where
  "gxp_pm_revoke_power_state_vote mgr revoked_state low =
    (if revoked_state = AUR_OFF then mgr
     else if \<not> low
     then mgr\<lparr>pwr_state_req_count := vote_down aur_state_array revoked_state (pwr_state_req_count mgr)\<rparr>
     else mgr\<lparr>low_clkmux_pwr_state_req_count :=
                vote_down aur_state_array revoked_state (low_clkmux_pwr_state_req_count mgr)\<rparr>)"

definition gxp_pm_vote_power_state ::
    "'h gxp_power_manager \<Rightarrow> nat \<Rightarrow> bool \<Rightarrow> 'h gxp_power_manager" where
  "gxp_pm_vote_power_state mgr state low =
    (if state = AUR_OFF then mgr
     else if \<not> low
     then mgr\<lparr>pwr_state_req_count := vote_up aur_state_array state (pwr_state_req_count mgr)\<rparr>
     else mgr\<lparr>low_clkmux_pwr_state_req_count :=
                vote_up aur_state_array state (low_clkmux_pwr_state_req_count mgr)\<rparr>)"

text \<open>The loop from index \<open>n - 1\<close> down to 0 for an entry with a vote.\<close>

fun max_voted :: "nat list \<Rightarrow> u32 list \<Rightarrow> nat \<Rightarrow> nat option" where
  "max_voted arr counts 0 = None"
| "max_voted arr counts (Suc i) = (if counts ! i > 0 then Some (arr ! i) else max_voted arr counts i)"

definition gxp_pm_get_max_voted_power_state :: "'h gxp_power_manager \<Rightarrow> nat \<times> bool" where
  "gxp_pm_get_max_voted_power_state mgr =
    (let (state, low) =
       (case max_voted aur_state_array (pwr_state_req_count mgr) AUR_NUM_POWER_STATE of
          None \<Rightarrow> (AUR_OFF, False) | Some s \<Rightarrow> (s, False))
     in if state = AUR_OFF then
          (case max_voted aur_state_array (low_clkmux_pwr_state_req_count mgr) AUR_NUM_POWER_STATE of
             None \<Rightarrow> (state, True) | Some s \<Rightarrow> (s, True))
        else (state, low))"

definition gxp_pm_update_requested_power_state ::
    "'h gxp_power_manager \<Rightarrow> nat \<Rightarrow> bool \<Rightarrow> nat \<Rightarrow> bool \<Rightarrow> int \<times> 'h gxp_power_manager" where
  "gxp_pm_update_requested_power_state mgr origin_state origin_low requested_state requested_low =
    (let mgr = gxp_pm_revoke_power_state_vote mgr origin_state origin_low;
         mgr = gxp_pm_vote_power_state mgr requested_state requested_low;
         (max_state, low) = gxp_pm_get_max_voted_power_state mgr
     in gxp_pm_req_state_locked mgr max_state low)"

definition gxp_pm_req_pm_qos_async ::
    "('h, 'x) gxp_ext_scheme \<Rightarrow> 'h gxp_power_manager \<Rightarrow> nat \<Rightarrow> 'h gxp_power_manager" where
  "gxp_pm_req_pm_qos_async X mgr i =
    (let mgr = (if curr_state mgr \<noteq> AUR_OFF
                then on_hw (gxp_soc_pm_set_request X MEMORY_INT_QOS_REQ (qw_pm_value (req_pm_qos_work mgr ! i))) mgr
                else mgr)
     in mgr\<lparr>req_pm_qos_work := (req_pm_qos_work mgr)[i := (req_pm_qos_work mgr ! i)\<lparr>qw_using := False\<rparr>]\<rparr>)"

definition gxp_pm_req_memory_state_locked ::
    "'h gxp_power_manager \<Rightarrow> nat \<Rightarrow> int \<times> 'h gxp_power_manager" where
  "gxp_pm_req_memory_state_locked mgr state =
    (if state > AUR_MAX_ALLOW_MEMORY_STATE then (- EINVAL, mgr)
     else if curr_state mgr = AUR_OFF then (- EBUSY, mgr)
     else if state \<noteq> curr_memory_state mgr then
       let ws = req_pm_qos_work mgr;
           i = first_index (\<lambda>w. \<not> qw_using w) (take AUR_NUM_POWER_STATE_WORKER ws);
           i = (if i = AUR_NUM_POWER_STATE_WORKER then last_req_pm_qos_worker mgr else i);
           ws = ws[i := gxp_soc_set_pm_arg_from_state (ws ! i) state];
           (ws, wq) =
             (if \<not> qw_using (ws ! i)
              then (ws[i := (ws ! i)\<lparr>qw_using := True\<rparr>], pm_wq mgr @ [Qos_Work i])
              else (ws, pm_wq mgr))
       in (0, mgr\<lparr>req_pm_qos_work := ws, pm_wq := wq, curr_memory_state := state,
                  last_req_pm_qos_worker := i\<rparr>)
     else (0, mgr))"

definition gxp_pm_revoke_memory_power_state_vote ::
    "'h gxp_power_manager \<Rightarrow> nat \<Rightarrow> 'h gxp_power_manager" where
  "gxp_pm_revoke_memory_power_state_vote mgr revoked_state =
    (if revoked_state = AUR_MEM_UNDEFINED then mgr
     else mgr\<lparr>mem_pwr_state_req_count :=
                vote_down aur_memory_state_array revoked_state (mem_pwr_state_req_count mgr)\<rparr>)"

definition gxp_pm_vote_memory_power_state ::
    "'h gxp_power_manager \<Rightarrow> nat \<Rightarrow> 'h gxp_power_manager" where
  "gxp_pm_vote_memory_power_state mgr state =
    (if state = AUR_MEM_UNDEFINED then mgr
     else mgr\<lparr>mem_pwr_state_req_count :=
                vote_up aur_memory_state_array state (mem_pwr_state_req_count mgr)\<rparr>)"

definition gxp_pm_get_max_voted_memory_power_state :: "'h gxp_power_manager \<Rightarrow> nat" where
  "gxp_pm_get_max_voted_memory_power_state mgr =
    (case max_voted aur_memory_state_array (mem_pwr_state_req_count mgr) AUR_NUM_MEMORY_POWER_STATE of
       None \<Rightarrow> AUR_MEM_UNDEFINED | Some s \<Rightarrow> s)"

definition gxp_pm_update_requested_memory_power_state ::
    "'h gxp_power_manager \<Rightarrow> nat \<Rightarrow> nat \<Rightarrow> int \<times> 'h gxp_power_manager" where
  "gxp_pm_update_requested_memory_power_state mgr origin_state requested_state =
    (let mgr = gxp_pm_revoke_memory_power_state_vote mgr origin_state;
         mgr = gxp_pm_vote_memory_power_state mgr requested_state
     in gxp_pm_req_memory_state_locked mgr (gxp_pm_get_max_voted_memory_power_state mgr))"

definition gxp_pm_update_requested_power_states ::
    "'h gxp_power_manager \<Rightarrow> gxp_power_states \<Rightarrow> gxp_power_states \<Rightarrow> int \<times> 'h gxp_power_manager" where
  "gxp_pm_update_requested_power_states mgr origin_vote requested_states =
    (let (ret, mgr) =
       (if ps_power origin_vote \<noteq> ps_power requested_states \<or>
           ps_low_clkmux origin_vote \<noteq> ps_low_clkmux requested_states
        then gxp_pm_update_requested_power_state mgr (ps_power origin_vote) (ps_low_clkmux origin_vote)
               (ps_power requested_states) (ps_low_clkmux requested_states)
        else (0, mgr))
     in if ret \<noteq> 0 then (ret, mgr)
        else if ps_memory origin_vote \<noteq> ps_memory requested_states
        then gxp_pm_update_requested_memory_power_state mgr (ps_memory origin_vote) (ps_memory requested_states)
        else (ret, mgr))"

text \<open>One round of the single-threaded work queue: the oldest item runs.\<close>

definition pm_wq_run ::
    "('h, 'x) gxp_ext_scheme \<Rightarrow> 'h gxp_power_manager \<Rightarrow> 'h gxp_power_manager" where
  "pm_wq_run X mgr =
    (case pm_wq mgr of
       [] \<Rightarrow> mgr
     | Acpm_Work i # wq \<Rightarrow> gxp_pm_blk_set_state_acpm_async X (mgr\<lparr>pm_wq := wq\<rparr>) i
     | Qos_Work i # wq \<Rightarrow> gxp_pm_req_pm_qos_async X (mgr\<lparr>pm_wq := wq\<rparr>) i)"

section \<open>Frequency limits, thermal limit, busy counter\<close>

definition GCIP_STATUS_CODE_INVALID_ARGUMENT :: int where "GCIP_STATUS_CODE_INVALID_ARGUMENT = 3"

definition gxp_pm_update_freq_limits_locked ::
    "('h, 'x) gxp_ext_scheme \<Rightarrow> 'h gxp_power_manager \<Rightarrow> int \<times> 'h gxp_power_manager" where
  "gxp_pm_update_freq_limits_locked X mgr =
    (let (ret, mgr) = call_hw (gxp_kci_set_freq_limits X (min_freq_limit mgr) (max_freq_limit mgr)) mgr in
     if ret \<noteq> 0 then
       (if ret = GCIP_STATUS_CODE_INVALID_ARGUMENT then - EINVAL else - EIO,
        mgr\<lparr>min_freq_limit := 0, max_freq_limit := 0\<rparr>)
     else (ret, mgr))"

definition gxp_pm_set_thermal_limit :: "'h gxp_power_manager \<Rightarrow> u64 \<Rightarrow> 'h gxp_power_manager" where
  "gxp_pm_set_thermal_limit mgr limit = mgr\<lparr>thermal_limit := limit\<rparr>"

definition gxp_pm_on_busy ::
    "('h, 'x) gxp_ext_scheme \<Rightarrow> 'h gxp_power_manager \<Rightarrow> 'h gxp_power_manager" where
  "gxp_pm_on_busy X mgr = gxp_cmu_set_mux_normal X mgr"

definition gxp_pm_on_idle ::
    "('h, 'x) gxp_ext_scheme \<Rightarrow> 'h gxp_power_manager \<Rightarrow> 'h gxp_power_manager" where
  "gxp_pm_on_idle X mgr = (if slow_clk_on_idle mgr then gxp_cmu_set_mux_low X mgr else mgr)"

definition gxp_pm_busy ::
    "('h, 'x) gxp_ext_scheme \<Rightarrow> 'h gxp_power_manager \<Rightarrow> 'h gxp_power_manager" where
  "gxp_pm_busy X mgr =
    (let mgr = mgr\<lparr>busy_count := busy_count mgr + 1\<rparr> in
     if busy_count mgr = 1 then gxp_pm_on_busy X mgr else mgr)"

definition gxp_pm_idle ::
    "('h, 'x) gxp_ext_scheme \<Rightarrow> 'h gxp_power_manager \<Rightarrow> 'h gxp_power_manager" where
  "gxp_pm_idle X mgr =
    (if busy_count mgr = BUSY_COUNT_OFF then mgr
     else
       let mgr = mgr\<lparr>busy_count := busy_count mgr - 1\<rparr> in
       if busy_count mgr = 0 then gxp_pm_on_idle X mgr else mgr)"

section \<open>The callbacks of the generic interface\<close>

definition gxp_pm_power_up ::
    "('h, 'x) gxp_ext_scheme \<Rightarrow> 'h gxp_pm_hooks \<Rightarrow> 'h gxp_power_manager \<Rightarrow> int \<times> 'h gxp_power_manager" where
  "gxp_pm_power_up X H mgr =
    (let (down, mgr) = gxp_pm_is_blk_down_timeout X mgr 5000 in
     if \<not> down then (- EAGAIN, mgr)
     else
       let (ret, mgr) = gxp_pm_blk_on X mgr in
       if ret \<noteq> 0 then (ret, mgr)
       else
         let (ret, mgr) = (case pm_after_blk_on H of None \<Rightarrow> (0, mgr) | Some f \<Rightarrow> f mgr) in
         if ret \<noteq> 0 then (ret, snd (gxp_pm_blk_off X mgr))
         else (0, if min_freq_limit mgr \<noteq> 0 \<or> max_freq_limit mgr \<noteq> 0
                  then snd (gxp_pm_update_freq_limits_locked X mgr) else mgr))"

definition gxp_pm_power_down ::
    "('h, 'x) gxp_ext_scheme \<Rightarrow> 'h gxp_pm_hooks \<Rightarrow> 'h gxp_power_manager \<Rightarrow> int \<times> 'h gxp_power_manager" where
  "gxp_pm_power_down X H mgr =
    (let (ret, mgr) = (case pm_before_blk_off H of None \<Rightarrow> (0, mgr) | Some f \<Rightarrow> f mgr) in
     if ret \<noteq> 0 then (ret, mgr) else gxp_pm_blk_off X mgr)"

text \<open>
  The hooks of the platform driver with a control processor (gxp-mcu-platform.c). In direct mode they
  do nothing; otherwise starting and stopping the firmware and the usage update are arguments.
\<close>

definition gxp_mcu_pm_after_blk_on ::
    "bool \<Rightarrow> ('h gxp_power_manager \<Rightarrow> int \<times> 'h gxp_power_manager) \<Rightarrow> 'h gxp_power_manager \<Rightarrow>
      int \<times> 'h gxp_power_manager" where
  "gxp_mcu_pm_after_blk_on direct_mode firmware_run mgr =
    (if direct_mode then (0, mgr) else firmware_run mgr)"

definition gxp_mcu_pm_before_blk_off ::
    "('h, 'x) gxp_ext_scheme \<Rightarrow> bool \<Rightarrow> bool \<Rightarrow> ('h gxp_power_manager \<Rightarrow> 'h gxp_power_manager) \<Rightarrow>
      ('h gxp_power_manager \<Rightarrow> int \<times> 'h gxp_power_manager) \<Rightarrow> 'h gxp_power_manager \<Rightarrow>
      int \<times> 'h gxp_power_manager" where
  "gxp_mcu_pm_before_blk_off X direct_mode fw_valid update_usage firmware_stop mgr =
    (if direct_mode then (0, mgr)
     else
       let (powered, mgr) =
             (if fw_valid then call_hw (gxp_lpm_is_powered (io_of X) (CORE_TO_PSM GXP_REG_MCU_ID)) mgr
              else (False, mgr));
           mgr = (if powered then update_usage mgr else mgr)
       in firmware_stop mgr)"

definition gxp_mcu_hooks ::
    "('h, 'x) gxp_ext_scheme \<Rightarrow> bool \<Rightarrow> bool \<Rightarrow> ('h gxp_power_manager \<Rightarrow> int \<times> 'h gxp_power_manager) \<Rightarrow>
      ('h gxp_power_manager \<Rightarrow> 'h gxp_power_manager) \<Rightarrow>
      ('h gxp_power_manager \<Rightarrow> int \<times> 'h gxp_power_manager) \<Rightarrow> 'h gxp_pm_hooks" where
  "gxp_mcu_hooks X direct_mode fw_valid firmware_run update_usage firmware_stop =
    \<lparr>pm_after_blk_on = Some (gxp_mcu_pm_after_blk_on direct_mode firmware_run),
     pm_before_blk_off = Some (gxp_mcu_pm_before_blk_off X direct_mode fw_valid update_usage firmware_stop)\<rparr>"

text \<open>The operations that go through the generic interface, whose private data is the power manager.\<close>

definition gxp_pm_set_min_max_freq_limit ::
    "('h, 'x) gxp_ext_scheme \<Rightarrow> int \<Rightarrow> 'h gxp_power_manager gcip_pm \<Rightarrow> u32 \<Rightarrow> u32 \<Rightarrow>
      int \<times> 'h gxp_power_manager gcip_pm" where
  "gxp_pm_set_min_max_freq_limit X seen pm min_freq_khz max_freq_khz =
    (let (is_off, pm) = gcip_pm_get_if_powered seen True pm True;
         pm = pm\<lparr>pm_data := (pm_data pm)\<lparr>min_freq_limit := min_freq_khz, max_freq_limit := max_freq_khz\<rparr>\<rparr>
     in if is_off = 0 then
          let (ret, mgr) = gxp_pm_update_freq_limits_locked X (pm_data pm) in
          (ret, gcip_pm_put (pm\<lparr>pm_data := mgr\<rparr>))
        else (0, pm))"

definition debugfs_wakelock_set ::
    "'h gxp_power_manager gcip_pm \<Rightarrow> u64 \<Rightarrow> int \<times> 'h gxp_power_manager gcip_pm" where
  "debugfs_wakelock_set pm val =
    (if val > 0 then
       if debugfs_wakelock_held (pm_data pm) then (- EBUSY, pm)
       else
         let (ret, pm) = gcip_pm_get pm in
         if ret \<noteq> 0 then (ret, pm)
         else (ret, pm\<lparr>pm_data := snd (gxp_pm_update_requested_power_states
                 ((pm_data pm)\<lparr>debugfs_wakelock_held := True\<rparr>) off_states uud_states)\<rparr>)
     else if \<not> debugfs_wakelock_held (pm_data pm) then (- EIO, pm)
     else
       let pm = gcip_pm_put pm in
       (0, pm\<lparr>pm_data := snd (gxp_pm_update_requested_power_states
                ((pm_data pm)\<lparr>debugfs_wakelock_held := False\<rparr>) uud_states off_states)\<rparr>))"

definition debugfs_blk_powerstate_set ::
    "('h, 'x) gxp_ext_scheme \<Rightarrow> 'h gxp_power_manager \<Rightarrow> u64 \<Rightarrow> int \<times> 'h gxp_power_manager" where
  "debugfs_blk_powerstate_set X mgr val =
    (if gxp_pm_get_blk_state mgr = AUR_OFF then (- ENODEV, mgr)
     else if val \<ge> aur_power_state2rate ! AUR_UUD then gxp_pm_blk_set_rate X mgr val
     else (- EINVAL, mgr))"

text \<open>The rate is stored through a \<open>u64\<close> pointer after it went through a C \<open>int\<close>.\<close>

definition debugfs_blk_powerstate_get ::
    "('h, 'x) gxp_ext_scheme \<Rightarrow> 'h gxp_power_manager \<Rightarrow> (int + u64) \<times> 'h gxp_power_manager" where
  "debugfs_blk_powerstate_get X mgr =
    (if gxp_pm_get_blk_state mgr = AUR_OFF then (Inl (- ENODEV), mgr)
     else let (r, mgr) = gxp_pm_blk_get_rate X mgr in (Inr (scast r), mgr))"

section \<open>Initialisation\<close>

definition fresh_acpm_work :: gxp_set_acpm_state_work where
  "fresh_acpm_work = \<lparr>aw_state = 0, aw_prev_state = 0, aw_low_clkmux = False,
     aw_prev_low_clkmux = False, aw_using = False\<rparr>"

definition fresh_qos_work :: gxp_req_pm_qos_work where
  "fresh_qos_work = \<lparr>qw_pm_value = 0, qw_using = False\<rparr>"

text \<open>
  The power manager before the hardware is touched. What the driver finds out about the device tree
  (\<open>status_mapped\<close>, \<open>cmu\<close>, \<open>sysreg\<close>) and the module parameter \<open>slow\<close> are arguments.
\<close>

definition fresh_power_manager :: "bool \<Rightarrow> bool \<Rightarrow> bool \<Rightarrow> bool \<Rightarrow> 'h \<Rightarrow> 'h gxp_power_manager" where
  "fresh_power_manager status_mapped cmu sysreg slow h =
    \<lparr>pwr_state_req_count = replicate AUR_NUM_POWER_STATE 0,
     low_clkmux_pwr_state_req_count = replicate AUR_NUM_POWER_STATE 0,
     mem_pwr_state_req_count = replicate AUR_NUM_MEMORY_POWER_STATE 0,
     curr_low_clkmux = False, last_scheduled_low_clkmux = False, min_freq_limit = 0, max_freq_limit = 0,
     curr_state = AUR_OFF, curr_memory_state = AUR_MEM_UNDEFINED,
     set_acpm_state_work = replicate AUR_NUM_POWER_STATE_WORKER fresh_acpm_work,
     last_set_acpm_state_worker = 0,
     req_pm_qos_work = replicate AUR_NUM_POWER_STATE_WORKER fresh_qos_work,
     last_req_pm_qos_worker = 0, pm_wq = [], bcl_dev = False,
     force_mux_normal_count = 0, thermal_limit = 0, blk_switch_count = 0, aur_status = status_mapped,
     busy_count = BUSY_COUNT_OFF, cmu_mapped = cmu, sysreg_shareability = sysreg,
     slow_clk_on_idle = slow, debugfs_wakelock_held = False, hw = h\<rparr>"

definition gxp_pm_chip_init ::
    "('h, 'x) gxp_ext_scheme \<Rightarrow> 'h gxp_power_manager \<Rightarrow> 'h gxp_power_manager" where
  "gxp_pm_chip_init X mgr = mgr\<lparr>bcl_dev := google_retrieve_bcl_handle X (hw mgr)\<rparr>"

definition gxp_pm_args ::
    "('h, 'x) gxp_ext_scheme \<Rightarrow> 'h gxp_pm_hooks \<Rightarrow> 'h gxp_power_manager \<Rightarrow> 'h gxp_power_manager gcip_pm_args" where
  "gxp_pm_args X H mgr =
    \<lparr>args_dev = True, args_data = mgr, args_power_up = Some (gxp_pm_power_up X H),
     args_power_down = Some (gxp_pm_power_down X H), args_after_create = None,
     args_before_destroy = None\<rparr>"

text \<open>
  Set-up: the three flags are the outcomes of the allocations, \<open>mgr\<close> the manager with the values it
  gets before anything can fail.
\<close>

definition gxp_pm_init ::
    "('h, 'x) gxp_ext_scheme \<Rightarrow> 'h gxp_pm_hooks \<Rightarrow> bool \<Rightarrow> bool \<Rightarrow> bool \<Rightarrow> 'h gxp_power_manager \<Rightarrow>
      int + 'h gxp_power_manager gcip_pm" where
  "gxp_pm_init X H mgr_alloc pm_alloc wq_alloc mgr =
    (if \<not> mgr_alloc then Inl (- ENOMEM)
     else (case gcip_pm_create pm_alloc (gxp_pm_args X H mgr) of
             Inl (ret, _) \<Rightarrow> Inl ret
           | Inr pm \<Rightarrow>
               if \<not> wq_alloc then Inl (- ENOMEM)
               else
                 let mgr = on_hw (pm_runtime_enable X) (pm_data pm);
                     mgr = on_hw (gxp_soc_pm_init X) mgr;
                     mgr = gxp_pm_chip_init X mgr
                 in Inr (pm\<lparr>pm_data := mgr\<lparr>debugfs_wakelock_held := False\<rparr>\<rparr>)))"

text \<open>\<open>flush_workqueue\<close> runs what is queued; nothing is queued meanwhile.\<close>

definition gxp_pm_destroy ::
    "('h, 'x) gxp_ext_scheme \<Rightarrow> 'h gxp_power_manager gcip_pm \<Rightarrow> 'h gxp_power_manager" where
  "gxp_pm_destroy X pm =
    (let mgr = gcip_pm_destroy pm;
         mgr = on_hw (gxp_soc_pm_exit X) mgr;
         mgr = on_hw (pm_runtime_disable X) mgr
     in (pm_wq_run X ^^ length (pm_wq mgr)) mgr)"

end
