(* ===== verification/Gxp_Pm_Votes.thy ===== *)
theory Gxp_Pm_Votes
  imports Gxp_Pm_Laws
begin

text \<open>
  Votes for power states and the workers that pass them on: the vote tables of gxp-pm.c as an
  implementation of a bag of votes, the chain of the four workers of rate changes, the busy counter
  and the encoding of memory requests.
\<close>

section \<open>Votes\<close>

text \<open>
  The specification: the outstanding votes as a list of a state and a flag that accepts the low clock.
  The highest vote wins; votes that accept the low clock count only if there are no others.
\<close>

definition highest :: "bool \<Rightarrow> (nat \<times> bool) list \<Rightarrow> nat" where
  "highest low vs = foldr max (map fst (filter (\<lambda>v. snd v = low) vs)) 0"

definition vote_winner :: "(nat \<times> bool) list \<Rightarrow> nat \<times> bool" where
  "vote_winner vs = (if highest False vs \<noteq> 0 then (highest False vs, False) else (highest True vs, True))"

text \<open>A vote for the off state is no vote.\<close>

definition add_vote :: "nat \<Rightarrow> bool \<Rightarrow> (nat \<times> bool) list \<Rightarrow> (nat \<times> bool) list" where
  "add_vote s low vs = (if s = AUR_OFF then vs else (s, low) # vs)"

definition drop_vote :: "nat \<Rightarrow> bool \<Rightarrow> (nat \<times> bool) list \<Rightarrow> (nat \<times> bool) list" where
  "drop_vote s low vs = (if s = AUR_OFF then vs else remove1 (s, low) vs)"

definition table_rel :: "bool \<Rightarrow> (nat \<times> bool) list \<Rightarrow> u32 list \<Rightarrow> bool" where
  "table_rel low vs counts \<longleftrightarrow> length counts = AUR_NUM_POWER_STATE \<and>
    (\<forall>i<AUR_NUM_POWER_STATE. unat (counts ! i) = count_list vs (i, low))"

definition votes_rel :: "(nat \<times> bool) list \<Rightarrow> 'h gxp_power_manager \<Rightarrow> bool" where
  "votes_rel vs mgr \<longleftrightarrow> (\<forall>v\<in>set vs. 0 < fst v \<and> fst v < AUR_NUM_POWER_STATE) \<and>
    table_rel False vs (pwr_state_req_count mgr) \<and> table_rel True vs (low_clkmux_pwr_state_req_count mgr)"

lemma aur_state_array_eq: "aur_state_array = [0..<AUR_NUM_POWER_STATE]"
  by (simp add: aur_state_array_def upt_rec)

lemma first_index_upt:
  "first_index (\<lambda>a. a = s) [m..<n] = (if m \<le> s \<and> s < n then s - m else n - m)"
proof (induction "n - m" arbitrary: m)
  case (Suc k)
  then have "[m..<n] = m # [Suc m..<n]"
    by (simp add: upt_conv_Cons)
  then show ?case
    using Suc.hyps(1) [of "Suc m"] Suc.hyps(2) by auto
qed simp

lemma vote_index [simp]:
  "s < AUR_NUM_POWER_STATE \<Longrightarrow> first_index (\<lambda>a. a = s) aur_state_array = s"
  "length aur_state_array = AUR_NUM_POWER_STATE"
  by (simp_all only: aur_state_array_eq first_index_upt) simp_all

lemma vote_up_rel:
  assumes "table_rel low vs counts" and "s < AUR_NUM_POWER_STATE" and "length vs < 2 ^ 32 - 1"
  shows "table_rel low ((s, low) # vs) (vote_up aur_state_array s counts)"
proof -
  have "unat (counts ! s) < 2 ^ 32 - 1"
    using assms count_le_length [of vs "(s, low)"] by (simp add: table_rel_def)
  then have "unat (counts ! s + 1) = Suc (unat (counts ! s))"
    using unat_add_lem [of "counts ! s" 1] by simp
  with assms show ?thesis
    by (auto simp: table_rel_def vote_up_def nth_list_update)
qed

lemma vote_up_other: "table_rel low vs counts \<Longrightarrow> table_rel low ((s, \<not> low) # vs) counts"
  by (auto simp: table_rel_def)

lemma count_list_remove1:
  "count_list (remove1 x xs) y = count_list xs y - (if y = x then 1 else 0)"
proof (induction xs)
  case (Cons a xs)
  then show ?case
    using count_list_0_iff [of xs x] by (cases "x = a"; cases "x \<in> set xs") auto
qed simp

lemma vote_down_rel:
  assumes "table_rel low vs counts" and "s < AUR_NUM_POWER_STATE"
  shows "table_rel low (remove1 (s, low) vs) (vote_down aur_state_array s counts)"
proof -
  have "unat (counts ! s - 1) = unat (counts ! s) - 1" if "counts ! s \<noteq> 0"
    using that by (simp add: unat_minus_one)
  with assms show ?thesis
    by (auto simp: table_rel_def vote_down_def nth_list_update count_list_remove1 unat_eq_0)
qed

lemma vote_down_other: "table_rel low vs counts \<Longrightarrow> table_rel low (remove1 (s, \<not> low) vs) counts"
  by (auto simp: table_rel_def count_list_remove1)

lemma vote_rel:
  assumes "votes_rel vs mgr" and "s < AUR_NUM_POWER_STATE" and "length vs < 2 ^ 32 - 1"
  shows "votes_rel (add_vote s low vs) (gxp_pm_vote_power_state mgr s low)"
  using assms vote_up_rel [of low vs _ s] vote_up_other [of "\<not> low" vs _ s]
  by (cases low) (auto simp: votes_rel_def add_vote_def gxp_pm_vote_power_state_def)

lemma revoke_rel:
  assumes "votes_rel vs mgr" and "s < AUR_NUM_POWER_STATE"
  shows "votes_rel (drop_vote s low vs) (gxp_pm_revoke_power_state_vote mgr s low)"
  using assms vote_down_rel [of low vs _ s] vote_down_other [of "\<not> low" vs _ s]
  by (cases low) (auto simp: votes_rel_def drop_vote_def gxp_pm_revoke_power_state_vote_def
      dest: notin_set_remove1 set_remove1_subset [THEN subsetD])

lemma max_voted_upt:
  assumes "n \<le> N"
  shows "max_voted [0..<N] counts n = None \<and> (\<forall>i<n. counts ! i = 0) \<or>
    (\<exists>s<n. max_voted [0..<N] counts n = Some s \<and> counts ! s \<noteq> 0 \<and> (\<forall>i. s < i \<and> i < n \<longrightarrow> counts ! i = 0))"
  using assms
proof (induction n)
  case (Suc n)
  show ?case
  proof (cases "counts ! n = 0")
    case True
    then show ?thesis
      using Suc by (auto simp: less_Suc_eq) 
  next
    case False
    then show ?thesis
      using Suc.prems by (intro disjI2 exI [of _ n]) (auto simp: word_gt_0)
  qed
qed simp

lemma foldr_max_eq:
  assumes "\<forall>x\<in>set xs. x \<le> s" and "s \<in> set xs"
  shows "foldr max xs (0::nat) = s"
proof -
  have "foldr max xs 0 \<le> s" if "\<forall>x\<in>set xs. x \<le> s" for xs :: "nat list"
    using that by (induction xs) auto
  moreover have "x \<le> foldr max xs 0" if "x \<in> set xs" for x and xs :: "nat list"
    using that by (induction xs) auto
  ultimately show ?thesis
    using assms by (meson le_antisym)
qed

lemma highest_eq:
  assumes "\<And>x. (x, low) \<in> set vs \<Longrightarrow> x \<le> s" and "(s, low) \<in> set vs \<or> s = 0"
  shows "highest low vs = s"
proof (cases "(s, low) \<in> set vs")
  case True
  then have "s \<in> set (map fst (filter (\<lambda>v. snd v = low) vs))"
    by force
  moreover have "\<forall>x\<in>set (map fst (filter (\<lambda>v. snd v = low) vs)). x \<le> s"
    using assms(1) by auto
  ultimately show ?thesis
    unfolding highest_def by (intro foldr_max_eq)
next
  case False
  then have "s = 0"
    using assms(2) by simp
  with False assms(1) have none: "(x, low) \<notin> set vs" for x
    by (cases "x = 0") auto
  have "\<forall>v\<in>set vs. snd v \<noteq> low"
  proof
    fix v assume "v \<in> set vs"
    then have "(fst v, snd v) \<in> set vs"
      by simp
    then show "snd v \<noteq> low"
      using none by blast
  qed
  with \<open>s = 0\<close> show ?thesis
    by (simp add: highest_def)
qed

lemma table_highest:
  assumes "table_rel low vs counts" and "\<forall>v\<in>set vs. 0 < fst v \<and> fst v < AUR_NUM_POWER_STATE"
  shows "(case max_voted aur_state_array counts AUR_NUM_POWER_STATE of None \<Rightarrow> AUR_OFF | Some s \<Rightarrow> s) =
    highest low vs"
proof -
  have voted: "counts ! i \<noteq> 0 \<longleftrightarrow> (i, low) \<in> set vs" if "i < AUR_NUM_POWER_STATE" for i
    using assms(1) that count_list_0_iff [of vs "(i, low)"] by (simp add: table_rel_def flip: unat_eq_0)
  have bound: "x < AUR_NUM_POWER_STATE" if "(x, low) \<in> set vs" for x
    using assms(2) that by (metis fst_conv)
  from max_voted_upt [OF order_refl, of AUR_NUM_POWER_STATE counts, folded aur_state_array_eq]
  show ?thesis
  proof (elim disjE exE conjE)
    assume none: "max_voted aur_state_array counts AUR_NUM_POWER_STATE = None"
      and zero: "\<forall>i<AUR_NUM_POWER_STATE. counts ! i = 0"
    have "highest low vs = 0"
      by (rule highest_eq) (use voted bound zero in blast)+
    with none show ?thesis
      by simp
  next
    fix s
    assume some: "max_voted aur_state_array counts AUR_NUM_POWER_STATE = Some s" "s < AUR_NUM_POWER_STATE"
      "counts ! s \<noteq> 0" and above: "\<forall>i. s < i \<and> i < AUR_NUM_POWER_STATE \<longrightarrow> counts ! i = 0"
    have "x \<le> s" if "(x, low) \<in> set vs" for x
      using voted [OF bound [OF that]] above bound [OF that] that by (simp only: not_le [symmetric]) blast
    moreover have "(s, low) \<in> set vs"
      using voted [OF some(2)] some(3) by simp
    ultimately have "highest low vs = s"
      by (intro highest_eq) simp_all
    with some(1) show ?thesis
      by simp
  qed
qed

lemma max_voted_winner:
  assumes "votes_rel vs mgr"
  shows "gxp_pm_get_max_voted_power_state mgr = vote_winner vs"
proof -
  have n: "(case max_voted aur_state_array (pwr_state_req_count mgr) AUR_NUM_POWER_STATE of
      None \<Rightarrow> AUR_OFF | Some s \<Rightarrow> s) = highest False vs"
    and l: "(case max_voted aur_state_array (low_clkmux_pwr_state_req_count mgr) AUR_NUM_POWER_STATE of
      None \<Rightarrow> AUR_OFF | Some s \<Rightarrow> s) = highest True vs"
    using assms table_highest by (auto simp: votes_rel_def)
  show ?thesis
    unfolding gxp_pm_get_max_voted_power_state_def vote_winner_def Let_def
    by (auto split: option.split simp flip: n l)
qed


lemma highest_bound: "\<forall>v\<in>set vs. fst v < n \<Longrightarrow> 0 < n \<Longrightarrow> highest low vs < n"
  by (induction vs) (auto simp: highest_def)

lemma winner_bound: "votes_rel vs mgr \<Longrightarrow> fst (vote_winner vs) < AUR_NUM_POWER_STATE"
  using highest_bound [of vs AUR_NUM_POWER_STATE] by (simp add: votes_rel_def vote_winner_def)

lemma req_state_votes [simp]: "votes_rel vs (snd (gxp_pm_req_state_locked mgr s low)) = votes_rel vs mgr"
  by (simp add: votes_rel_def gxp_pm_req_state_locked_def Let_def case_prod_beta)

lemma req_state_outcome:
  assumes "gxp_pm_req_state_locked mgr s low = (ret, mgr')" and "s \<le> AUR_MAX_ALLOW_STATE"
  shows "if curr_state mgr = AUR_OFF then ret = - EBUSY \<and> curr_state mgr' = AUR_OFF
    else ret = 0 \<and> (if s = AUR_OFF then curr_state mgr' = curr_state mgr
                     else curr_state mgr' = s \<and> last_scheduled_low_clkmux mgr' = low)"
  using assms by (auto simp: gxp_pm_req_state_locked_def Let_def case_prod_beta split: if_splits)

text \<open>C19: The vote tables implement a bag of votes. Replacing a client's old vote by a new one leaves the
  tables counting exactly the remaining votes and the new one, and on a block that is on the driver
  asks for the highest state voted for, preferring votes that need the full clock; on a block that
  is off the vote is registered and -EBUSY returned.\<close>

theorem votes_refine_bag:
  assumes "votes_rel vs mgr" and "length vs < 2 ^ 32 - 1"
    and "o_state < AUR_NUM_POWER_STATE" and "r_state < AUR_NUM_POWER_STATE"
    and "gxp_pm_update_requested_power_state mgr o_state o_low r_state r_low = (ret, mgr')"
  shows "let vs' = add_vote r_state r_low (drop_vote o_state o_low vs); (s, low) = vote_winner vs' in
    votes_rel vs' mgr' \<and>
    (if curr_state mgr = AUR_OFF then ret = - EBUSY \<and> curr_state mgr' = AUR_OFF
     else ret = 0 \<and> (if s = AUR_OFF then curr_state mgr' = curr_state mgr
                      else curr_state mgr' = s \<and> last_scheduled_low_clkmux mgr' = low))"
proof -
  let ?vs = "drop_vote o_state o_low vs" and ?m1 = "gxp_pm_revoke_power_state_vote mgr o_state o_low"
  let ?vs' = "add_vote r_state r_low ?vs" and ?m2 = "gxp_pm_vote_power_state ?m1 r_state r_low"
  have "length ?vs \<le> length vs"
    by (simp add: drop_vote_def length_remove1)
  then have rel: "votes_rel ?vs' ?m2"
    using revoke_rel [OF assms(1,3), of o_low] assms(2,4) by (intro vote_rel) auto
  have req: "gxp_pm_req_state_locked ?m2 (fst (vote_winner ?vs')) (snd (vote_winner ?vs')) = (ret, mgr')"
    using assms(5) max_voted_winner [OF rel]
    by (simp add: gxp_pm_update_requested_power_state_def Let_def case_prod_beta)
  have "votes_rel ?vs' mgr'"
    using rel req_state_votes [of ?vs' ?m2 "fst (vote_winner ?vs')" "snd (vote_winner ?vs')"] req by simp
  with req_state_outcome [OF req] winner_bound [OF rel] show ?thesis
    by (simp add: Let_def case_prod_beta)
qed

lemma quiet_votes_rel: "votes_rel [] (snd (gxp_pm_blk_on quiet_board quiet_mgr))"
  by (simp add: votes_rel_def table_rel_def quiet_on)

theorem votes_refine_bag_witness:
  "let mgr' = snd (gxp_pm_update_requested_power_state (snd (gxp_pm_blk_on quiet_board quiet_mgr))
      AUR_OFF False AUR_NOM True)
   in curr_state mgr' = AUR_NOM \<and> last_scheduled_low_clkmux mgr' \<and> votes_rel [(AUR_NOM, True)] mgr'"
  using votes_refine_bag [OF quiet_votes_rel, of AUR_OFF AUR_NOM False True]
  by (simp add: Let_def case_prod_beta prod_eq_iff add_vote_def drop_vote_def vote_winner_def highest_def quiet_on)

section \<open>The workers\<close>

text \<open>The workers of rate changes on the work queue, oldest first.\<close>

definition acpm_queue :: "pm_work list \<Rightarrow> nat list" where
  "acpm_queue wq = concat (map (\<lambda>w. case w of Acpm_Work i \<Rightarrow> [i] | Qos_Work _ \<Rightarrow> []) wq)"

lemma acpm_queue_simps [simp]:
  "acpm_queue [] = []"
  "acpm_queue (Acpm_Work i # wq) = i # acpm_queue wq"
  "acpm_queue (Qos_Work i # wq) = acpm_queue wq"
  "acpm_queue (wq @ wq') = acpm_queue wq @ acpm_queue wq'"
  by (simp_all add: acpm_queue_def)

text \<open>
  The invariant of the workers of a block that is on: a worker is in use exactly when it is queued; the
  youngest one carries the current request; and each worker starts from the clock setting its
  predecessor leaves, the oldest one from the current setting \<open>low\<close>, the youngest one ending with the
  setting \<open>sched\<close> that was last asked for.
\<close>

definition chain :: "nat list \<Rightarrow> gxp_set_acpm_state_work list \<Rightarrow> nat \<Rightarrow> nat \<Rightarrow> bool \<Rightarrow> bool \<Rightarrow> bool" where
  "chain q ws l st low sched \<longleftrightarrow>
    length ws = AUR_NUM_POWER_STATE_WORKER \<and> distinct q \<and>
    set q = {i. i < AUR_NUM_POWER_STATE_WORKER \<and> aw_using (ws ! i)} \<and>
    (q \<noteq> [] \<longrightarrow> l = last q \<and> aw_state (ws ! l) = st) \<and>
    map (\<lambda>i. aw_prev_low_clkmux (ws ! i)) q @ [sched] = low # map (\<lambda>i. aw_low_clkmux (ws ! i)) q"

definition worker_inv :: "'h gxp_power_manager \<Rightarrow> bool" where
  "worker_inv mgr \<longleftrightarrow> chain (acpm_queue (pm_wq mgr)) (set_acpm_state_work mgr)
    (last_set_acpm_state_worker mgr) (curr_state mgr) (curr_low_clkmux mgr) (last_scheduled_low_clkmux mgr)"

lemma map_nth_upd:
  "i \<notin> set q \<Longrightarrow> map (\<lambda>j. f (ws[i := w] ! j)) q = map (\<lambda>j. f (ws ! j)) q"
proof (rule map_cong)
  fix j assume "i \<notin> set q" and "j \<in> set q"
  then show "f (ws[i := w] ! j) = f (ws ! j)"
    by (metis nth_list_update_neq)
qed simp

lemma chain_run:
  assumes "chain (i # q) ws l st low sched"
  shows "chain q (ws[i := (ws ! i)\<lparr>aw_using := False\<rparr>]) l st (aw_low_clkmux (ws ! i)) sched"
proof -
  let ?ws = "ws[i := (ws ! i)\<lparr>aw_using := False\<rparr>]"
  have len: "length ws = AUR_NUM_POWER_STATE_WORKER" and dist: "i \<notin> set q" "distinct q"
    and used: "insert i (set q) = {j. j < AUR_NUM_POWER_STATE_WORKER \<and> aw_using (ws ! j)}"
    and links: "map (\<lambda>i. aw_prev_low_clkmux (ws ! i)) q @ [sched] =
      aw_low_clkmux (ws ! i) # map (\<lambda>i. aw_low_clkmux (ws ! i)) q"
    using assms by (simp_all add: chain_def)
  have lst: "l = last (i # q)" "aw_state (ws ! l) = st"
    using assms unfolding chain_def by blast+
  have i: "i < length ws"
    using used len by auto
  then have "aw_using (?ws ! j) \<longleftrightarrow> aw_using (ws ! j) \<and> j \<noteq> i" for j
    by (auto simp: nth_list_update)
  then have "{j. j < AUR_NUM_POWER_STATE_WORKER \<and> aw_using (?ws ! j)} = insert i (set q) - {i}"
    unfolding used by blast
  then have "set q = {j. j < AUR_NUM_POWER_STATE_WORKER \<and> aw_using (?ws ! j)}"
    using dist(1) by simp
  moreover have "aw_state (?ws ! l) = aw_state (ws ! l)"
    using i by (simp add: nth_list_update)
  ultimately show ?thesis
    unfolding chain_def map_nth_upd [OF dist(1)] using len dist(2) lst(2) links by (cases "q = []") (simp_all add: lst(1))
qed

lemma chain_new:
  assumes "chain q ws l st low sched" and "i < AUR_NUM_POWER_STATE_WORKER" and "\<not> aw_using (ws ! i)"
    and "aw_prev_low_clkmux w = sched" and "aw_using w" and "aw_state w = st'"
  shows "chain (q @ [i]) (ws[i := w]) i st' low (aw_low_clkmux w)"
proof -
  have len: "length ws = AUR_NUM_POWER_STATE_WORKER" and dist: "distinct q"
    and used: "set q = {j. j < AUR_NUM_POWER_STATE_WORKER \<and> aw_using (ws ! j)}"
    and links: "map (\<lambda>i. aw_prev_low_clkmux (ws ! i)) q @ [sched] =
      low # map (\<lambda>i. aw_low_clkmux (ws ! i)) q"
    using assms(1) by (simp_all add: chain_def)
  have i: "i \<notin> set q" "i < length ws"
    using used assms(2,3) len by auto
  have "insert i (set q) = {j. j < AUR_NUM_POWER_STATE_WORKER \<and> aw_using (ws[i := w] ! j)}"
    using used i(2) assms(2,5) by (auto simp: nth_list_update set_eq_iff)
  moreover have "map (\<lambda>i. aw_prev_low_clkmux (ws ! i)) q @ [sched, aw_low_clkmux w] =
      low # map (\<lambda>i. aw_low_clkmux (ws ! i)) q @ [aw_low_clkmux w]"
    using arg_cong [OF links, of "\<lambda>xs. xs @ [aw_low_clkmux w]"] by simp
  ultimately show ?thesis
    using len dist i assms by (simp add: chain_def map_nth_upd)
qed

lemma chain_reuse:
  assumes "chain q ws l st low sched" and "q \<noteq> []"
    and "aw_prev_low_clkmux w = aw_prev_low_clkmux (ws ! l)" and "aw_using w" and "aw_state w = st'"
  shows "chain q (ws[l := w]) l st' low (aw_low_clkmux w)"
proof -
  obtain r where q: "q = r @ [l]"
    using assms(1,2) append_butlast_last_id [of q] by (metis chain_def)
  have len: "length ws = AUR_NUM_POWER_STATE_WORKER" and dist: "l \<notin> set r" "distinct r"
    and used: "insert l (set r) = {j. j < AUR_NUM_POWER_STATE_WORKER \<and> aw_using (ws ! j)}"
    and links: "map (\<lambda>i. aw_prev_low_clkmux (ws ! i)) r @ [aw_prev_low_clkmux (ws ! l), sched] =
      low # map (\<lambda>i. aw_low_clkmux (ws ! i)) r @ [aw_low_clkmux (ws ! l)]"
    using assms(1) by (simp_all add: chain_def q)
  have l: "l < length ws"
    using used len by auto
  have "insert l (set r) = {j. j < AUR_NUM_POWER_STATE_WORKER \<and> aw_using (ws[l := w] ! j)}"
    using used l assms(4) len by (auto simp: nth_list_update set_eq_iff)
  moreover have "map (\<lambda>i. aw_prev_low_clkmux (ws ! i)) r @ [aw_prev_low_clkmux (ws ! l), aw_low_clkmux w] =
      low # map (\<lambda>i. aw_low_clkmux (ws ! i)) r @ [aw_low_clkmux w]"
    using arg_cong [OF links, of "\<lambda>xs. butlast xs @ [aw_low_clkmux w]"] by (simp add: butlast_append)
  ultimately show ?thesis
    using len dist l assms by (simp add: chain_def map_nth_upd q)
qed

lemma first_index_le: "first_index P xs \<le> length xs"
  by (induction xs) auto

lemma first_index_less: "first_index P xs < length xs \<Longrightarrow> P (xs ! first_index P xs)"
  by (induction xs) auto

lemma first_index_full: "first_index P xs = length xs \<Longrightarrow> x \<in> set xs \<Longrightarrow> \<not> P x"
  by (induction xs) (auto split: if_splits)

abbreviation worker :: "'h gxp_power_manager \<Rightarrow> nat \<Rightarrow> gxp_set_acpm_state_work" where
  "worker mgr i \<equiv> set_acpm_state_work mgr ! i"

lemma acpm_async_fields [simp]:
  "curr_low_clkmux (gxp_pm_blk_set_state_acpm_async X mgr i) =
    (if blk_on mgr then aw_low_clkmux (worker mgr i) else curr_low_clkmux mgr)"
  "set_acpm_state_work (gxp_pm_blk_set_state_acpm_async X mgr i) =
    (set_acpm_state_work mgr)[i := (worker mgr i)\<lparr>aw_using := False\<rparr>]"
  "last_scheduled_low_clkmux (gxp_pm_blk_set_state_acpm_async X mgr i) = last_scheduled_low_clkmux mgr"
  "last_set_acpm_state_worker (gxp_pm_blk_set_state_acpm_async X mgr i) = last_set_acpm_state_worker mgr"
  "pm_wq (gxp_pm_blk_set_state_acpm_async X mgr i) = pm_wq mgr"
  by (subst acpm_async_eq; simp add: Let_def)+

lemma qos_async_view [simp]: "vote_view (gxp_pm_req_pm_qos_async X mgr i) = vote_view mgr"
  by (subst qos_async_eq) (simp add: vote_view_def)

lemma worker_inv_view: "vote_view a = vote_view b \<Longrightarrow> worker_inv a = worker_inv b"
  by (simp add: vote_view_def worker_inv_def)

lemma wq_run_worker_inv:
  assumes "worker_inv mgr" and "blk_on mgr"
  shows "worker_inv (pm_wq_run X mgr)"
proof (cases "pm_wq mgr")
  case (Cons w wq)
  show ?thesis
  proof (cases w)
    case (Acpm_Work i)
    then show ?thesis
      using assms chain_run by (simp add: worker_inv_def pm_wq_run_def Cons)
  next
    case (Qos_Work i)
    have "worker_inv (mgr\<lparr>pm_wq := wq\<rparr>)"
      using assms(1) by (simp add: worker_inv_def Cons Qos_Work)
    moreover have "vote_view (pm_wq_run X mgr) = vote_view (mgr\<lparr>pm_wq := wq\<rparr>)"
      by (simp add: pm_wq_run_def Cons Qos_Work)
    ultimately show ?thesis
      using worker_inv_view by blast
  qed
qed (simp add: pm_wq_run_def assms)

lemma req_state_worker_inv:
  assumes "worker_inv mgr"
  shows "worker_inv (snd (gxp_pm_req_state_locked mgr state low))"
proof -
  let ?ws = "set_acpm_state_work mgr" and ?q = "acpm_queue (pm_wq mgr)"
  let ?i = "first_index (\<lambda>w. \<not> aw_using w) ?ws"
  have ch: "chain ?q ?ws (last_set_acpm_state_worker mgr) (curr_state mgr) (curr_low_clkmux mgr)
      (last_scheduled_low_clkmux mgr)"
    using assms by (simp add: worker_inv_def)
  then have len: "length ?ws = AUR_NUM_POWER_STATE_WORKER"
    and used: "set ?q = {i. i < AUR_NUM_POWER_STATE_WORKER \<and> aw_using (?ws ! i)}"
    by (simp_all add: chain_def)
  show ?thesis
  proof (cases "?i = AUR_NUM_POWER_STATE_WORKER")
    case True
    then have "0 \<in> set ?q"
      using first_index_full [of "\<lambda>w. \<not> aw_using w" ?ws "?ws ! 0"] len by (simp add: used)
    then have ne: "?q \<noteq> []"
      by auto
    have l: "last_set_acpm_state_worker mgr = last ?q"
      using ch ne by (simp add: chain_def)
    then have "last_set_acpm_state_worker mgr \<in> set ?q"
      using ne by simp
    then have u: "aw_using (?ws ! last_set_acpm_state_worker mgr)" "last_set_acpm_state_worker mgr < length ?ws"
      using used len by auto
    show ?thesis
      using chain_reuse [OF ch ne, of "(?ws ! last_set_acpm_state_worker mgr)\<lparr>aw_state := state, aw_low_clkmux := low\<rparr>" state]
        u True assms len
      by (auto simp: gxp_pm_req_state_locked_def Let_def worker_inv_def)
  next
    case False
    then have i: "?i < AUR_NUM_POWER_STATE_WORKER"
      using first_index_le [of "\<lambda>w. \<not> aw_using w" ?ws] len by simp
    then have u: "\<not> aw_using (?ws ! ?i)"
      using first_index_less [of "\<lambda>w. \<not> aw_using w" ?ws] len by simp
    let ?w = "(?ws ! ?i)\<lparr>aw_prev_state := curr_state mgr, aw_prev_low_clkmux := last_scheduled_low_clkmux mgr,
      aw_state := state, aw_low_clkmux := low, aw_using := True\<rparr>"
    have "chain (?q @ [?i]) (?ws[?i := ?w]) ?i state (curr_low_clkmux mgr) low"
      using chain_new [OF ch i u, of ?w] by simp
    with False i u assms len show ?thesis
      by (auto simp: gxp_pm_req_state_locked_def Let_def worker_inv_def)
  qed
qed

lemma req_memory_view [simp]:
  "pwr_state_req_count (snd (gxp_pm_req_memory_state_locked mgr s)) = pwr_state_req_count mgr"
  "low_clkmux_pwr_state_req_count (snd (gxp_pm_req_memory_state_locked mgr s)) = low_clkmux_pwr_state_req_count mgr"
  "worker_inv (snd (gxp_pm_req_memory_state_locked mgr s)) = worker_inv mgr"
  by (simp_all add: gxp_pm_req_memory_state_locked_def worker_inv_def Let_def case_prod_beta)

lemma vote_tables_worker_inv [simp]:
  "worker_inv (gxp_pm_revoke_power_state_vote mgr s low) = worker_inv mgr"
  "worker_inv (gxp_pm_vote_power_state mgr s low) = worker_inv mgr"
  "worker_inv (gxp_pm_revoke_memory_power_state_vote mgr s) = worker_inv mgr"
  "worker_inv (gxp_pm_vote_memory_power_state mgr s) = worker_inv mgr"
  by (simp_all add: worker_inv_def gxp_pm_revoke_power_state_vote_def gxp_pm_vote_power_state_def
      gxp_pm_revoke_memory_power_state_vote_def gxp_pm_vote_memory_power_state_def)

lemma update_vote_worker_inv:
  "worker_inv mgr \<Longrightarrow>
    worker_inv (snd (gxp_pm_update_requested_power_state mgr o_state o_low r_state r_low))"
  unfolding gxp_pm_update_requested_power_state_def Let_def case_prod_beta
  by (rule req_state_worker_inv) simp

lemma update_votes_worker_inv:
  assumes "worker_inv mgr"
  shows "worker_inv (snd (gxp_pm_update_requested_power_states mgr o_vote r_vote))"
  using assms update_vote_worker_inv [OF assms, of "ps_power o_vote" "ps_low_clkmux o_vote"
      "ps_power r_vote" "ps_low_clkmux r_vote"]
  by (simp add: gxp_pm_update_requested_power_states_def gxp_pm_update_requested_memory_power_state_def
      Let_def case_prod_beta)

lemma op_worker_inv: "gxp_pm_op X mgr mgr' \<Longrightarrow> blk_on mgr \<Longrightarrow> worker_inv mgr \<Longrightarrow> worker_inv mgr'"
proof (induction rule: gxp_pm_op.induct)
  case (vote mgr origin_vote requested)
  then show ?case
    by (intro update_votes_worker_inv)
next
  case (work mgr)
  then show ?case
    by (intro wq_run_worker_inv)
qed (simp_all add: vote_view_frame [THEN worker_inv_view])

lemma ops_worker_inv:
  assumes "(gxp_pm_op X)\<^sup>*\<^sup>* mgr mgr'" and "blk_on mgr" and "worker_inv mgr"
  shows "blk_on mgr' \<and> worker_inv mgr'"
  using assms(1)
proof (induction rule: rtranclp_induct)
  case (step m m')
  then show ?case
    using op_keeps_on op_worker_inv by blast
qed (use assms(2,3) in blast)

lemma fresh_on_worker_inv:
  assumes "gxp_pm_blk_on X (fresh_power_manager st cmu sr slow h) = (0, mgr)"
  shows "blk_on mgr \<and> worker_inv mgr"
proof -
  have "set (acpm_queue []) = {i. i < AUR_NUM_POWER_STATE_WORKER \<and>
      aw_using (replicate AUR_NUM_POWER_STATE_WORKER fresh_acpm_work ! i)}"
    by (auto simp: fresh_acpm_work_def)
  then show ?thesis
    using assms by (cases rule: blk_on_cases [of X "fresh_power_manager st cmu sr slow h"])
      (auto simp: worker_inv_def chain_def fresh_power_manager_def)
qed

lemma wq_run_length: "length (pm_wq (pm_wq_run X mgr)) = length (pm_wq mgr) - 1"
proof -
  have "pm_wq (gxp_pm_req_pm_qos_async X m i) = pm_wq m" for m i
    using qos_async_view [of X m i] by (simp add: vote_view_def)
  then show ?thesis
    by (simp add: pm_wq_run_def split: list.split pm_work.split)
qed

lemma wq_drain_empty: "length (pm_wq mgr) = n \<Longrightarrow> pm_wq ((pm_wq_run X ^^ n) mgr) = []"
proof (induction n arbitrary: mgr)
  case (Suc n)
  then have "pm_wq ((pm_wq_run X ^^ n) (pm_wq_run X mgr)) = []"
    by (intro Suc.IH) (simp add: wq_run_length)
  then show ?case
    by (simp add: funpow_swap1)
qed simp

lemma wq_drain_ops: "(gxp_pm_op X)\<^sup>*\<^sup>* mgr ((pm_wq_run X ^^ n) mgr)"
  by (induction n) (auto intro: rtranclp.rtrancl_into_rtrancl gxp_pm_op.work)



section \<open>Clock multiplexers over a power cycle\<close>



section \<open>The busy counter\<close>

lemma busy_count_Suc:
  assumes "Suc n < 2 ^ 64"
  shows "gxp_pm_busy X (mgr\<lparr>busy_count := word_of_nat n\<rparr>) =
    (if n = 0 then gxp_pm_on_busy X (mgr\<lparr>busy_count := 1\<rparr>) else mgr\<lparr>busy_count := word_of_nat (Suc n)\<rparr>)"
proof -
  have "word_of_nat n + 1 = (word_of_nat (Suc n) :: u64)"
    by simp
  moreover have "(word_of_nat (Suc n) :: u64) = word_of_nat (Suc 0) \<longleftrightarrow> n = 0"
    using word_of_nat_inj [of "Suc n" "Suc 0", where 'a = 64] assms by (simp del: of_nat_Suc)
  then have "(word_of_nat (Suc n) :: u64) = 1 \<longleftrightarrow> n = 0"
    by simp
  moreover have "word_of_nat (Suc 0) = (1 :: u64)"
    by simp
  ultimately show ?thesis
    by (simp add: gxp_pm_busy_def Let_def del: of_nat_Suc)
qed

lemma idle_count_Suc:
  assumes "Suc n < 2 ^ 64 - 1"
  shows "gxp_pm_idle X (mgr\<lparr>busy_count := word_of_nat (Suc n)\<rparr>) =
    (if n = 0 then gxp_pm_on_idle X (mgr\<lparr>busy_count := 0\<rparr>) else mgr\<lparr>busy_count := word_of_nat n\<rparr>)"
proof -
  have off: "BUSY_COUNT_OFF = word_of_nat (2 ^ 64 - 1)"
    by (simp add: BUSY_COUNT_OFF_def)
  have "word_of_nat (Suc n) \<noteq> BUSY_COUNT_OFF"
    unfolding off using word_of_nat_inj [of "Suc n" "2 ^ 64 - 1", where 'a = 64] assms by simp
  moreover have "word_of_nat (Suc n) - 1 = (word_of_nat n :: u64)"
    by simp
  moreover have "(word_of_nat n :: u64) = 0 \<longleftrightarrow> n = 0"
    using word_of_nat_inj [of n 0, where 'a = 64] assms by simp
  ultimately show ?thesis
    by (simp add: gxp_pm_idle_def Let_def del: of_nat_Suc)
qed

lemma on_busy_count:
  "busy_count (gxp_pm_on_busy X mgr) = busy_count mgr" "busy_count (gxp_pm_on_idle X mgr) = busy_count mgr"
  "gxp_pm_on_busy X (mgr\<lparr>busy_count := c\<rparr>) = (gxp_pm_on_busy X mgr)\<lparr>busy_count := c\<rparr>"
  "gxp_pm_on_idle X (mgr\<lparr>busy_count := c\<rparr>) = (gxp_pm_on_idle X mgr)\<lparr>busy_count := c\<rparr>"
  by (simp_all add: gxp_pm_on_busy_def gxp_pm_on_idle_def pm_hw_simps)

lemma busy_repeat:
  assumes "Suc n < 2 ^ 64"
  shows "(gxp_pm_busy X ^^ Suc n) (mgr\<lparr>busy_count := 0\<rparr>) = (gxp_pm_on_busy X mgr)\<lparr>busy_count := word_of_nat (Suc n)\<rparr>"
  using assms
proof (induction n)
  case 0
  show ?case
    using busy_count_Suc [of 0 X mgr] by (simp add: on_busy_count)
next
  case (Suc n)
  then show ?case
    using busy_count_Suc [of "Suc n" X "gxp_pm_on_busy X mgr"] by (simp del: of_nat_Suc)
qed

lemma idle_repeat:
  assumes "n < 2 ^ 64 - 1" and "0 < n"
  shows "(gxp_pm_idle X ^^ n) (mgr\<lparr>busy_count := word_of_nat n\<rparr>) = (gxp_pm_on_idle X mgr)\<lparr>busy_count := 0\<rparr>"
  using assms
proof (induction n)
  case (Suc n)
  have "(gxp_pm_idle X ^^ Suc n) (mgr\<lparr>busy_count := word_of_nat (Suc n)\<rparr>) =
      (gxp_pm_idle X ^^ n) (gxp_pm_idle X (mgr\<lparr>busy_count := word_of_nat (Suc n)\<rparr>))"
    by (simp add: funpow_swap1)
  then show ?case
    using idle_count_Suc [of n X mgr] Suc by (cases n) (simp_all add: on_busy_count del: of_nat_Suc)
qed simp

text \<open>Nested requests to the firmware switch the clock once: after the block is on, any number of
  overlapping requests switches to the normal clock when the first one starts and to the idle clock
  when the last one ends, and nothing else happens in between.\<close>

theorem busy_idle_nest:
  assumes "busy_count mgr = 0" and "0 < n" and "n < 2 ^ 64 - 1"
  shows "(gxp_pm_idle X ^^ n) ((gxp_pm_busy X ^^ n) mgr) = gxp_pm_on_idle X (gxp_pm_on_busy X mgr)"
proof -
  obtain k where n: "n = Suc k"
    using assms(2) by (cases n) auto
  have upd: "mgr\<lparr>busy_count := 0\<rparr> = mgr"
    using assms(1) by simp
  have "(gxp_pm_busy X ^^ n) mgr = (gxp_pm_on_busy X mgr)\<lparr>busy_count := word_of_nat n\<rparr>"
    using busy_repeat [of k X mgr] assms(3) n upd by (simp del: of_nat_Suc funpow.simps)
  moreover have "gxp_pm_on_idle X (gxp_pm_on_busy X mgr) =
      (gxp_pm_on_idle X (gxp_pm_on_busy X mgr))\<lparr>busy_count := 0\<rparr>"
    by (simp add: upd flip: on_busy_count(3,4))
  ultimately show ?thesis
    using idle_repeat [OF assms(3,2), of X "gxp_pm_on_busy X mgr"] by simp
qed

theorem busy_idle_nest_witness:
  "(gxp_pm_idle quiet_board ^^ 3) ((gxp_pm_busy quiet_board ^^ 3) (snd (gxp_pm_blk_on quiet_board quiet_mgr))) =
    gxp_pm_on_idle quiet_board (gxp_pm_on_busy quiet_board (snd (gxp_pm_blk_on quiet_board quiet_mgr)))"
  by (rule busy_idle_nest) (simp_all add: quiet_on)

section \<open>Memory requests\<close>

text \<open>C24: The request for memory bandwidth survives its encoding: two frequencies that are whole
  numbers of MHz below 65536 MHz come back from the 64-bit value of a worker unchanged, so in particular
  what each memory power state stands for.\<close>

theorem pm_arg_roundtrip:
  assumes "i < 2 ^ 16" and "j < 2 ^ 16"
  shows "pm_arg_decode q (pm_arg_encode q (word_of_nat (1000 * i)) (word_of_nat (1000 * j))) =
    (word_of_nat (1000 * i), word_of_nat (1000 * j))"
proof -
  have ext: "(scast (word_of_nat (1000 * k) :: u32) :: u64) div PM_QOS_FACTOR = word_of_nat k" if "k < 2 ^ 16" for k
  proof -
    have eq: "(scast (word_of_nat (1000 * k) :: u32) :: u64) = word_of_nat (1000 * k)"
      using that by (simp add: signed_of_nat signed_take_bit_int_eq_self del: of_nat_mult)
    have "unat ((word_of_nat (1000 * k) :: u64) div PM_QOS_FACTOR) = k"
      using that by (simp add: PM_QOS_FACTOR_def unat_div_distrib unat_of_nat_lt del: of_nat_mult)
    then show ?thesis
      unfolding eq word_unat_eq_iff using that unat_of_nat_lt [of k, where 'a = 64] by simp
  qed
  have small: "n < 16" if "bit k n" and "k < 2 ^ 16" for k n :: nat
  proof (rule ccontr)
    assume "\<not> n < 16"
    then have "k < 2 ^ n"
      using that(2) power_increasing [of 16 n "2 :: nat"] by simp
    with that(1) show False
      by (simp add: bit_iff_odd)
  qed
  note bits = small [OF _ assms(1)] small [OF _ assms(2)]
  let ?v = "push_bit 16 (word_of_nat i) OR word_of_nat j :: u64"
  have hi: "drop_bit 16 ?v = word_of_nat i"
    by (rule bit_word_eqI) (auto simp: bit_simps dest: bits)
  have lo: "?v AND mask 16 = word_of_nat j"
    by (rule bit_word_eqI) (auto simp: bit_simps dest: bits)
  have cast: "(ucast (word_of_nat k * 1000 :: u64) :: u32) = word_of_nat (1000 * k)" for k
  proof -
    have "word_of_nat k * 1000 = (word_of_nat (1000 * k) :: u64)"
      by simp
    moreover have "(ucast (word_of_nat m :: u64) :: u32) = word_of_nat m" for m
      by (rule bit_word_eqI) (auto simp: bit_simps)
    ultimately show ?thesis
      by (simp only:)
  qed
  have mask: "PM_QOS_MIF_MASK = mask 16"
    by (simp add: PM_QOS_MIF_MASK_def mask_numeral)
  show ?thesis
    unfolding pm_arg_decode_def pm_arg_encode_def ext [OF assms(1)] ext [OF assms(2)]
    by (simp only: PM_QOS_INT_SHIFT_def PM_QOS_FACTOR_def mask hi lo cast)
qed

theorem pm_arg_roundtrip_witness:
  "pm_arg_decode MEMORY_INT_QOS_REQ
     (pm_arg_encode MEMORY_INT_QOS_REQ (aur_memory_state2int_table ! 6) (aur_memory_state2mif_table ! 6)) =
    (1066000, 3744000)"
  using pm_arg_roundtrip [of 1066 3744 MEMORY_INT_QOS_REQ]
  by (simp add: aur_memory_state2int_table_def aur_memory_state2mif_table_def)

end
