(* ===== verification/Telemetry.thy ===== *)
theory Telemetry
  imports Gcip_Prelude
begin

text \<open>
  Telemetry of a GCIP device (gcip-telemetry.c, gcip-telemetry.h): a buffer shared with the firmware
  that holds a header and a ring of log or trace entries, the interrupt handler, the worker that
  tells the runtime or consumes the ring itself, and the mapping count.

  The shared memory is a record of the header's fields and the bytes of the ring. The firmware may
  change it at any moment; where the code reads it in a loop, what the firmware does between two
  rounds is an argument, a function of the number of the round. Reading outside the ring is a
  fault, a value of its own.
\<close>

section \<open>State\<close>

record tel_shared =
  th_head :: u32
  th_size :: u32
  th_tail :: u32
  th_entries_dropped :: u32
  th_ring :: "u8 list" \<comment> \<open>the bytes after the header\<close>

abbreviation (input) sizeof_header :: nat where "sizeof_header \<equiv> 128"
abbreviation (input) sizeof_entry :: nat where "sizeof_entry \<equiv> 14"

record gcip_log_entry_header =
  le_code :: u16 \<comment> \<open>signed\<close>
  le_length :: u16
  le_timestamp :: u64
  le_crc16 :: u16

datatype gcip_telemetry_state = GCIP_TELEMETRY_DISABLED | GCIP_TELEMETRY_ENABLED | GCIP_TELEMETRY_INVALID

datatype gcip_telemetry_type =
  GCIP_TELEMETRY_TYPE_LOG | GCIP_TELEMETRY_TYPE_TRACE | GCIP_TELEMETRY_TYPE_OPAQUE | GCIP_TELEMETRY_TYPE_COUNT

datatype fallback_fn = Fw_Log | Fw_Trace

datatype log_level = Log_Dbg | Log_Info | Log_Warn | Log_Err

datatype tel_print =
  Fw_Print log_level "u8 list"
| Log_Queue_Corrupted
| Failed_To_Consume

text \<open>
  The telemetry object. Event file descriptors are names; \<open>ev_signals\<close> lists the signalled ones, \<open>ev_puts\<close>
  the references that were dropped, \<open>dmesg\<close> what was printed.
\<close>

record gcip_telemetry =
  tel_type :: gcip_telemetry_type
  tel_mem_virt :: bool
  tel_mem_dma_addr :: u64
  tel_mem_size :: u64
  tel_mem_host_addr :: u64
  tel_state :: gcip_telemetry_state
  tel_header :: bool \<comment> \<open>whether the header pointer is set\<close>
  tel_ctx :: "nat option"
  tel_work :: bool
  tel_fallback_fn :: "fallback_fn option"
  tel_mmapped_count :: int
  tel_shared :: tel_shared
  ev_signals :: "nat list"
  ev_puts :: "nat list"
  dmesg :: "tel_print list"

section \<open>The ring\<close>

text \<open>\<open>memcpy\<close> out of the ring: \<open>None\<close> if it leaves the ring.\<close>

definition ring_read :: "u8 list \<Rightarrow> nat \<Rightarrow> nat \<Rightarrow> u8 list option" where
  "ring_read ring off n = (if off + n \<le> length ring then Some (take n (drop off ring)) else None)"

definition copy_with_wrap :: "tel_shared \<Rightarrow> u32 \<Rightarrow> u32 \<Rightarrow> (u8 list \<times> tel_shared) option" where
  "copy_with_wrap sh len qsize =
    (let wrap_bit = qsize + of_nat sizeof_header;
         head = th_head sh AND (wrap_bit - 1)
     in if head + len < qsize then
          (case ring_read (th_ring sh) (unat head) (unat len) of
             None \<Rightarrow> None
           | Some bytes \<Rightarrow> Some (bytes, sh\<lparr>th_head := th_head sh + len\<rparr>))
        else
          let remaining = qsize - head in
          (case ring_read (th_ring sh) (unat head) (unat remaining) of
             None \<Rightarrow> None
           | Some b1 \<Rightarrow>
               (case ring_read (th_ring sh) 0 (unat (len - remaining)) of
                  None \<Rightarrow> None
                | Some b2 \<Rightarrow>
                    Some (b1 @ b2, sh\<lparr>th_head :=
                      ((th_head sh AND wrap_bit) XOR wrap_bit) OR (len - remaining)\<rparr>))))"

text \<open>The packed little-endian layout of an entry header.\<close>

definition le16 :: "u8 \<Rightarrow> u8 \<Rightarrow> u16" where
  "le16 b0 b1 = ucast b0 OR push_bit 8 (ucast b1)"

definition parse_entry :: "u8 list \<Rightarrow> gcip_log_entry_header" where
  "parse_entry b =
    \<lparr>le_code = le16 (b ! 0) (b ! 1), le_length = le16 (b ! 2) (b ! 3),
     le_timestamp = foldr (\<lambda>x acc. ucast x OR push_bit 8 acc) (take 8 (drop 4 b)) 0,
     le_crc16 = le16 (b ! 12) (b ! 13)\<rparr>"

definition GCIP_FW_DMESG_LOG_LEVEL :: int where "GCIP_FW_DMESG_LOG_LEVEL = 0"

definition level_of :: "int \<Rightarrow> log_level" where
  "level_of code =
    (if code = 2 \<or> code = 1 then Log_Dbg
     else if code = - 1 then Log_Warn
     else if code = - 3 \<or> code = - 2 then Log_Err
     else Log_Info)"

text \<open>What \<open>%s\<close> prints of a buffer that the code has terminated with a zero byte.\<close>

definition c_string :: "u8 list \<Rightarrow> u8 list" where
  "c_string buf = takeWhile (\<lambda>b. b \<noteq> 0) buf"

text \<open>
  One round of the loop of \<open>gcip_telemetry_fw_log\<close>: what was printed, the memory afterwards and whether
  to go on. \<open>queue_size\<close> is the size the function read when it started.
\<close>

definition fw_log_round ::
    "u64 \<Rightarrow> tel_shared \<Rightarrow> (tel_print list \<times> tel_shared \<times> bool) option" where
  "fw_log_round queue_size sh =
    (case copy_with_wrap sh (of_nat sizeof_entry) (ucast queue_size) of
       None \<Rightarrow> None
     | Some (eb, sh) \<Rightarrow>
         let entry = parse_entry eb; max_length = queue_size - of_nat sizeof_entry in
         if le_length entry = 0 \<or> ucast (le_length entry) > max_length
         then Some ([Log_Queue_Corrupted], sh\<lparr>th_head := th_tail sh\<rparr>, False)
         else
           (case copy_with_wrap sh (ucast (le_length entry)) (ucast queue_size) of
              None \<Rightarrow> None
            | Some (buf, sh) \<Rightarrow>
                Some (if sint (le_code entry) > GCIP_FW_DMESG_LOG_LEVEL then []
                      else [Fw_Print (level_of (sint (le_code entry))) (c_string buf)], sh, True)))"

text \<open>
  The loop: \<open>env n\<close> is what the firmware does to the memory before round \<open>n\<close>. It need not end, so
  not returning is \<open>None\<close>; a fault is \<open>Some None\<close>.
\<close>

partial_function (option) fw_log_loop ::
    "(nat \<Rightarrow> tel_shared \<Rightarrow> tel_shared) \<Rightarrow> u64 \<Rightarrow> nat \<Rightarrow> tel_print list \<Rightarrow> tel_shared \<Rightarrow>
      (tel_print list \<times> tel_shared) option option" where
  "fw_log_loop env queue_size n out sh =
    (let sh = env n sh in
     if th_head sh = th_tail sh then Some (Some (out, sh))
     else (case fw_log_round queue_size sh of
             None \<Rightarrow> Some None
           | Some (msgs, sh, again) \<Rightarrow>
               if again then fw_log_loop env queue_size (Suc n) (out @ msgs) sh
               else Some (Some (out @ msgs, sh))))"

definition gcip_telemetry_fw_log ::
    "(nat \<Rightarrow> tel_shared \<Rightarrow> tel_shared) \<Rightarrow> (u64 \<Rightarrow> bool) \<Rightarrow> tel_shared \<Rightarrow>
      (tel_print list \<times> tel_shared) option option" where
  "gcip_telemetry_fw_log env kvmalloc sh =
    (let queue_size = ucast (th_size sh) - of_nat sizeof_header;
         max_length = queue_size - of_nat sizeof_entry
     in if \<not> kvmalloc (max_length + 1) then Some (Some ([], sh\<lparr>th_head := th_tail sh\<rparr>))
        else fw_log_loop env queue_size 0 [] sh)"

definition gcip_telemetry_fw_trace :: "tel_shared \<Rightarrow> tel_shared" where
  "gcip_telemetry_fw_trace sh = sh\<lparr>th_head := th_tail sh\<rparr>"

section \<open>Operations\<close>

text \<open>\<open>send_kci\<close> returns 0, a positive error of the firmware or a negative one of the driver.\<close>

definition gcip_telemetry_kci :: "gcip_telemetry \<Rightarrow> (u64 \<Rightarrow> u32 \<Rightarrow> int) \<Rightarrow> int" where
  "gcip_telemetry_kci tel send_kci =
    (let err = send_kci (tel_mem_dma_addr tel) (ucast (tel_mem_size tel)) in
     if err < 0 then err else if err > 0 then - EBADMSG else 0)"

text \<open>\<open>fdget\<close> is the outcome of \<open>eventfd_ctx_fdget\<close>.\<close>

definition gcip_telemetry_set_event :: "gcip_telemetry \<Rightarrow> (int + nat) \<Rightarrow> int \<times> gcip_telemetry" where
  "gcip_telemetry_set_event tel fdget =
    (case fdget of
       Inl err \<Rightarrow> (err, tel)
     | Inr ctx \<Rightarrow>
         let prev_ctx = tel_ctx tel; tel = tel\<lparr>tel_ctx := Some ctx\<rparr> in
         (0, case prev_ctx of None \<Rightarrow> tel | Some c \<Rightarrow> tel\<lparr>ev_puts := ev_puts tel @ [c]\<rparr>))"

definition gcip_telemetry_unset_event :: "gcip_telemetry \<Rightarrow> gcip_telemetry" where
  "gcip_telemetry_unset_event tel =
    (let prev_ctx = tel_ctx tel; tel = tel\<lparr>tel_ctx := None\<rparr> in
     case prev_ctx of None \<Rightarrow> tel | Some c \<Rightarrow> tel\<lparr>ev_puts := ev_puts tel @ [c]\<rparr>)"

definition gcip_telemetry_irq_handler :: "gcip_telemetry \<Rightarrow> gcip_telemetry" where
  "gcip_telemetry_irq_handler tel =
    (if tel_state tel \<noteq> GCIP_TELEMETRY_ENABLED then tel
     else if tel_header tel \<and> th_head (tel_shared tel) = th_tail (tel_shared tel) then tel
     else tel\<lparr>tel_work := True\<rparr>)"

definition gcip_telemetry_inc_mmap_count :: "gcip_telemetry \<Rightarrow> int \<Rightarrow> gcip_telemetry" where
  "gcip_telemetry_inc_mmap_count tel dif = tel\<lparr>tel_mmapped_count := tel_mmapped_count tel + dif\<rparr>"

definition gcip_telemetry_vma_ops_open :: "gcip_telemetry \<Rightarrow> gcip_telemetry" where
  "gcip_telemetry_vma_ops_open tel = gcip_telemetry_inc_mmap_count tel 1"

definition gcip_telemetry_vma_ops_close :: "gcip_telemetry \<Rightarrow> gcip_telemetry" where
  "gcip_telemetry_vma_ops_close tel = gcip_telemetry_inc_mmap_count tel (- 1)"

text \<open>
  An area to map: its bounds, its page offset, the three flags that \<open>gcip_telemetry_mmap\<close> sets together,
  write combining, and whether it has the operations and the telemetry attached. \<open>remap\<close> is
  \<open>remap_pfn_range\<close> of that many bytes on the area as it then is.
\<close>

record vm_area_struct =
  vm_start :: u64
  vm_end :: u64
  vm_pgoff :: u64
  vm_dont :: bool
  vm_writecombine :: bool
  vm_attached :: bool

definition gcip_telemetry_mmap ::
    "(vm_area_struct \<Rightarrow> u64 \<Rightarrow> int) \<Rightarrow> gcip_telemetry \<Rightarrow> vm_area_struct \<Rightarrow>
      int \<times> gcip_telemetry \<times> vm_area_struct" where
  "gcip_telemetry_mmap remap tel vma =
    (let sz = min (vm_end vma - vm_start vma) (tel_mem_size tel); orig_pgoff = vm_pgoff vma in
     if sz = 0 then (- EINVAL, tel, vma)
     else if tel_mmapped_count tel \<noteq> 0 then (- EBUSY, tel, vma)
     else
       let vma = vma\<lparr>vm_dont := True, vm_writecombine := True, vm_pgoff := 0\<rparr>;
           ret = remap vma sz;
           vma = vma\<lparr>vm_pgoff := orig_pgoff\<rparr>
       in if ret \<noteq> 0 then (ret, tel, vma)
          else (0, tel\<lparr>tel_mmapped_count := 1, tel_mem_host_addr := vm_start vma\<rparr>,
                vma\<lparr>vm_attached := True\<rparr>))"

text \<open>
  The worker. One round under the lock, then a pause; \<open>env m\<close> is what the firmware does during the
  pause after round \<open>m\<close>, \<open>fwenv m\<close> what it does while the fallback function of round \<open>m\<close> runs, \<open>kvmalloc\<close>
  whether that much memory can be had, \<open>others m\<close> what other threads do to the object before round \<open>m\<close>.
\<close>

definition worker_round ::
    "(nat \<Rightarrow> tel_shared \<Rightarrow> tel_shared) \<Rightarrow> (u64 \<Rightarrow> bool) \<Rightarrow> gcip_telemetry \<Rightarrow> gcip_telemetry option option" where
  "worker_round fwenv kvmalloc tel =
    (case tel_ctx tel of
       Some c \<Rightarrow> Some (Some (tel\<lparr>ev_signals := ev_signals tel @ [c]\<rparr>))
     | None \<Rightarrow>
         (case tel_fallback_fn tel of
            None \<Rightarrow> Some (Some (tel\<lparr>dmesg := dmesg tel @ [Failed_To_Consume]\<rparr>))
          | Some Fw_Trace \<Rightarrow> Some (Some (tel\<lparr>tel_shared := gcip_telemetry_fw_trace (tel_shared tel)\<rparr>))
          | Some Fw_Log \<Rightarrow>
              (case gcip_telemetry_fw_log fwenv kvmalloc (tel_shared tel) of
                 None \<Rightarrow> None
               | Some None \<Rightarrow> Some None
               | Some (Some (msgs, sh)) \<Rightarrow> Some (Some (tel\<lparr>tel_shared := sh, dmesg := dmesg tel @ msgs\<rparr>)))))"

partial_function (option) gcip_telemetry_worker ::
    "(nat \<Rightarrow> nat \<Rightarrow> tel_shared \<Rightarrow> tel_shared) \<Rightarrow> (nat \<Rightarrow> tel_shared \<Rightarrow> tel_shared) \<Rightarrow> (u64 \<Rightarrow> bool) \<Rightarrow>
      (nat \<Rightarrow> gcip_telemetry \<Rightarrow> gcip_telemetry) \<Rightarrow> nat \<Rightarrow> gcip_telemetry \<Rightarrow> gcip_telemetry option option" where
  "gcip_telemetry_worker fwenv env kvmalloc others m tel =
    (let tel = others m tel in
     if tel_state tel \<noteq> GCIP_TELEMETRY_ENABLED then Some (Some tel)
     else
       let prev_head = th_head (tel_shared tel) in
       (case worker_round (fwenv m) kvmalloc tel of
          None \<Rightarrow> None
        | Some None \<Rightarrow> Some None
        | Some (Some tel) \<Rightarrow>
            let tel = tel\<lparr>tel_shared := env m (tel_shared tel)\<rparr> in
            if tel_header tel \<and> th_head (tel_shared tel) \<noteq> th_tail (tel_shared tel) \<and>
               th_head (tel_shared tel) \<noteq> prev_head
            then gcip_telemetry_worker fwenv env kvmalloc others (Suc m) tel
            else Some (Some tel)))"

definition is_power_of_2 :: "u64 \<Rightarrow> bool" where
  "is_power_of_2 n \<longleftrightarrow> n \<noteq> 0 \<and> n AND (n - 1) = 0"

definition gcip_telemetry_init :: "gcip_telemetry \<Rightarrow> gcip_telemetry_type \<Rightarrow> int \<times> gcip_telemetry" where
  "gcip_telemetry_init tel ty =
    (if \<not> tel_mem_virt tel \<or> tel_mem_size tel = 0 then (- EINVAL, tel)
     else if \<not> is_power_of_2 (tel_mem_size tel) \<or> tel_mem_size tel \<le> of_nat sizeof_header then (- EINVAL, tel)
     else
       (case (case ty of
                GCIP_TELEMETRY_TYPE_LOG \<Rightarrow> Some (Some Fw_Log, True)
              | GCIP_TELEMETRY_TYPE_TRACE \<Rightarrow> Some (Some Fw_Trace, True)
              | GCIP_TELEMETRY_TYPE_OPAQUE \<Rightarrow> Some (None, False)
              | GCIP_TELEMETRY_TYPE_COUNT \<Rightarrow> None) of
          None \<Rightarrow> (- EINVAL, tel)
        | Some (fallback, header) \<Rightarrow>
            let tel = tel\<lparr>tel_type := ty, tel_fallback_fn := fallback, tel_header := header,
                         tel_ctx := None, tel_state := GCIP_TELEMETRY_ENABLED, tel_mmapped_count := 0\<rparr>;
                tel = (if tel_header tel
                       then tel\<lparr>tel_shared := (tel_shared tel)\<lparr>th_head := 0, th_tail := 0,
                              th_size := ucast (tel_mem_size tel), th_entries_dropped := 0\<rparr>\<rparr>
                       else tel)
            in (0, tel\<lparr>tel_work := False\<rparr>)))"

definition gcip_telemetry_exit :: "gcip_telemetry \<Rightarrow> gcip_telemetry" where
  "gcip_telemetry_exit tel =
    (let tel = (case tel_ctx tel of None \<Rightarrow> tel | Some c \<Rightarrow> tel\<lparr>ev_puts := ev_puts tel @ [c]\<rparr>);
         tel = tel\<lparr>tel_ctx := None, tel_state := GCIP_TELEMETRY_INVALID\<rparr>
     in tel\<lparr>tel_work := False\<rparr>)"

end
