(* ===== verification/Telemetry_Laws.thy ===== *)
theory Telemetry_Laws
  imports Telemetry
begin

text \<open>
  The ring of telemetry. A cursor \<open>v\<close> counts bytes; \<open>ring_cursor\<close> is the word that the header holds for it, an
  offset below the size of the ring and a flag at the wrap bit that flips at each turn. One copy out of
  the ring reads the bytes at the cursor, around the end, and moves it (\<open>copy_with_wrap_reads\<close>). From this:
  the logger prints a well-formed ring, it stays inside the ring whatever the firmware writes, and what a
  bad tail does to it.
\<close>

section \<open>Cursors\<close>

definition tel_qsize :: "nat \<Rightarrow> nat" where
  "tel_qsize k = 2 ^ k - sizeof_header"

definition ring_index :: "nat \<Rightarrow> nat \<Rightarrow> nat" where
  "ring_index k v =
    (let p = v mod (2 * tel_qsize k) in if p < tel_qsize k then p else p - tel_qsize k + 2 ^ k)"

definition ring_cursor :: "nat \<Rightarrow> nat \<Rightarrow> u32" where
  "ring_cursor k v = of_nat (ring_index k v)"

definition ring_bytes :: "u8 list \<Rightarrow> nat \<Rightarrow> nat \<Rightarrow> nat \<Rightarrow> u8 list" where
  "ring_bytes ring k v n = map (\<lambda>i. ring ! ((v + i) mod tel_qsize k)) [0..<n]"

definition tel_size_ok :: "nat \<Rightarrow> bool" where
  "tel_size_ok k \<longleftrightarrow> 8 \<le> k \<and> k \<le> 31"

lemma tel_size_bounds:
  assumes "tel_size_ok k"
  shows "(256::nat) \<le> 2 ^ k" "(2::nat) ^ k \<le> 2147483648" "tel_qsize k + 128 = 2 ^ k" "128 \<le> tel_qsize k"
proof -
  have "(2::nat) ^ 8 \<le> 2 ^ k" "(2::nat) ^ k \<le> 2 ^ 31"
    using assms unfolding tel_size_ok_def by (intro power_increasing; simp)+
  then show "(256::nat) \<le> 2 ^ k" "(2::nat) ^ k \<le> 2147483648" by simp_all
  then show "tel_qsize k + 128 = 2 ^ k" "128 \<le> tel_qsize k" by (simp_all add: tel_qsize_def)
qed

lemma ring_index_cases:
  assumes "tel_size_ok k"
  obtains (low) "v mod (2 * tel_qsize k) = v mod tel_qsize k" "ring_index k v = v mod tel_qsize k"
  | (high) "v mod (2 * tel_qsize k) = v mod tel_qsize k + tel_qsize k" "ring_index k v = v mod tel_qsize k + 2 ^ k"
proof -
  let ?q = "tel_qsize k"
  have q: "0 < ?q" using tel_size_bounds[OF assms] by simp
  have m: "v mod (2 * ?q) mod ?q = v mod ?q" by (simp add: mod_mod_cancel)
  have l: "v mod (2 * ?q) < 2 * ?q" using q by simp
  show ?thesis
  proof (cases "v mod (2 * ?q) < ?q")
    case True
    then show ?thesis using m low by (simp add: ring_index_def)
  next
    case False
    then have "v mod (2 * ?q) mod ?q = v mod (2 * ?q) - ?q"
      using l by (subst le_mod_geq) (simp_all add: mod_less)
    then have "v mod (2 * ?q) = v mod ?q + ?q" using m False by linarith
    moreover from this have "ring_index k v = v mod ?q + 2 ^ k" using False by (simp add: ring_index_def)
    ultimately show ?thesis using high by blast
  qed
qed

lemma ring_index_bound:
  assumes "tel_size_ok k"
  shows "ring_index k v < 4294967296"
proof -
  have "v mod tel_qsize k < tel_qsize k" using tel_size_bounds[OF assms] by simp
  then show ?thesis
    using tel_size_bounds[OF assms] by (cases rule: ring_index_cases[OF assms, of v]) linarith+
qed

lemma ring_cursor_eq_iff:
  assumes "tel_size_ok k"
  shows "ring_cursor k v = ring_cursor k w \<longleftrightarrow> v mod (2 * tel_qsize k) = w mod (2 * tel_qsize k)"
proof -
  have "ring_cursor k v = ring_cursor k w \<longleftrightarrow> ring_index k v = ring_index k w"
    unfolding ring_cursor_def
    by (rule word_of_nat_inj) (use ring_index_bound[OF assms] in simp_all)
  moreover have "u mod tel_qsize k < tel_qsize k" for u using tel_size_bounds[OF assms] by simp
  ultimately show ?thesis
    using tel_size_bounds[OF assms]
    by (cases rule: ring_index_cases[OF assms, of v]; cases rule: ring_index_cases[OF assms, of w])
      (metis add_left_cancel trans_less_add2 nat_neq_iff add.commute le_add2 not_le)+
qed

lemma ring_index_step:
  assumes "tel_size_ok k" "n \<le> tel_qsize k"
  shows "v mod tel_qsize k + n < tel_qsize k \<Longrightarrow> ring_index k (v + n) = ring_index k v + n"
    and "v mod tel_qsize k + n \<ge> tel_qsize k \<Longrightarrow>
      ring_index k (v + n) =
        (if ring_index k v < 2 ^ k then 2 ^ k else 0) + (v mod tel_qsize k + n - tel_qsize k)"
proof -
  let ?q = "tel_qsize k"
  have b: "?q + 128 = 2 ^ k" "128 \<le> ?q" using tel_size_bounds[OF assms(1)] by simp_all
  have l: "v mod ?q < ?q" using b by simp
  have s: "(v + n) mod (2 * ?q) = (v mod (2 * ?q) + n) mod (2 * ?q)" by (simp add: mod_simps)
  show "ring_index k (v + n) = ring_index k v + n" if "v mod ?q + n < ?q"
    using that l b s
    by (cases rule: ring_index_cases[OF assms(1), of v]) (simp_all add: ring_index_def[of k "v + n"])
  show "ring_index k (v + n) =
        (if ring_index k v < 2 ^ k then 2 ^ k else 0) + (v mod ?q + n - ?q)" if "v mod ?q + n \<ge> ?q"
    using assms(1)
  proof (cases rule: ring_index_cases[where v = v])
    case low
    have "v mod ?q + n < 2 * ?q" using l assms(2) by linarith
    then have "(v + n) mod (2 * ?q) = v mod ?q + n" using s low by simp
    then have "ring_index k (v + n) = v mod ?q + n - ?q + 2 ^ k"
      using that by (simp add: ring_index_def[of k "v + n"])
    moreover have "ring_index k v < 2 ^ k" using low l b by linarith
    ultimately show ?thesis by simp
  next
    case high
    have "v mod (2 * ?q) + n = 2 * ?q + (v mod ?q + n - ?q)" using high that by linarith
    then have "(v + n) mod (2 * ?q) = v mod ?q + n - ?q"
      using s l assms(2) by (simp del: mod_mult_self1)
    moreover have "v mod ?q + n - ?q < ?q" using l assms(2) by linarith
    ultimately have "ring_index k (v + n) = v mod ?q + n - ?q" by (simp add: ring_index_def[of k "v + n"])
    then show ?thesis using high by simp
  qed
qed

section \<open>Copying\<close>

lemma tel_mod_less: "tel_size_ok k \<Longrightarrow> v mod tel_qsize k < tel_qsize k"
  using tel_size_bounds by fastforce

lemma cursor_masked:
  assumes "tel_size_ok k"
  shows "ring_cursor k v AND (2 ^ k - 1) = of_nat (v mod tel_qsize k)"
proof -
  have l: "v mod tel_qsize k < 2 ^ k"
    using tel_size_bounds[OF assms] tel_mod_less[OF assms, of v] by linarith
  have "ring_index k v mod 2 ^ k = v mod tel_qsize k"
    using l by (cases rule: ring_index_cases[OF assms, of v]) simp_all
  then have "take_bit k (ring_index k v) = v mod tel_qsize k" by (simp add: take_bit_eq_mod)
  then show ?thesis
    by (simp add: ring_cursor_def take_bit_of_nat flip: mask_eq_exp_minus_1 take_bit_eq_mask)
qed

lemma bit_below: "r < 2 ^ k \<Longrightarrow> k \<le> n \<Longrightarrow> \<not> bit (r::nat) n"
  by (metis bit_take_bit_iff not_le take_bit_nat_eq_self)

lemma flag_flip:
  assumes "r < 2 ^ k" "s < 2 ^ k" "k < LENGTH('a)"
  shows "((of_nat s AND 2 ^ k) XOR 2 ^ k) OR of_nat r = (of_nat (2 ^ k + r) :: 'a::len word)"
    and "((of_nat (s + 2 ^ k) AND 2 ^ k) XOR 2 ^ k) OR of_nat r = (of_nat r :: 'a::len word)"
proof -
  have s: "2 ^ k + r = (2 ^ k) OR r" "s + 2 ^ k = s OR (2 ^ k)"
    using assms bit_below by (auto intro!: disjunctive_add simp: bit_exp_iff)
  show "((of_nat s AND 2 ^ k) XOR 2 ^ k) OR of_nat r = (of_nat (2 ^ k + r) :: 'a word)"
    unfolding s using assms bit_below[of s k]
    by (intro bit_word_eqI) (auto simp: bit_simps bit_of_nat_iff)
  show "((of_nat (s + 2 ^ k) AND 2 ^ k) XOR 2 ^ k) OR of_nat r = (of_nat r :: 'a word)"
    unfolding s using assms 
    by (intro bit_word_eqI) (auto simp: bit_simps bit_of_nat_iff)
qed

lemma cursor_flip:
  assumes k: "tel_size_ok k" and n: "n \<le> tel_qsize k" and f: "tel_qsize k \<le> v mod tel_qsize k + n"
  shows "((ring_cursor k v AND 2 ^ k) XOR 2 ^ k) OR of_nat (v mod tel_qsize k + n - tel_qsize k) =
    ring_cursor k (v + n)"
proof -
  let ?p = "v mod tel_qsize k" and ?r = "v mod tel_qsize k + n - tel_qsize k"
  note b = tel_size_bounds[OF k] and l = tel_mod_less[OF k, of v]
  have lt: "?r < 2 ^ k" "?p < 2 ^ k" using b l n by linarith+
  have kk: "k < LENGTH(32)" using k by (simp add: tel_size_ok_def)
  note flip = flag_flip[OF lt kk] and step = ring_index_step(2)[OF k n f]
  show ?thesis
  proof (cases rule: ring_index_cases[OF k, of v])
    case 1
    then show ?thesis using flip(1) step lt unfolding ring_cursor_def by presburger
  next
    case 2
    then have "ring_index k (v + n) = ?r" using step by simp
    then show ?thesis using flip(2) unfolding ring_cursor_def 2(2) by simp
  qed
qed

lemma ring_bytes_split:
  assumes "tel_size_ok k" "length ring = tel_qsize k" "n \<le> tel_qsize k"
  shows "v mod tel_qsize k + n \<le> tel_qsize k \<Longrightarrow>
      ring_bytes ring k v n = take n (drop (v mod tel_qsize k) ring)"
    and "tel_qsize k \<le> v mod tel_qsize k + n \<Longrightarrow>
      ring_bytes ring k v n =
        drop (v mod tel_qsize k) ring @ take (v mod tel_qsize k + n - tel_qsize k) ring"
proof -
  let ?q = "tel_qsize k" and ?p = "v mod tel_qsize k"
  have l: "?p < ?q" by (rule tel_mod_less[OF assms(1)])
  have m: "(v + i) mod ?q = (?p + i) mod ?q" for i by (simp add: mod_simps)
  show "ring_bytes ring k v n = take n (drop ?p ring)" if "?p + n \<le> ?q"
    using that assms(2) by (intro nth_equalityI) (simp_all add: ring_bytes_def m)
  show "ring_bytes ring k v n = drop ?p ring @ take (?p + n - ?q) ring" if h: "?q \<le> ?p + n"
  proof (intro nth_equalityI)
    show "length (ring_bytes ring k v n) = length (drop ?p ring @ take (?p + n - ?q) ring)"
      using that assms(2,3) l by (simp add: ring_bytes_def)
    fix i
    assume "i < length (ring_bytes ring k v n)"
    then have i: "i < n" by (simp add: ring_bytes_def)
    have "(?p + i) mod ?q = ?p + i - ?q" if "?q \<le> ?p + i"
    proof -
      have "?p + i - ?q < ?q" using i l assms(3) by linarith
      then show ?thesis using le_mod_geq[OF that] mod_less[of "?p + i - ?q" ?q] by argo
    qed
    then show "ring_bytes ring k v n ! i = (drop ?p ring @ take (?p + n - ?q) ring) ! i"
      using i l assms(2) by (auto simp: ring_bytes_def m nth_append intro: arg_cong[where f = "nth ring"])
  qed
qed

lemma copy_with_wrap_reads:
  assumes k: "tel_size_ok k" and ring: "length (th_ring sh) = tel_qsize k"
    and head: "th_head sh = ring_cursor k v" and n: "n \<le> tel_qsize k"
  shows "copy_with_wrap sh (of_nat n) (of_nat (tel_qsize k)) =
    Some (ring_bytes (th_ring sh) k v n, sh\<lparr>th_head := ring_cursor k (v + n)\<rparr>)"
proof -
  let ?q = "tel_qsize k" and ?p = "v mod tel_qsize k"
  note b = tel_size_bounds[OF k]
  have l: "?p < ?q" by (rule tel_mod_less[OF k])
  have w: "of_nat ?q + of_nat 128 = (2 ^ k :: u32)"
    using b(3) by (metis of_nat_add of_nat_numeral of_nat_power)
  have u: "unat (of_nat m :: u32) = m" if "m \<le> 4294967295" for m
    using that by (simp add: unat_of_nat_lt)
  have small: "m \<le> 4294967295" if "m \<le> 2 * ?q" for m using that b by linarith
  have sum: "(of_nat ?p + of_nat n :: u32) = of_nat (?p + n)" by simp
  have cmp: "(of_nat ?p + of_nat n :: u32) < of_nat ?q \<longleftrightarrow> ?p + n < ?q"
    unfolding sum word_less_nat_alt using l n by (simp only: u[OF small])
  have rem: "(of_nat ?q - of_nat ?p :: u32) = of_nat (?q - ?p)" using l by (simp add: of_nat_diff)
  have rest: "(of_nat n - of_nat (?q - ?p) :: u32) = of_nat (?p + n - ?q)" if "?q \<le> ?p + n"
    using that l by (simp add: of_nat_diff algebra_simps)
  show ?thesis
  proof (cases "?p + n < ?q")
    case True
    then show ?thesis
      unfolding copy_with_wrap_def Let_def w head cursor_masked[OF k] cmp
      using ring n l ring_bytes_split(1)[OF k ring n, of v] ring_index_step(1)[OF k n, of v]
      by (simp add: ring_read_def u small ring_cursor_def add.commute)
  next
    case False
    then have f: "?q \<le> ?p + n" by simp
    have "((ring_cursor k v AND 2 ^ k) XOR 2 ^ k) OR of_nat (?p + n - ?q) = ring_cursor k (v + n)"
      by (rule cursor_flip[OF k n f])
    moreover have "unat (of_nat (?q - ?p) :: u32) = ?q - ?p" "unat (of_nat ?p :: u32) = ?p"
      "unat (of_nat (?p + n - ?q) :: u32) = ?p + n - ?q"
      using l n by (intro u small; linarith)+
    ultimately show ?thesis
      unfolding copy_with_wrap_def Let_def w head cursor_masked[OF k] cmp rem rest[OF f]
      using ring l n f ring_bytes_split(2)[OF k ring n f]
      by (simp add: ring_read_def del: of_nat_diff)
  qed
qed

section \<open>Entries\<close>

definition enc16 :: "u16 \<Rightarrow> u8 list" where
  "enc16 w = [ucast w, ucast (drop_bit 8 w)]"

definition enc64 :: "u64 \<Rightarrow> u8 list" where
  "enc64 w = map (\<lambda>i. ucast (drop_bit (8 * i) w)) [0..<8]"

definition enc_entry :: "gcip_log_entry_header \<Rightarrow> u8 list" where
  "enc_entry e = enc16 (le_code e) @ enc16 (le_length e) @ enc64 (le_timestamp e) @ enc16 (le_crc16 e)"

lemma le16_enc16: "le16 (ucast w) (ucast (drop_bit 8 w)) = w"
  unfolding le16_def by (intro bit_word_eqI) (auto simp: bit_simps)

lemma length_enc_entry [simp]: "length (enc_entry e) = 14"
  by (simp add: enc_entry_def enc16_def enc64_def)

lemma byte_join: "ucast (ucast (drop_bit n x) :: u8) OR push_bit 8 (drop_bit (n + 8) x) = drop_bit n (x :: u64)"
proof (intro bit_word_eqI)
  fix i
  have "\<not> i < 8 \<Longrightarrow> n + 8 + (i - 8) = n + i" by simp
  then show "bit (ucast (ucast (drop_bit n x) :: u8) OR push_bit 8 (drop_bit (n + 8) x)) i = bit (drop_bit n x) i"
    if "i < LENGTH(64)"
    using that by (cases "i < 8") (auto simp: bit_simps)
qed

lemma dec64_suffix:
  "m \<le> 8 \<Longrightarrow>
    foldr (\<lambda>x acc. ucast x OR push_bit 8 acc) (map (\<lambda>i. ucast (drop_bit (8 * i) w) :: u8) [8 - m..<8]) 0 =
      drop_bit (8 * (8 - m)) (w :: u64)"
proof (induction m)
  case 0
  show ?case by (intro bit_word_eqI) (auto simp: bit_simps dest: bit_imp_le_length)
next
  case (Suc m)
  then have "[8 - Suc m..<8] = (8 - Suc m) # [8 - m..<8]" by (metis Suc_diff_Suc Suc_le_lessD diff_less upt_conv_Cons zero_less_Suc zero_less_numeral)
  moreover have "8 * (8 - m) = 8 * (8 - Suc m) + 8" using Suc.prems by simp
  ultimately show ?case using Suc byte_join[of "8 * (8 - Suc m)" w] by simp
qed

lemma dec64_enc64: "foldr (\<lambda>x acc. ucast x OR push_bit 8 acc) (enc64 w) 0 = w"
  using dec64_suffix[of 8 w] by (simp add: enc64_def)

lemma parse_enc_entry: "parse_entry (enc_entry e) = e"
proof -
  have "length (enc64 w) = 8" for w by (simp add: enc64_def)
  then show ?thesis
    by (cases e) (simp add: parse_entry_def enc_entry_def enc16_def le16_enc16 nth_append dec64_enc64)
qed

section \<open>Rounds\<close>

definition printed :: "gcip_log_entry_header \<times> u8 list \<Rightarrow> tel_print list" where
  "printed it =
    (if sint (le_code (fst it)) > GCIP_FW_DMESG_LOG_LEVEL then []
     else [Fw_Print (level_of (sint (le_code (fst it)))) (c_string (snd it))])"

lemma ring_bytes_append:
  "ring_bytes ring k v (m + n) = ring_bytes ring k v m @ ring_bytes ring k (v + m) n"
  by (intro nth_equalityI) (auto simp: ring_bytes_def nth_append add.assoc)

lemma length_ring_bytes [simp]: "length (ring_bytes ring k v n) = n"
  by (simp add: ring_bytes_def)

text \<open>The memory is laid out for a ring of \<open>2 ^ k\<close> bytes, header included, with the head at \<open>v\<close>.\<close>

definition ring_at :: "nat \<Rightarrow> nat \<Rightarrow> tel_shared \<Rightarrow> bool" where
  "ring_at k v sh \<longleftrightarrow>
    tel_size_ok k \<and> length (th_ring sh) = tel_qsize k \<and> th_head sh = ring_cursor k v"

lemma ucast_qsize: "tel_size_ok k \<Longrightarrow> (ucast (of_nat (tel_qsize k) :: u64) :: u32) = of_nat (tel_qsize k)"
  using tel_size_bounds[of k] by (simp add: unsigned_of_nat take_bit_nat_eq_self)

lemma max_length_less:
  assumes "tel_size_ok k"
  shows "(ucast (w :: u16) :: u64) > of_nat (tel_qsize k) - of_nat sizeof_entry \<longleftrightarrow> tel_qsize k < unat w + 14"
proof -
  have "(of_nat (tel_qsize k) - of_nat 14 :: u64) = of_nat (tel_qsize k - 14)"
    using tel_size_bounds[OF assms] by (simp add: of_nat_diff)
  moreover have "unat (of_nat (tel_qsize k - 14) :: u64) = tel_qsize k - 14"
    by (rule unat_of_nat_lt) (use tel_size_bounds[OF assms] in simp)
  moreover have "unat (ucast w :: u64) = unat w" using unsigned_less[of w, where 'a = nat] by (simp add: unsigned_ucast_eq take_bit_eq_mod)
  ultimately show ?thesis
    using tel_size_bounds[OF assms] unfolding word_less_nat_alt by auto
qed

lemma fw_log_round_at:
  assumes at: "ring_at k v sh"
  defines "e \<equiv> parse_entry (ring_bytes (th_ring sh) k v 14)"
  shows "fw_log_round (of_nat (tel_qsize k)) sh =
    (if le_length e = 0 \<or> tel_qsize k < unat (le_length e) + 14
     then Some ([Log_Queue_Corrupted], sh\<lparr>th_head := th_tail sh\<rparr>, False)
     else Some (printed (e, ring_bytes (th_ring sh) k (v + 14) (unat (le_length e))),
                sh\<lparr>th_head := ring_cursor k (v + 14 + unat (le_length e))\<rparr>, True))"
proof -
  have k: "tel_size_ok k" and ring: "length (th_ring sh) = tel_qsize k" and head: "th_head sh = ring_cursor k v"
    using at by (auto simp: ring_at_def)
  have first: "copy_with_wrap sh (of_nat 14) (of_nat (tel_qsize k)) =
      Some (ring_bytes (th_ring sh) k v 14, sh\<lparr>th_head := ring_cursor k (v + 14)\<rparr>)"
    using tel_size_bounds[OF k] by (intro copy_with_wrap_reads[OF k ring head]) simp
  have uc: "(ucast w :: u32) = of_nat (unat w)" for w :: u16 by (simp add: of_nat_unat)
  have second: "copy_with_wrap (sh\<lparr>th_head := ring_cursor k (v + 14)\<rparr>) (ucast w) (of_nat (tel_qsize k)) =
      Some (ring_bytes (th_ring sh) k (v + 14) (unat w), sh\<lparr>th_head := ring_cursor k (v + 14 + unat w)\<rparr>)"
    if "\<not> tel_qsize k < unat w + 14" for w :: u16
    using copy_with_wrap_reads[OF k, of "sh\<lparr>th_head := ring_cursor k (v + 14)\<rparr>" "v + 14" "unat w"] ring that
    unfolding uc by simp
  show ?thesis
    unfolding fw_log_round_def ucast_qsize[OF k] first Let_def max_length_less[OF k] option.case prod.case
    using second[of "le_length e"] by (simp add: e_def[symmetric] printed_def)
qed

section \<open>Draining a well-formed ring\<close>

definition item_ok :: "nat \<Rightarrow> gcip_log_entry_header \<times> u8 list \<Rightarrow> bool" where
  "item_ok k it \<longleftrightarrow>
    unat (le_length (fst it)) = length (snd it) \<and> snd it \<noteq> [] \<and> length (snd it) + 14 \<le> tel_qsize k"

definition item_bytes :: "gcip_log_entry_header \<times> u8 list \<Rightarrow> u8 list" where
  "item_bytes it = enc_entry (fst it) @ snd it"

definition items_bytes :: "(gcip_log_entry_header \<times> u8 list) list \<Rightarrow> u8 list" where
  "items_bytes its = concat (map item_bytes its)"

text \<open>The ring holds exactly those items from the head to the tail.\<close>

definition ring_holds :: "nat \<Rightarrow> nat \<Rightarrow> (gcip_log_entry_header \<times> u8 list) list \<Rightarrow> tel_shared \<Rightarrow> bool" where
  "ring_holds k v its sh \<longleftrightarrow>
    ring_at k v sh \<and> th_size sh = of_nat (2 ^ k) \<and> list_all (item_ok k) its \<and>
    length (items_bytes its) \<le> tel_qsize k \<and>
    ring_bytes (th_ring sh) k v (length (items_bytes its)) = items_bytes its \<and>
    th_tail sh = ring_cursor k (v + length (items_bytes its))"

lemma item_bytes_length: "item_ok k it \<Longrightarrow> length (item_bytes it) = 14 + unat (le_length (fst it))"
  by (simp add: item_bytes_def item_ok_def)

lemma ring_cursor_differs:
  assumes "tel_size_ok k" "0 < n" "n \<le> tel_qsize k"
  shows "ring_cursor k v \<noteq> ring_cursor k (v + n)"
proof
  assume "ring_cursor k v = ring_cursor k (v + n)"
  then have "v mod (2 * tel_qsize k) = (v + n) mod (2 * tel_qsize k)"
    using ring_cursor_eq_iff[OF assms(1)] by blast
  then have "2 * tel_qsize k dvd n" by (metis add_diff_cancel_left' mod_eq_dvd_iff_nat le_add1)
  then show False using assms by (auto dest: dvd_imp_le)
qed

lemma fw_log_round_item:
  assumes holds: "ring_holds k v (it # its) sh"
  defines "n \<equiv> length (item_bytes it)"
  shows "fw_log_round (of_nat (tel_qsize k)) sh =
      Some (printed it, sh\<lparr>th_head := ring_cursor k (v + n)\<rparr>, True)"
    and "ring_holds k (v + n) its (sh\<lparr>th_head := ring_cursor k (v + n)\<rparr>)"
    and "th_head sh \<noteq> th_tail sh"
proof -
  let ?e = "fst it" and ?t = "snd it" and ?r = "length (items_bytes its)"
  have ok: "item_ok k it" and at: "ring_at k v sh" using holds by (auto simp: ring_holds_def)
  have n: "n = 14 + unat (le_length ?e)" using item_bytes_length[OF ok] by (simp add: n_def)
  have tot: "length (items_bytes (it # its)) = n + ?r" by (simp add: items_bytes_def n_def)
  have "ring_bytes (th_ring sh) k v (n + ?r) = item_bytes it @ items_bytes its"
    using holds tot by (simp add: ring_holds_def items_bytes_def)
  then have b: "ring_bytes (th_ring sh) k v n = item_bytes it"
      "ring_bytes (th_ring sh) k (v + n) ?r = items_bytes its"
    by (simp_all add: ring_bytes_append n_def)
  have "ring_bytes (th_ring sh) k v 14 @ ring_bytes (th_ring sh) k (v + 14) (unat (le_length ?e)) = enc_entry ?e @ ?t"
    using b(1) unfolding n ring_bytes_append item_bytes_def .
  then have c: "ring_bytes (th_ring sh) k v 14 = enc_entry ?e"
      "ring_bytes (th_ring sh) k (v + 14) (unat (le_length ?e)) = ?t"
    by simp_all
  show "fw_log_round (of_nat (tel_qsize k)) sh =
      Some (printed it, sh\<lparr>th_head := ring_cursor k (v + n)\<rparr>, True)"
    using ok n fw_log_round_at[OF at] unfolding c parse_enc_entry
    by (auto simp: item_ok_def add.assoc)
  show "ring_holds k (v + n) its (sh\<lparr>th_head := ring_cursor k (v + n)\<rparr>)"
    using holds b tot unfolding ring_holds_def ring_at_def by (simp add: add.assoc)
  have "0 < n + ?r" "n + ?r \<le> tel_qsize k" "th_tail sh = ring_cursor k (v + (n + ?r))"
    using holds tot n by (simp_all add: ring_holds_def)
  then show "th_head sh \<noteq> th_tail sh"
    using ring_cursor_differs[of k "n + ?r" v] at by (simp add: ring_at_def)
qed

lemma fw_log_loop_drains:
  "ring_holds k v its sh \<Longrightarrow>
    fw_log_loop (\<lambda>_ s. s) (of_nat (tel_qsize k)) m out sh =
      Some (Some (out @ concat (map printed its), sh\<lparr>th_head := th_tail sh\<rparr>))"
proof (induction its arbitrary: v m out sh)
  case Nil
  then have "th_head sh = th_tail sh" by (simp add: ring_holds_def ring_at_def items_bytes_def)
  then show ?case by (subst fw_log_loop.simps) simp
next
  case (Cons it its)
  note r = fw_log_round_item[OF Cons.prems]
  show ?case
    by (subst fw_log_loop.simps) (simp add: r(1) r(3) Cons.IH[OF r(2)])
qed

lemma fw_log_queue_size:
  "tel_size_ok k \<Longrightarrow> (ucast (of_nat (2 ^ k) :: u32) - of_nat sizeof_header :: u64) = of_nat (tel_qsize k)"
proof -
  assume k: "tel_size_ok k"
  have "(ucast (of_nat (2 ^ k) :: u32) :: u64) = of_nat (2 ^ k)"
    using k by (intro bit_word_eqI) (auto simp: bit_simps tel_size_ok_def)
  then show ?thesis
    using tel_size_bounds[OF k] by (metis add_diff_cancel_right' of_nat_add)
qed

text \<open>C27: On a ring of \<open>2 ^ k\<close> bytes that holds a sequence of well-formed entries between head and tail,
  wrapped around its end anywhere, the fallback logger returns; it prints the entries whose level is
  information or worse, in order and at their level, and leaves the head at the tail and everything
  else in the shared memory as it was.
\<close>

theorem fw_log_drains:
  assumes "ring_holds k v its sh" and "kvmalloc (of_nat (tel_qsize k) - of_nat sizeof_entry + 1)"
  shows "gcip_telemetry_fw_log (\<lambda>_ s. s) kvmalloc sh =
    Some (Some (concat (map printed its), sh\<lparr>th_head := th_tail sh\<rparr>))"
proof -
  have "tel_size_ok k" "th_size sh = of_nat (2 ^ k)" using assms(1) by (auto simp: ring_holds_def ring_at_def)
  then have q: "(ucast (th_size sh) - of_nat sizeof_header :: u64) = of_nat (tel_qsize k)"
    using fw_log_queue_size[of k] by simp
  show ?thesis
    unfolding gcip_telemetry_fw_log_def Let_def q using assms(2) fw_log_loop_drains[OF assms(1)] by simp
qed

section \<open>Safety\<close>

text \<open>
  Whatever the firmware does to the data, the tail and the count of dropped entries, as long as it leaves
  the head and the size of the area alone.
\<close>

definition head_left_alone :: "(nat \<Rightarrow> tel_shared \<Rightarrow> tel_shared) \<Rightarrow> bool" where
  "head_left_alone env \<longleftrightarrow>
    (\<forall>n sh. th_head (env n sh) = th_head sh \<and> length (th_ring (env n sh)) = length (th_ring sh))"

lemma fw_log_loop_rule:
  assumes run: "fw_log_loop env q m out sh = Some r" and inv: "Inv sh"
    and ended: "\<And>n s out. Inv s \<Longrightarrow> th_head (env n s) = th_tail (env n s) \<Longrightarrow> Q (Some (out, env n s))"
    and fault: "\<And>n s. Inv s \<Longrightarrow> th_head (env n s) \<noteq> th_tail (env n s) \<Longrightarrow>
      fw_log_round q (env n s) = None \<Longrightarrow> Q None"
    and stop: "\<And>n s out msgs s'. Inv s \<Longrightarrow> fw_log_round q (env n s) = Some (msgs, s', False) \<Longrightarrow> Q (Some (out @ msgs, s'))"
    and step: "\<And>n s msgs s'. Inv s \<Longrightarrow> th_head (env n s) \<noteq> th_tail (env n s) \<Longrightarrow>
      fw_log_round q (env n s) = Some (msgs, s', True) \<Longrightarrow> Inv s'"
  shows "Q r"
proof -
  have "env = env \<longrightarrow> q = q \<longrightarrow> Inv sh \<longrightarrow> Q r"
  proof (rule fw_log_loop.raw_induct[OF _ run, where P = "\<lambda>e p m out sh r. e = env \<longrightarrow> p = q \<longrightarrow> Inv sh \<longrightarrow> Q r"],
      goal_cases)
    case (1 f e p m out sh r)
    show ?case
    proof (intro impI)
      assume a: "e = env" "p = q" "Inv sh"
      show "Q r"
        using 1(2) ended[OF a(3)] fault[OF a(3)] stop[OF a(3)] step[OF a(3)] 1(1)
        by (auto simp: Let_def a(1,2) split: if_splits option.splits prod.splits)
    qed
  qed
  then show ?thesis using inv by simp
qed

lemma fw_log_loop_no_fault:
  assumes env: "head_left_alone env" and at: "ring_at k v sh"
  shows "fw_log_loop env (of_nat (tel_qsize k)) m out sh \<noteq> Some None"
proof
  assume run: "fw_log_loop env (of_nat (tel_qsize k)) m out sh = Some None"
  have "(None :: (tel_print list \<times> tel_shared) option) \<noteq> None"
  proof (rule fw_log_loop_rule[OF run, where Inv = "\<lambda>s. \<exists>v. ring_at k v s" and Q = "\<lambda>r. r \<noteq> None"])
    show "\<exists>v. ring_at k v sh" using at by blast
  next
    fix n s assume "\<exists>v. ring_at k v s"
    then obtain v where v: "ring_at k v (env n s)" using env by (auto simp: ring_at_def head_left_alone_def)
    show "fw_log_round (of_nat (tel_qsize k)) (env n s) = None \<Longrightarrow> (None :: (tel_print list \<times> tel_shared) option) \<noteq> None"
      using fw_log_round_at[OF v] by (simp split: if_splits)
    show "fw_log_round (of_nat (tel_qsize k)) (env n s) = Some (msgs, s', True) \<Longrightarrow> \<exists>v. ring_at k v s'" for msgs s'
      using fw_log_round_at[OF v] v by (auto simp: ring_at_def split: if_splits)
  qed simp_all
  then show False by simp
qed

text \<open>C28: The fallback logger never reads outside the ring, whatever lengths, tails and data the
  firmware writes while it runs, provided that the head the driver owns starts inside the ring and
  is changed by nobody else.
\<close>

theorem fw_log_memory_safe:
  assumes "head_left_alone env" "ring_at k v sh" "th_size sh = of_nat (2 ^ k)"
  shows "gcip_telemetry_fw_log env kvmalloc sh \<noteq> Some None"
proof -
  have q: "(ucast (th_size sh) - of_nat sizeof_header :: u64) = of_nat (tel_qsize k)"
    using assms fw_log_queue_size[of k] by (simp add: ring_at_def)
  show ?thesis
    unfolding gcip_telemetry_fw_log_def Let_def q using fw_log_loop_no_fault[OF assms(1,2)] by simp
qed

section \<open>What a bad tail does\<close>

text \<open>
  Between the ring and the wrap bit there are 128 offsets that no entry starts at. A head there makes
  the number of bytes up to the end of the ring negative, which as an unsigned number is almost 4 GiB.
\<close>

lemma copy_with_wrap_hole:
  assumes k: "tel_size_ok k" and ring: "length (th_ring sh) = tel_qsize k"
    and h: "tel_qsize k < h" "h < 2 ^ k" "th_head sh = of_nat h" and n: "n \<le> 65535"
  shows "copy_with_wrap sh (of_nat n) (of_nat (tel_qsize k)) = None"
proof -
  let ?q = "tel_qsize k"
  note b = tel_size_bounds[OF k]
  have w: "of_nat ?q + of_nat 128 = (2 ^ k :: u32)"
    using b(3) by (metis of_nat_add of_nat_numeral of_nat_power)
  have u: "unat (of_nat m :: u32) = m" if "m < 4294967296" for m
    using that by (simp add: unat_of_nat_lt)
  have m: "th_head sh AND (2 ^ k - 1) = of_nat h"
    using h by (simp add: take_bit_of_nat take_bit_nat_eq_self flip: mask_eq_exp_minus_1 take_bit_eq_mask)
  have sum: "(of_nat h + of_nat n :: u32) = of_nat (h + n)" by simp
  have cmp: "\<not> (of_nat h + of_nat n :: u32) < of_nat ?q"
    unfolding sum word_less_nat_alt using h n b by (subst (1 2) u) simp_all
  have "(of_nat ?q - of_nat h :: u32) = of_nat (2 ^ 32 + ?q - h)"
    using h b by (simp add: of_nat_diff)
  moreover have "unat (of_nat (2 ^ 32 + ?q - h) :: u32) = 2 ^ 32 + ?q - h" using h b by (intro u) simp
  ultimately have "unat (of_nat ?q - of_nat h :: u32) = 2 ^ 32 + ?q - h" by metis
  then have "ring_read (th_ring sh) (unat (of_nat h :: u32)) (unat (of_nat ?q - of_nat h :: u32)) = None"
    using ring h b by (simp add: ring_read_def u)
  then show ?thesis
    unfolding copy_with_wrap_def Let_def w m using cmp by simp
qed

lemma ring_cursor_not_hole:
  assumes k: "tel_size_ok k" and t: "tel_qsize k < t" "t < 2 ^ k"
  shows "ring_cursor k v \<noteq> of_nat t"
proof -
  have "ring_index k v \<noteq> t"
    using t tel_mod_less[OF k, of v] by (cases rule: ring_index_cases[OF k, of v]) simp_all
  then show ?thesis
    unfolding ring_cursor_def
    using word_of_nat_inj[of "ring_index k v" t, where 'a = 32] ring_index_bound[OF k, of v] tel_size_bounds[OF k] t
    by simp
qed

text \<open>C29: A tail between the end of the ring and the wrap bit is not noticed. When the entry under the head is
  empty the logger takes that tail as its head; the next time the tail moves, it reads outside the ring.
\<close>

theorem bad_tail_out_of_bounds:
  assumes "ring_at k v sh" "th_size sh = of_nat (2 ^ k)"
    and "tel_qsize k < t" "t < 2 ^ k" "th_tail sh = of_nat t"
    and "le_length (parse_entry (ring_bytes (th_ring sh) k v 14)) = 0"
    and "kvmalloc (of_nat (tel_qsize k) - of_nat sizeof_entry + 1)" and "t' \<noteq> of_nat t"
  shows "gcip_telemetry_fw_log (\<lambda>_ s. s) kvmalloc sh =
      Some (Some ([Log_Queue_Corrupted], sh\<lparr>th_head := th_tail sh\<rparr>)) \<and>
    gcip_telemetry_fw_log (\<lambda>_ s. s) kvmalloc (sh\<lparr>th_head := th_tail sh, th_tail := t'\<rparr>) = Some None"
proof
  have k: "tel_size_ok k" using assms(1) by (simp add: ring_at_def)
  have q: "(ucast (th_size sh) - of_nat sizeof_header :: u64) = of_nat (tel_qsize k)"
    using assms(2) fw_log_queue_size[OF k] by simp
  have "th_head sh \<noteq> th_tail sh"
    using assms(1,5) ring_cursor_not_hole[OF k assms(3,4)] by (simp add: ring_at_def)
  then show "gcip_telemetry_fw_log (\<lambda>_ s. s) kvmalloc sh =
      Some (Some ([Log_Queue_Corrupted], sh\<lparr>th_head := th_tail sh\<rparr>))"
    unfolding gcip_telemetry_fw_log_def Let_def q using assms(7)
    by (subst fw_log_loop.simps) (simp add: fw_log_round_at[OF assms(1)] assms(6))
  let ?s = "sh\<lparr>th_head := th_tail sh, th_tail := t'\<rparr>"
  have "copy_with_wrap ?s (of_nat 14) (of_nat (tel_qsize k)) = None"
    using assms(1,5) by (intro copy_with_wrap_hole[OF k _ assms(3,4)]) (simp_all add: ring_at_def)
  then have r: "fw_log_round (of_nat (tel_qsize k)) ?s = None"
    unfolding fw_log_round_def ucast_qsize[OF k] by simp
  have q': "(ucast (th_size ?s) - of_nat sizeof_header :: u64) = of_nat (tel_qsize k)" using q by simp
  show "gcip_telemetry_fw_log (\<lambda>_ s. s) kvmalloc ?s = Some None"
    unfolding gcip_telemetry_fw_log_def Let_def q' using assms(5,7,8)
    by (subst fw_log_loop.simps) (simp add: r[unfolded assms(5)])
qed

text \<open>C30: The loop has no bound of its own: when one entry fills the ring and the tail lies inside it, the head
  passes the tail at each turn without meeting it, and the logger never returns.
\<close>

theorem tail_inside_entry_hangs:
  assumes at: "ring_at k v sh" and "th_size sh = of_nat (2 ^ k)"
    and full: "unat (le_length (parse_entry (ring_bytes (th_ring sh) k v 14))) + 14 = tel_qsize k"
    and tail: "th_tail sh \<noteq> ring_cursor k v" "th_tail sh \<noteq> ring_cursor k (v + tel_qsize k)"
    and "kvmalloc (of_nat (tel_qsize k) - of_nat sizeof_entry + 1)"
  shows "gcip_telemetry_fw_log (\<lambda>_ s. s) kvmalloc sh = None"
proof -
  let ?q = "tel_qsize k"
  have k: "tel_size_ok k" using at by (simp add: ring_at_def)
  have q: "(ucast (th_size sh) - of_nat sizeof_header :: u64) = of_nat ?q"
    using assms(2) fw_log_queue_size[OF k] by simp
  define Inv where "Inv s \<longleftrightarrow> th_ring s = th_ring sh \<and> th_tail s = th_tail sh \<and>
    (ring_at k v s \<or> ring_at k (v + ?q) s)" for s
  have "(v + ?q + i) mod ?q = (v + i) mod ?q" for i
    by (metis add.assoc add.commute mod_add_self2)
  then have same: "ring_bytes (th_ring sh) k (v + ?q) 14 = ring_bytes (th_ring sh) k v 14"
    by (simp add: ring_bytes_def)
  have "v + ?q + 14 + (?q - 14) = v + 2 * ?q" using tel_size_bounds[OF k] by linarith
  then have turn: "ring_cursor k (v + ?q + 14 + (?q - 14)) = ring_cursor k v" "v + 14 + (?q - 14) = v + ?q"
    using ring_cursor_eq_iff[OF k] tel_size_bounds[OF k] by simp_all
  have len: "unat (le_length (parse_entry (ring_bytes (th_ring sh) k v 14))) = ?q - 14" using full by simp
  have ne: "le_length (parse_entry (ring_bytes (th_ring sh) k v 14)) \<noteq> 0"
    using full tel_size_bounds[OF k] by auto
  have step: "\<exists>msgs s'. fw_log_round (of_nat ?q) s = Some (msgs, s', True) \<and> Inv s'" if inv: "Inv s" for s
  proof -
    have r: "th_ring s = th_ring sh" "th_tail s = th_tail sh" using that by (simp_all add: Inv_def)
    have n: "\<not> ?q < ?q - 14 + 14" using full by linarith
    have i: "Inv (s\<lparr>th_head := ring_cursor k v\<rparr>)" "Inv (s\<lparr>th_head := ring_cursor k (v + ?q)\<rparr>)"
      using r at by (simp_all add: Inv_def ring_at_def)
    consider "ring_at k v s" | "ring_at k (v + ?q) s" using inv by (auto simp: Inv_def)
    then show ?thesis
    proof cases
      case 1
      show ?thesis using i(2) unfolding fw_log_round_at[OF 1] r same len turn using ne n by simp
    next
      case 2
      show ?thesis using i(1) unfolding fw_log_round_at[OF 2] r same len turn using ne n by simp
    qed
  qed
  have "fw_log_loop (\<lambda>_ s. s) (of_nat ?q) 0 [] sh \<noteq> Some r" for r
  proof
    assume run: "fw_log_loop (\<lambda>_ s. s) (of_nat ?q) 0 [] sh = Some r"
    have apart: "th_head s \<noteq> th_tail s" if "Inv s" for s
      using that tail by (auto simp: Inv_def ring_at_def)
    show False
    proof (rule fw_log_loop_rule[OF run, where Inv = Inv and Q = "\<lambda>_. False"])
      show "Inv sh" using at by (simp add: Inv_def)
    qed (use apart step in force)+
  qed
  then show ?thesis
    unfolding gcip_telemetry_fw_log_def Let_def q using assms(6) by (cases "fw_log_loop (\<lambda>_ s. s) (of_nat ?q) 0 [] sh") auto
qed

section \<open>Instances\<close>

text \<open>Two entries that wrap around the end of a ring of 128 bytes.\<close>

definition demo_items :: "(gcip_log_entry_header \<times> u8 list) list" where
  "demo_items =
    [(\<lparr>le_code = - 2, le_length = 2, le_timestamp = 5, le_crc16 = 7\<rparr>, [72, 105]),
     (\<lparr>le_code = 1, le_length = 1, le_timestamp = 6, le_crc16 = 8\<rparr>, [88])]"

definition demo_shared :: tel_shared where
  "demo_shared =
    \<lparr>th_head = 120, th_size = 256, th_tail = 279, th_entries_dropped = 0,
     th_ring = drop 8 (items_bytes demo_items) @ replicate 97 0 @ take 8 (items_bytes demo_items)\<rparr>"

lemma demo_holds: "ring_holds 8 120 demo_items demo_shared"
  by code_simp

theorem fw_log_drains_witness:
  "ring_holds 8 120 demo_items demo_shared \<and>
    gcip_telemetry_fw_log (\<lambda>_ s. s) (\<lambda>_. True) demo_shared =
      Some (Some ([Fw_Print Log_Err [72, 105]], demo_shared\<lparr>th_head := 279\<rparr>))"
proof -
  have "concat (map printed demo_items) = [Fw_Print Log_Err [72, 105]]" "th_tail demo_shared = 279"
    by code_simp+
  then show ?thesis using fw_log_drains[OF demo_holds, of "\<lambda>_. True"] demo_holds by simp
qed

theorem fw_log_memory_safe_witness:
  "gcip_telemetry_fw_log (\<lambda>n s. s\<lparr>th_tail := of_nat (17 * n), th_ring := map (\<lambda>b. b + of_nat n) (th_ring s)\<rparr>)
      (\<lambda>_. True) demo_shared \<noteq> Some None"
  by (rule fw_log_memory_safe[of _ 8 120])
    (use demo_holds in \<open>auto simp: head_left_alone_def ring_holds_def\<close>)

definition demo_empty :: "u32 \<Rightarrow> tel_shared" where
  "demo_empty t = \<lparr>th_head = 0, th_size = 256, th_tail = t, th_entries_dropped = 0, th_ring = replicate 128 0\<rparr>"

theorem bad_tail_out_of_bounds_witness:
  "gcip_telemetry_fw_log (\<lambda>_ s. s) (\<lambda>_. True) (demo_empty 130) =
      Some (Some ([Log_Queue_Corrupted], (demo_empty 130)\<lparr>th_head := 130\<rparr>)) \<and>
    gcip_telemetry_fw_log (\<lambda>_ s. s) (\<lambda>_. True) ((demo_empty 130)\<lparr>th_head := 130, th_tail := 0\<rparr>) = Some None"
proof -
  have "ring_at 8 0 (demo_empty 130)" "th_size (demo_empty 130) = of_nat (2 ^ 8)" "tel_qsize 8 < 130" "(130::nat) < 2 ^ 8"
    "le_length (parse_entry (ring_bytes (th_ring (demo_empty 130)) 8 0 14)) = 0" "th_tail (demo_empty 130) = of_nat 130"
    by code_simp+
  then show ?thesis
    using bad_tail_out_of_bounds[of 8 0 "demo_empty 130" 130 "\<lambda>_. True" 0] by simp
qed

text \<open>An entry of 114 bytes fills the ring of 128 bytes.\<close>

definition demo_full :: tel_shared where
  "demo_full =
    \<lparr>th_head = 0, th_size = 256, th_tail = 5, th_entries_dropped = 0,
     th_ring = [0, 0, 114, 0] @ replicate 124 0\<rparr>"

theorem tail_inside_entry_hangs_witness:
  "gcip_telemetry_fw_log (\<lambda>_ s. s) (\<lambda>_. True) demo_full = None"
proof -
  have "ring_at 8 0 demo_full" "th_size demo_full = of_nat (2 ^ 8)"
    "unat (le_length (parse_entry (ring_bytes (th_ring demo_full) 8 0 14))) + 14 = tel_qsize 8"
    "th_tail demo_full \<noteq> ring_cursor 8 0" "th_tail demo_full \<noteq> ring_cursor 8 (0 + tel_qsize 8)"
    by code_simp+
  then show ?thesis using tail_inside_entry_hangs[of 8 0 demo_full "\<lambda>_. True"] by simp
qed

end
