(* ===== verification/Mem_Pool.thy ===== *)
theory Mem_Pool
  imports Gcip_Prelude "HOL-Library.Tree"
begin

text \<open>
  The allocator of reserved memory (gcip-mem-pool.c, gcip-mem-pool.h). A pool is an allocator of the kernel
  and a search tree of the regions that were handed out.

  The allocator (\<open>gen_pool\<close>) and the balancing of red-black trees (\<open>rb_insert_color\<close>, \<open>rb_erase\<close>) belong to the
  kernel and are arguments of the model; the descents through the tree are the code's own. The tree
  carries no colours: they are what the two functions of the kernel keep for themselves.
\<close>

section \<open>State\<close>

record gcip_mem_pool_region =
  rg_addr :: u64
  rg_size :: u64

record 'g gcip_mem_pool =
  mp_gen_pool :: "'g option"
  mp_base_addr :: u64
  mp_granule :: u64
  mp_regions :: "gcip_mem_pool_region tree"

record 'g mem_ext =
  gen_pool_create :: "nat \<Rightarrow> 'g option"
  gen_pool_add :: "'g \<Rightarrow> u64 \<Rightarrow> u64 \<Rightarrow> int \<times> 'g"
  gen_pool_alloc :: "'g \<Rightarrow> u64 \<Rightarrow> u64 \<times> 'g"
  gen_pool_free :: "'g \<Rightarrow> u64 \<Rightarrow> u64 \<Rightarrow> 'g"
  rb_insert_color :: "gcip_mem_pool_region \<Rightarrow> gcip_mem_pool_region tree \<Rightarrow> gcip_mem_pool_region tree"
  rb_erase :: "gcip_mem_pool_region \<Rightarrow> gcip_mem_pool_region tree \<Rightarrow> gcip_mem_pool_region tree"

text \<open>How a call ends: it runs forever, it uses a null pointer, or it returns.\<close>

datatype 'a c_result = Hangs | Faults | Returns 'a

fun ilog2 :: "nat \<Rightarrow> nat" where
  "ilog2 n = (if n \<le> 1 then 0 else Suc (ilog2 (n div 2)))"

declare ilog2.simps [simp del]

definition ALIGN :: "u64 \<Rightarrow> u64 \<Rightarrow> u64" where
  "ALIGN x a = (x + (a - 1)) AND NOT (a - 1)"

section \<open>Regions\<close>

text \<open>
  The descent to the place of a new region. At a region with the same address it stays where it is, so
  it may not end; then there is no result.
\<close>

partial_function (option) link_region ::
    "gcip_mem_pool_region \<Rightarrow> gcip_mem_pool_region tree \<Rightarrow> gcip_mem_pool_region tree option" where
  "link_region region t =
    (case t of
       Leaf \<Rightarrow> Some (Node Leaf region Leaf)
     | Node l parent r \<Rightarrow>
         if rg_addr parent > rg_addr region then
           Option.bind (link_region region l) (\<lambda>l'. Some (Node l' parent r))
         else if rg_addr parent < rg_addr region then
           Option.bind (link_region region r) (\<lambda>r'. Some (Node l parent r'))
         else link_region region t)"

declare link_region.simps [code]

definition gcip_mem_pool_add_region_locked ::
    "'g mem_ext \<Rightarrow> gcip_mem_pool_region \<Rightarrow> gcip_mem_pool_region tree \<Rightarrow> gcip_mem_pool_region tree option" where
  "gcip_mem_pool_add_region_locked K region t =
    map_option (rb_insert_color K region) (link_region region t)"

definition gcip_mem_pool_remove_region_locked ::
    "'g mem_ext \<Rightarrow> gcip_mem_pool_region \<Rightarrow> gcip_mem_pool_region tree \<Rightarrow> gcip_mem_pool_region tree" where
  "gcip_mem_pool_remove_region_locked K region t = rb_erase K region t"

text \<open>The region and the offset in it.\<close>

fun gcip_mem_pool_find_region_locked ::
    "gcip_mem_pool_region tree \<Rightarrow> u64 \<Rightarrow> u64 \<Rightarrow> (gcip_mem_pool_region \<times> u64) option" where
  "gcip_mem_pool_find_region_locked Leaf addr sz = None"
| "gcip_mem_pool_find_region_locked (Node l region r) addr sz =
    (let start = rg_addr region; fin = start + rg_size region in
     if start \<le> addr \<and> addr < fin then
       (if fin - addr \<ge> sz then Some (region, addr - start) else None)
     else if addr < start then gcip_mem_pool_find_region_locked l addr sz
     else gcip_mem_pool_find_region_locked r addr sz)"

section \<open>Operations\<close>

definition gcip_mem_pool_init ::
    "'g mem_ext \<Rightarrow> 'g gcip_mem_pool \<Rightarrow> u64 \<Rightarrow> u64 \<Rightarrow> u64 \<Rightarrow> int \<times> 'g gcip_mem_pool" where
  "gcip_mem_pool_init K pool base_addr sz granule =
    (if base_addr = 0 \<or> granule = 0 then (- EINVAL, pool)
     else if base_addr mod granule \<noteq> 0 \<or> sz mod granule \<noteq> 0 then (- EINVAL, pool)
     else
       (case gen_pool_create K (ilog2 (unat granule)) of
          None \<Rightarrow> (- ENOMEM, pool\<lparr>mp_gen_pool := None\<rparr>)
        | Some g \<Rightarrow>
            let (ret, g) = gen_pool_add K g base_addr sz in
            if ret \<noteq> 0 then (ret, pool\<lparr>mp_gen_pool := None\<rparr>)
            else (0, pool\<lparr>mp_gen_pool := Some g, mp_granule := granule, mp_base_addr := base_addr,
                         mp_regions := Leaf\<rparr>)))"

definition gcip_mem_pool_exit :: "'g gcip_mem_pool \<Rightarrow> 'g gcip_mem_pool" where
  "gcip_mem_pool_exit pool = (if mp_gen_pool pool = None then pool else pool\<lparr>mp_gen_pool := None\<rparr>)"

text \<open>\<open>kzalloc\<close> tells whether there is memory for the region's record.\<close>

definition gcip_mem_pool_alloc ::
    "'g mem_ext \<Rightarrow> bool \<Rightarrow> 'g gcip_mem_pool \<Rightarrow> u64 \<Rightarrow> (u64 \<times> 'g gcip_mem_pool) c_result" where
  "gcip_mem_pool_alloc K kzalloc pool sz =
    (if \<not> kzalloc then Returns (0, pool)
     else
       (case mp_gen_pool pool of
          None \<Rightarrow> Faults
        | Some g \<Rightarrow>
            let (addr, g) = gen_pool_alloc K g sz; pool = pool\<lparr>mp_gen_pool := Some g\<rparr> in
            if addr = 0 then Returns (0, pool)
            else
              (case gcip_mem_pool_add_region_locked K \<lparr>rg_addr = addr, rg_size = sz\<rparr> (mp_regions pool) of
                 None \<Rightarrow> Hangs
               | Some t \<Rightarrow> Returns (addr, pool\<lparr>mp_regions := t\<rparr>))))"

definition gcip_mem_pool_free ::
    "'g mem_ext \<Rightarrow> 'g gcip_mem_pool \<Rightarrow> u64 \<Rightarrow> u64 \<Rightarrow> 'g gcip_mem_pool c_result" where
  "gcip_mem_pool_free K pool addr sz =
    (case gcip_mem_pool_find_region_locked (mp_regions pool) addr sz of
       None \<Rightarrow> Returns pool
     | Some (region, _) \<Rightarrow>
         if rg_addr region \<noteq> addr then Returns pool
         else
           let pool = pool\<lparr>mp_regions := gcip_mem_pool_remove_region_locked K region (mp_regions pool)\<rparr> in
           (case mp_gen_pool pool of
              None \<Rightarrow> Faults
            | Some g \<Rightarrow>
                Returns (pool\<lparr>mp_gen_pool :=
                  Some (gen_pool_free K g (rg_addr region) (ALIGN (rg_size region) (mp_granule pool)))\<rparr>)))"

definition gcip_mem_pool_offset :: "'g gcip_mem_pool \<Rightarrow> u64 \<Rightarrow> u64" where
  "gcip_mem_pool_offset pool addr = addr - mp_base_addr pool"

text \<open>The address, and the offset if it is written.\<close>

definition gcip_mem_pool_find :: "'g gcip_mem_pool \<Rightarrow> u64 \<Rightarrow> u64 \<Rightarrow> u64 \<times> u64 option" where
  "gcip_mem_pool_find pool addr sz =
    (case gcip_mem_pool_find_region_locked (mp_regions pool) addr sz of
       None \<Rightarrow> (0, None)
     | Some (region, off) \<Rightarrow> (rg_addr region, Some off))"

text \<open>The address, the offset and whether it is new, where they are written.\<close>

definition gcip_mem_pool_find_or_alloc ::
    "'g mem_ext \<Rightarrow> bool \<Rightarrow> 'g gcip_mem_pool \<Rightarrow> u64 \<Rightarrow> u64 \<Rightarrow>
      (u64 \<times> u64 option \<times> bool option \<times> 'g gcip_mem_pool) c_result" where
  "gcip_mem_pool_find_or_alloc K kzalloc pool addr sz =
    (let (found, off) = gcip_mem_pool_find pool addr sz in
     if found \<noteq> 0 then Returns (found, off, Some False, pool)
     else
       (case gcip_mem_pool_alloc K kzalloc pool sz of
          Hangs \<Rightarrow> Hangs
        | Faults \<Rightarrow> Faults
        | Returns (new, pool) \<Rightarrow>
            if new = 0 then Returns (0, off, None, pool)
            else Returns (new, Some 0, Some True, pool)))"

end
