(* ===== verification/Mem_Pool_Laws.thy ===== *)
theory Mem_Pool_Laws
  imports Mem_Pool
begin

text \<open>
  Laws of the memory pool: the index of regions as an interface, its tree as an implementation of it, and the
  agreement of the index with the kernel's allocator over any sequence of operations.
\<close>

section \<open>Search trees of regions\<close>

definition region_bst :: "gcip_mem_pool_region tree \<Rightarrow> bool" where
  "region_bst t \<longleftrightarrow> sorted_wrt (\<lambda>x y. rg_addr x < rg_addr y) (inorder t)"

text \<open>What the kernel's two functions promise: they keep the order of the nodes.\<close>

definition rb_ok :: "'g mem_ext \<Rightarrow> bool" where
  "rb_ok K \<longleftrightarrow>
    (\<forall>x t. inorder (rb_insert_color K x t) = inorder t) \<and>
    (\<forall>x t. x \<in> set_tree t \<longrightarrow> region_bst t \<longrightarrow> inorder (rb_erase K x t) = remove1 x (inorder t))"

lemma region_bst_simps [simp]:
  "region_bst Leaf"
  "region_bst (Node l x r) \<longleftrightarrow>
    region_bst l \<and> region_bst r \<and> (\<forall>y \<in> set_tree l. rg_addr y < rg_addr x) \<and> (\<forall>y \<in> set_tree r. rg_addr x < rg_addr y)"
  by (auto simp: region_bst_def sorted_wrt_append dest: order.strict_trans)

lemma link_region_Leaf [simp]: "link_region x Leaf = Some (Node Leaf x Leaf)"
  by (subst link_region.simps) simp

lemma link_region_left: "rg_addr x < rg_addr p \<Longrightarrow>
    link_region x (Node l p r) = Option.bind (link_region x l) (\<lambda>l'. Some (Node l' p r))"
  by (subst link_region.simps) simp

lemma link_region_right: "rg_addr p < rg_addr x \<Longrightarrow>
    link_region x (Node l p r) = Option.bind (link_region x r) (\<lambda>r'. Some (Node l p r'))"
  by (subst link_region.simps) auto

lemma link_region_spins_raw:
  assumes "link_region x t = Some t'"
  shows "\<forall>l p r. t = Node l p r \<longrightarrow> rg_addr p \<noteq> rg_addr x"
proof (rule link_region.raw_induct[OF _ assms, where P = "\<lambda>x t t'. \<forall>l p r. t = Node l p r \<longrightarrow> rg_addr p \<noteq> rg_addr x"],
    goal_cases)
  case (1 f x t t')
  show ?case using 1(2) 1(1)[of x t t'] by auto
qed

lemma link_region_spins: "rg_addr p = rg_addr x \<Longrightarrow> link_region x (Node l p r) = None"
  using link_region_spins_raw[of x "Node l p r"] by (cases "link_region x (Node l p r)") auto

lemma link_region_found:
  "region_bst t \<Longrightarrow> y \<in> set_tree t \<Longrightarrow> rg_addr y = rg_addr x \<Longrightarrow> link_region x t = None"
proof (induction t)
  case (Node l p r)
  then consider "rg_addr x < rg_addr p" "y \<in> set_tree l" | "rg_addr p < rg_addr x" "y \<in> set_tree r" | "rg_addr p = rg_addr x"
    by auto
  then show ?case
    using Node by cases (simp_all add: link_region_left link_region_right link_region_spins)
qed simp

lemma link_region_new:
  "region_bst t \<Longrightarrow> \<forall>y \<in> set_tree t. rg_addr y \<noteq> rg_addr x \<Longrightarrow>
    \<exists>t'. link_region x t = Some t' \<and> set_tree t' = insert x (set_tree t) \<and> region_bst t'"
proof (induction t)
  case (Node l p r)
  then consider "rg_addr x < rg_addr p" | "rg_addr p < rg_addr x" by (metis linorder_neqE tree.set_intros(2))
  then show ?case
  proof cases
    case 1
    then show ?thesis using Node by (auto simp: link_region_left)
  next
    case 2
    then show ?thesis using Node by (auto simp: link_region_right)
  qed
qed simp


section \<open>The index of regions\<close>

text \<open>\<open>contains r a n\<close>: the address is in the region, and so are \<open>n\<close> bytes from there.\<close>

definition region_end :: "gcip_mem_pool_region \<Rightarrow> nat" where
  "region_end r = unat (rg_addr r) + unat (rg_size r)"

definition contains :: "gcip_mem_pool_region \<Rightarrow> u64 \<Rightarrow> u64 \<Rightarrow> bool" where
  "contains r a n \<longleftrightarrow> rg_addr r \<le> a \<and> unat a < region_end r \<and> unat a + unat n \<le> region_end r"

definition apart :: "gcip_mem_pool_region set \<Rightarrow> bool" where
  "apart S \<longleftrightarrow>
    (\<forall>x \<in> S. region_end x < 2 ^ 64) \<and>
    (\<forall>x \<in> S. \<forall>y \<in> S. x \<noteq> y \<longrightarrow> region_end x \<le> unat (rg_addr y) \<or> region_end y \<le> unat (rg_addr x)) \<and>
    (\<forall>x \<in> S. rg_size x \<noteq> 0)"

lemma apartD:
  assumes "apart S" "x \<in> S"
  shows "region_end x < 2 ^ 64" "rg_size x \<noteq> 0"
    and "y \<in> S \<Longrightarrow> x \<noteq> y \<Longrightarrow> region_end x \<le> unat (rg_addr y) \<or> region_end y \<le> unat (rg_addr x)"
  using assms unfolding apart_def by blast+

lemma apart_mono: "apart S \<Longrightarrow> T \<subseteq> S \<Longrightarrow> apart T"
  unfolding apart_def by blast

lemma region_end_gt: "rg_size x \<noteq> 0 \<Longrightarrow> unat (rg_addr x) < region_end x"
  by (simp add: region_end_def unat_eq_0 word_neq_0_conv unat_gt_0)

lemma apart_addr_neq:
  assumes "apart S" "x \<in> S" "y \<in> S" "x \<noteq> y"
  shows "rg_addr x \<noteq> rg_addr y"
proof
  assume e: "rg_addr x = rg_addr y"
  have "unat (rg_addr x) < region_end x" "unat (rg_addr y) < region_end y"
    using apartD(2)[OF assms(1)] assms(2,3) region_end_gt by blast+
  then show False using apartD(3)[OF assms] unfolding e by linarith
qed

text \<open>
  An index holds a set of regions that lie apart. Adding returns exactly for a new address; looking up finds the
  region that contains the bytes asked for.
\<close>

locale region_index =
  fixes ok :: bool
    and wf :: "'t \<Rightarrow> bool"
    and regions :: "'t \<Rightarrow> gcip_mem_pool_region set"
    and add :: "gcip_mem_pool_region \<Rightarrow> 't \<Rightarrow> 't option"
    and del :: "gcip_mem_pool_region \<Rightarrow> 't \<Rightarrow> 't"
    and lookup :: "'t \<Rightarrow> u64 \<Rightarrow> u64 \<Rightarrow> (gcip_mem_pool_region \<times> u64) option"
  assumes add_new: "ok \<Longrightarrow> wf t \<Longrightarrow> \<forall>y \<in> regions t. rg_addr y \<noteq> rg_addr x \<Longrightarrow>
      \<exists>t'. add x t = Some t' \<and> wf t' \<and> regions t' = insert x (regions t)"
    and add_old: "wf t \<Longrightarrow> y \<in> regions t \<Longrightarrow> rg_addr y = rg_addr x \<Longrightarrow> add x t = None"
    and del_regions: "ok \<Longrightarrow> wf t \<Longrightarrow> x \<in> regions t \<Longrightarrow> wf (del x t) \<and> regions (del x t) = regions t - {x}"
    and lookup_exact: "wf t \<Longrightarrow> apart (regions t) \<Longrightarrow>
      lookup t a n = Some (r, off) \<longleftrightarrow> r \<in> regions t \<and> contains r a n \<and> off = a - rg_addr r"
begin

lemma add_returns_iff:
  "ok \<Longrightarrow> wf t \<Longrightarrow> add x t \<noteq> None \<longleftrightarrow> (\<forall>y \<in> regions t. rg_addr y \<noteq> rg_addr x)"
  using add_new[of t x] add_old[of t _ x] by (metis option.distinct(1))

lemma lookup_None:
  assumes "wf t" "apart (regions t)"
  shows "lookup t a n = None \<longleftrightarrow> (\<forall>r \<in> regions t. \<not> contains r a n)"
proof
  show "\<forall>r \<in> regions t. \<not> contains r a n" if "lookup t a n = None"
  proof (intro ballI notI)
    fix r
    assume "r \<in> regions t" "contains r a n"
    then have "lookup t a n = Some (r, a - rg_addr r)" using lookup_exact[OF assms] by blast
    then show False using that by simp
  qed
  show "lookup t a n = None" if "\<forall>r \<in> regions t. \<not> contains r a n"
  proof (rule ccontr)
    assume "lookup t a n \<noteq> None"
    then obtain r off where "lookup t a n = Some (r, off)" by auto
    then show False using lookup_exact[OF assms] that by blast
  qed
qed

lemma lookup_added:
  assumes "ok" "wf t" "apart (insert x (regions t))" "x \<notin> regions t" "contains x a n"
  shows "\<exists>t'. add x t = Some t' \<and> lookup t' a n = Some (x, a - rg_addr x)"
proof -
  have "\<forall>y \<in> regions t. rg_addr y \<noteq> rg_addr x"
    using apart_addr_neq[OF assms(3)] assms(4) by blast
  then obtain t' where "add x t = Some t'" "wf t'" "regions t' = insert x (regions t)"
    using add_new[OF assms(1,2)] by blast
  moreover from this have "lookup t' a n = Some (x, a - rg_addr x)"
    using lookup_exact[of t' a n x "a - rg_addr x"] assms(3,5) by simp
  ultimately show ?thesis by blast
qed

lemma lookup_deleted:
  assumes "ok" "wf t" "apart (regions t)" "x \<in> regions t" "contains x a n"
  shows "lookup (del x t) a m = None"
proof -
  have d: "wf (del x t)" "regions (del x t) = regions t - {x}" using del_regions[OF assms(1,2,4)] by auto
  have "apart (regions t - {x})" by (rule apart_mono[OF assms(3)]) blast
  moreover have "\<not> contains r a m" if "r \<in> regions t - {x}" for r
  proof -
    have "region_end x \<le> unat (rg_addr r) \<or> region_end r \<le> unat (rg_addr x)"
      using that apartD(3)[OF assms(3,4)] by blast
    then show ?thesis using assms(5) by (auto simp: contains_def word_le_nat_alt)
  qed
  ultimately show ?thesis using lookup_None[of "del x t"] d by simp
qed

end

lemma find_region_step:
  assumes "region_end x < 2 ^ 64"
  shows "(rg_addr x \<le> a \<and> a < rg_addr x + rg_size x) \<longleftrightarrow> rg_addr x \<le> a \<and> unat a < region_end x"
    and "rg_addr x \<le> a \<Longrightarrow> unat a < region_end x \<Longrightarrow>
      n \<le> rg_addr x + rg_size x - a \<longleftrightarrow> unat a + unat n \<le> region_end x"
proof -
  have s: "unat (rg_addr x + rg_size x) = region_end x"
    using assms unat_add_lem[of "rg_addr x" "rg_size x"] by (simp add: region_end_def)
  show "(rg_addr x \<le> a \<and> a < rg_addr x + rg_size x) \<longleftrightarrow> rg_addr x \<le> a \<and> unat a < region_end x"
    by (simp add: word_less_nat_alt s)
  assume "rg_addr x \<le> a" "unat a < region_end x"
  then have "unat (rg_addr x + rg_size x - a) = region_end x - unat a"
    using s by (simp add: unat_sub word_le_nat_alt)
  then show "n \<le> rg_addr x + rg_size x - a \<longleftrightarrow> unat a + unat n \<le> region_end x"
    using \<open>unat a < region_end x\<close> by (auto simp: word_le_nat_alt)
qed

lemma find_region_exact:
  "region_bst t \<Longrightarrow> apart (set_tree t) \<Longrightarrow>
    gcip_mem_pool_find_region_locked t a n = Some (r, off) \<longleftrightarrow>
      r \<in> set_tree t \<and> contains r a n \<and> off = a - rg_addr r"
proof (induction t)
  case (Node l x t)
  have sub: "apart (set_tree l)" "apart (set_tree t)" and x: "region_end x < 2 ^ 64"
    using Node.prems(2) by (auto simp: apart_def)
  have left: "\<not> contains y a m" if "y \<in> set_tree l" "rg_addr x \<le> a" for y m
  proof -
    have "rg_addr y < rg_addr x" using Node.prems(1) that by simp
    moreover have "region_end y \<le> unat (rg_addr x) \<or> region_end x \<le> unat (rg_addr y)"
      using Node.prems(2) that calculation unfolding apart_def by (metis less_irrefl tree.set_intros(1,2))
    ultimately have "region_end y \<le> unat (rg_addr x)" by (auto simp: region_end_def word_less_nat_alt)
    then show ?thesis using that(2) by (auto simp: contains_def word_le_nat_alt)
  qed
  have right: "\<not> contains y a m" if "y \<in> set_tree t" "unat a < region_end x" for y m
  proof -
    have "rg_addr x < rg_addr y" using Node.prems(1) that by simp
    moreover have "region_end y \<le> unat (rg_addr x) \<or> region_end x \<le> unat (rg_addr y)"
      using Node.prems(2) that calculation unfolding apart_def by (metis less_irrefl tree.set_intros(2,3))
    ultimately have "region_end x \<le> unat (rg_addr y)" by (auto simp: region_end_def word_less_nat_alt)
    then show ?thesis using that(2) by (auto simp: contains_def word_le_nat_alt)
  qed
  consider (here) "rg_addr x \<le> a" "unat a < region_end x" | (below) "a < rg_addr x" | (above) "rg_addr x \<le> a" "region_end x \<le> unat a"
    by (meson not_le)
  then show ?case
  proof cases
    case here
    then have "r \<in> set_tree (Node l x t) \<and> contains r a n \<longleftrightarrow> r = x \<and> contains x a n"
      using left right by auto
    moreover have "gcip_mem_pool_find_region_locked (Node l x t) a n =
        (if contains x a n then Some (x, a - rg_addr x) else None)"
      using here find_region_step(1)[OF x, of a] find_region_step(2)[OF x here, of n]
      by (simp add: contains_def)
    ultimately show ?thesis by auto
  next
    case below
    then have "unat a < region_end x" by (simp add: word_less_nat_alt region_end_def)
    then have "r \<in> set_tree (Node l x t) \<and> contains r a n \<longleftrightarrow> r \<in> set_tree l \<and> contains r a n"
      using right below by (auto simp: contains_def)
    moreover have "gcip_mem_pool_find_region_locked (Node l x t) a n = gcip_mem_pool_find_region_locked l a n"
      using below by (auto simp: Let_def)
    ultimately show ?thesis using Node.IH(1) Node.prems(1) sub by auto
  next
    case above
    then have "r \<in> set_tree (Node l x t) \<and> contains r a n \<longleftrightarrow> r \<in> set_tree t \<and> contains r a n"
      using left by (auto simp: contains_def)
    moreover have "gcip_mem_pool_find_region_locked (Node l x t) a n = gcip_mem_pool_find_region_locked t a n"
      using above find_region_step(1)[OF x, of a] by (auto simp: Let_def)
    ultimately show ?thesis using Node.IH(2) Node.prems(1) sub by auto
  qed
qed simp

lemma rb_insert_color_bst:
  "rb_ok K \<Longrightarrow> region_bst (rb_insert_color K x t) = region_bst t \<and> set_tree (rb_insert_color K x t) = set_tree t"
  unfolding rb_ok_def region_bst_def by (metis set_inorder)

lemma sorted_wrt_distinct: "sorted_wrt (\<lambda>x y. f x < (f y :: 'a::order)) xs \<Longrightarrow> distinct xs"
  by (induction xs) auto

lemma sorted_wrt_remove1: "sorted_wrt P xs \<Longrightarrow> sorted_wrt P (remove1 x xs)"
  by (induction xs) (auto dest: notin_set_remove1)

lemma rb_erase_bst:
  assumes "rb_ok K" "region_bst t" "x \<in> set_tree t"
  shows "region_bst (rb_erase K x t) \<and> set_tree (rb_erase K x t) = set_tree t - {x}"
proof -
  have e: "inorder (rb_erase K x t) = remove1 x (inorder t)" using assms by (simp add: rb_ok_def)
  have s: "sorted_wrt (\<lambda>x y. rg_addr x < rg_addr y) (inorder t)" using assms(2) by (simp add: region_bst_def)
  then have "distinct (inorder t)" by (rule sorted_wrt_distinct)
  then show ?thesis
    using e s unfolding region_bst_def
    by (metis set_inorder set_remove1_eq sorted_wrt_remove1)
qed

interpretation rb: region_index "rb_ok K" region_bst set_tree "gcip_mem_pool_add_region_locked K"
    "gcip_mem_pool_remove_region_locked K" gcip_mem_pool_find_region_locked for K
proof
  fix t and x :: gcip_mem_pool_region
  assume "rb_ok K" "region_bst t" "\<forall>y \<in> set_tree t. rg_addr y \<noteq> rg_addr x"
  then show "\<exists>t'. gcip_mem_pool_add_region_locked K x t = Some t' \<and> region_bst t' \<and> set_tree t' = insert x (set_tree t)"
    using link_region_new[of t x] rb_insert_color_bst[of K x] by (auto simp: gcip_mem_pool_add_region_locked_def)
next
  show "region_bst t \<Longrightarrow> y \<in> set_tree t \<Longrightarrow> rg_addr y = rg_addr x \<Longrightarrow> gcip_mem_pool_add_region_locked K x t = None"
    for t and y x :: gcip_mem_pool_region
    by (simp add: gcip_mem_pool_add_region_locked_def link_region_found)
next
  show "rb_ok K \<Longrightarrow> region_bst t \<Longrightarrow> x \<in> set_tree t \<Longrightarrow>
    region_bst (gcip_mem_pool_remove_region_locked K x t) \<and>
    set_tree (gcip_mem_pool_remove_region_locked K x t) = set_tree t - {x}" for t x
    unfolding gcip_mem_pool_remove_region_locked_def by (rule rb_erase_bst)
qed (rule find_region_exact)

section \<open>The kernel's allocator\<close>

definition rounded :: "nat \<Rightarrow> nat \<Rightarrow> nat" where
  "rounded k n = (n + 2 ^ k - 1) div 2 ^ k * 2 ^ k"

text \<open>
  What \<open>gen_pool\<close> documents, for an order of \<open>k\<close>: \<open>used\<close> is the set of blocks handed out, as address and
  length. A new allocator has none; an allocation of at least a byte gives a block of whole granules apart
  from those in use, below the end of the address space; freeing a block in use makes it free.
\<close>

definition gen_pool_ok :: "'g mem_ext \<Rightarrow> nat \<Rightarrow> ('g \<Rightarrow> (nat \<times> nat) set) \<Rightarrow> bool" where
  "gen_pool_ok K k used \<longleftrightarrow>
    (\<forall>g g' base sz. gen_pool_create K k = Some g \<longrightarrow> gen_pool_add K g base sz = (0, g') \<longrightarrow> used g' = {}) \<and>
    (\<forall>g n g'. gen_pool_alloc K g n = (0, g') \<longrightarrow> used g' = used g) \<and>
    (\<forall>g n a g'. gen_pool_alloc K g n = (a, g') \<longrightarrow> a \<noteq> 0 \<longrightarrow> n \<noteq> 0 \<longrightarrow>
       unat a + rounded k (unat n) < 2 ^ 64 \<and>
       (\<forall>(b, m) \<in> used g. unat a + rounded k (unat n) \<le> b \<or> b + m \<le> unat a) \<and>
       used g' = insert (unat a, rounded k (unat n)) (used g)) \<and>
    (\<forall>g a n. (unat a, unat n) \<in> used g \<longrightarrow> used (gen_pool_free K g a n) = used g - {(unat a, unat n)})"

lemma gen_pool_okD:
  assumes "gen_pool_ok K k used"
  shows "gen_pool_create K k = Some g \<Longrightarrow> gen_pool_add K g base sz = (0, g') \<Longrightarrow> used g' = {}"
    and "gen_pool_alloc K g n = (0, g') \<Longrightarrow> used g' = used g"
    and "gen_pool_alloc K g n = (a, g') \<Longrightarrow> a \<noteq> 0 \<Longrightarrow> n \<noteq> 0 \<Longrightarrow> unat a + rounded k (unat n) < 2 ^ 64"
    and "gen_pool_alloc K g n = (a, g') \<Longrightarrow> a \<noteq> 0 \<Longrightarrow> n \<noteq> 0 \<Longrightarrow>
      \<forall>(b, m) \<in> used g. unat a + rounded k (unat n) \<le> b \<or> b + m \<le> unat a"
    and "gen_pool_alloc K g n = (a, g') \<Longrightarrow> a \<noteq> 0 \<Longrightarrow> n \<noteq> 0 \<Longrightarrow>
      used g' = insert (unat a, rounded k (unat n)) (used g)"
    and "(unat a, unat n) \<in> used g \<Longrightarrow> used (gen_pool_free K g a n) = used g - {(unat a, unat n)}"
proof -
  note d = assms[unfolded gen_pool_ok_def]
  show "gen_pool_create K k = Some g \<Longrightarrow> gen_pool_add K g base sz = (0, g') \<Longrightarrow> used g' = {}"
    by (rule d[THEN conjunct1, rule_format])
  show "gen_pool_alloc K g n = (0, g') \<Longrightarrow> used g' = used g"
    by (rule d[THEN conjunct2, THEN conjunct1, rule_format])
  note new = d[THEN conjunct2, THEN conjunct2, THEN conjunct1, THEN spec, THEN spec, THEN spec, THEN spec, THEN mp, THEN mp, THEN mp]
  show "gen_pool_alloc K g n = (a, g') \<Longrightarrow> a \<noteq> 0 \<Longrightarrow> n \<noteq> 0 \<Longrightarrow> unat a + rounded k (unat n) < 2 ^ 64"
    by (rule new[THEN conjunct1])
  show "gen_pool_alloc K g n = (a, g') \<Longrightarrow> a \<noteq> 0 \<Longrightarrow> n \<noteq> 0 \<Longrightarrow>
      \<forall>(b, m) \<in> used g. unat a + rounded k (unat n) \<le> b \<or> b + m \<le> unat a"
    by (rule new[THEN conjunct2, THEN conjunct1])
  show "gen_pool_alloc K g n = (a, g') \<Longrightarrow> a \<noteq> 0 \<Longrightarrow> n \<noteq> 0 \<Longrightarrow>
      used g' = insert (unat a, rounded k (unat n)) (used g)"
    by (rule new[THEN conjunct2, THEN conjunct2])
  show "(unat a, unat n) \<in> used g \<Longrightarrow> used (gen_pool_free K g a n) = used g - {(unat a, unat n)}"
    by (rule d[THEN conjunct2, THEN conjunct2, THEN conjunct2, rule_format])
qed

definition block :: "nat \<Rightarrow> gcip_mem_pool_region \<Rightarrow> nat \<times> nat" where
  "block k r = (unat (rg_addr r), rounded k (unat (rg_size r)))"

definition block_end :: "nat \<Rightarrow> gcip_mem_pool_region \<Rightarrow> nat" where
  "block_end k r = unat (rg_addr r) + rounded k (unat (rg_size r))"

definition blocks_apart :: "nat \<Rightarrow> gcip_mem_pool_region set \<Rightarrow> bool" where
  "blocks_apart k S \<longleftrightarrow>
    (\<forall>x \<in> S. block_end k x < 2 ^ 64 \<and> rg_size x \<noteq> 0) \<and>
    (\<forall>x \<in> S. \<forall>y \<in> S. x \<noteq> y \<longrightarrow> block_end k x \<le> unat (rg_addr y) \<or> block_end k y \<le> unat (rg_addr x))"

text \<open>
  The invariant: the tree is a search tree, the allocator's blocks in use are those of its regions, and they
  lie apart.
\<close>

definition pool_inv :: "nat \<Rightarrow> ('g \<Rightarrow> (nat \<times> nat) set) \<Rightarrow> 'g gcip_mem_pool \<Rightarrow> bool" where
  "pool_inv k used pool \<longleftrightarrow>
    k < 64 \<and> mp_granule pool = 2 ^ k \<and> region_bst (mp_regions pool) \<and>
    blocks_apart k (set_tree (mp_regions pool)) \<and>
    map_option used (mp_gen_pool pool) = Some (block k ` set_tree (mp_regions pool))"

lemma rounded_ge: "n \<le> rounded k n"
proof -
  have "(n + 2 ^ k - 1) div 2 ^ k * 2 ^ k + (n + 2 ^ k - 1) mod 2 ^ k = n + 2 ^ k - 1" by (rule div_mult_mod_eq)
  moreover have "(n + 2 ^ k - 1) mod 2 ^ k < 2 ^ k" by simp
  moreover have "(1::nat) \<le> 2 ^ k" by simp
  ultimately show ?thesis unfolding rounded_def by linarith
qed

lemma region_end_le_block: "region_end r \<le> block_end k r"
  by (simp add: region_end_def block_end_def rounded_ge)

lemma blocks_apart_apart: "blocks_apart k S \<Longrightarrow> apart S"
  unfolding blocks_apart_def apart_def by (meson order.trans order.strict_trans1 region_end_le_block)

lemma blocks_apart_mono: "blocks_apart k S \<Longrightarrow> T \<subseteq> S \<Longrightarrow> blocks_apart k T"
  unfolding blocks_apart_def by blast

lemma block_inj:
  assumes "blocks_apart k S" "x \<in> S" "y \<in> S" "block k x = block k y"
  shows "x = y"
  using apart_addr_neq[OF blocks_apart_apart[OF assms(1)] assms(2,3)] assms(4)
  by (auto simp: block_def word_unat_eq_iff)

text \<open>\<open>ALIGN\<close> rounds up to whole granules where the result fits.\<close>

lemma ALIGN_rounded:
  assumes k: "k < 64" and fit: "rounded k (unat n) < 2 ^ 64"
  shows "unat (ALIGN n (2 ^ k)) = rounded k (unat n)"
proof -
  let ?m = "unat n + 2 ^ k - 1"
  have "rounded k (unat n) + 2 ^ k \<le> 2 ^ 64"
  proof -
    have "(2::nat) ^ 64 = 2 ^ (64 - k) * 2 ^ k" using k by (simp flip: power_add)
    then show ?thesis
      using fit unfolding rounded_def by (metis Suc_leI add.commute mult_Suc mult_le_mono1 mult_less_cancel2)
  qed
  then have small: "?m < 2 ^ 64"
    using rounded_ge[of "unat n" k] zero_less_power[of "2::nat" k] by linarith
  have "?m = unat n + (2 ^ k - 1)" using zero_less_power[of "2::nat" k] by linarith
  then have "(n + (2 ^ k - 1)) = of_nat ?m"
    by (simp only: of_nat_add) (simp add: of_nat_diff)
  moreover have "x AND NOT (2 ^ k - 1) = push_bit k (drop_bit k x)" for x :: u64
    unfolding mask_eq_exp_minus_1[symmetric] by (intro bit_word_eqI) (auto simp: bit_simps)
  ultimately have "ALIGN n (2 ^ k) = push_bit k (drop_bit k (of_nat ?m))" by (simp add: ALIGN_def)
  moreover have "unat (drop_bit k (of_nat ?m :: u64)) = ?m div 2 ^ k"
    using small by (simp only: unsigned_drop_bit_eq unsigned_of_nat) (simp add: drop_bit_eq_div take_bit_nat_eq_self)
  then have "unat (push_bit k (drop_bit k (of_nat ?m :: u64))) = rounded k (unat n)"
    using fit unfolding rounded_def unsigned_push_bit_eq
    by (simp only: push_bit_eq_mult) (simp add: take_bit_nat_eq_self)
  ultimately show ?thesis by simp
qed

section \<open>Sequences of operations\<close>

datatype mp_op =
  Mp_Alloc bool u64
| Mp_Free u64 u64
| Mp_Find_Or_Alloc bool u64 u64

fun mp_step :: "'g mem_ext \<Rightarrow> mp_op \<Rightarrow> 'g gcip_mem_pool \<Rightarrow> 'g gcip_mem_pool c_result" where
  "mp_step K (Mp_Alloc kz n) pool =
    (case gcip_mem_pool_alloc K kz pool n of Hangs \<Rightarrow> Hangs | Faults \<Rightarrow> Faults | Returns (_, pool) \<Rightarrow> Returns pool)"
| "mp_step K (Mp_Free a n) pool = gcip_mem_pool_free K pool a n"
| "mp_step K (Mp_Find_Or_Alloc kz a n) pool =
    (case gcip_mem_pool_find_or_alloc K kz pool a n of
       Hangs \<Rightarrow> Hangs | Faults \<Rightarrow> Faults | Returns (_, _, _, pool) \<Rightarrow> Returns pool)"

fun mp_run :: "'g mem_ext \<Rightarrow> mp_op list \<Rightarrow> 'g gcip_mem_pool \<Rightarrow> 'g gcip_mem_pool c_result" where
  "mp_run K [] pool = Returns pool"
| "mp_run K (op # ops) pool =
    (case mp_step K op pool of Hangs \<Rightarrow> Hangs | Faults \<Rightarrow> Faults | Returns pool \<Rightarrow> mp_run K ops pool)"

fun mp_op_bytes :: "mp_op \<Rightarrow> u64" where
  "mp_op_bytes (Mp_Alloc _ n) = n"
| "mp_op_bytes (Mp_Free _ _) = 1"
| "mp_op_bytes (Mp_Find_Or_Alloc _ _ n) = n"

lemma pool_inv_gen: "pool_inv k used pool \<Longrightarrow>
    \<exists>g. mp_gen_pool pool = Some g \<and> used g = block k ` set_tree (mp_regions pool)"
  by (auto simp: pool_inv_def)

lemma blocks_apart_insert:
  assumes "blocks_apart k S" "block_end k x < 2 ^ 64" "rg_size x \<noteq> 0"
    and "\<forall>(b, m) \<in> block k ` S. block_end k x \<le> b \<or> b + m \<le> unat (rg_addr x)"
  shows "blocks_apart k (insert x S)"
  using assms unfolding blocks_apart_def by (fastforce simp: block_def block_end_def)

text \<open>What an allocation does under the invariant.\<close>

lemma alloc_adds:
  assumes "rb_ok K" "gen_pool_ok K k used" "pool_inv k used pool" "n \<noteq> 0"
  shows "\<exists>a pool'. gcip_mem_pool_alloc K kz pool n = Returns (a, pool') \<and> pool_inv k used pool' \<and>
    (if a = 0 then mp_regions pool' = mp_regions pool
     else \<lparr>rg_addr = a, rg_size = n\<rparr> \<notin> set_tree (mp_regions pool) \<and>
       set_tree (mp_regions pool') = insert \<lparr>rg_addr = a, rg_size = n\<rparr> (set_tree (mp_regions pool)))"
proof (cases kz)
  case True
  let ?S = "set_tree (mp_regions pool)"
  obtain g where g: "mp_gen_pool pool = Some g" "used g = block k ` ?S" using pool_inv_gen[OF assms(3)] by blast
  obtain a g' where a: "gen_pool_alloc K g n = (a, g')" by (metis surj_pair)
  have inv: "k < 64" "mp_granule pool = 2 ^ k" "region_bst (mp_regions pool)" "blocks_apart k ?S"
    using assms(3) by (simp_all add: pool_inv_def)
  show ?thesis
  proof (cases "a = 0")
    case zero: True
    have "used g' = used g" using a[unfolded zero] by (rule gen_pool_okD(2)[OF assms(2)])
    then have "pool_inv k used (pool\<lparr>mp_gen_pool := Some g'\<rparr>)" using inv g by (simp add: pool_inv_def)
    moreover have "gcip_mem_pool_alloc K kz pool n = Returns (0, pool\<lparr>mp_gen_pool := Some g'\<rparr>)"
      using True g(1) a zero by (simp add: gcip_mem_pool_alloc_def)
    ultimately show ?thesis by force
  next
    case False
    let ?x = "\<lparr>rg_addr = a, rg_size = n\<rparr>"
    note new = gen_pool_okD(3-5)[OF assms(2) a False assms(4)]
    have fresh: "block_end k ?x < 2 ^ 64" "\<forall>(b, m) \<in> block k ` ?S. block_end k ?x \<le> b \<or> b + m \<le> unat (rg_addr ?x)"
      and used: "used g' = insert (block k ?x) (block k ` ?S)"
      using new unfolding g(2) block_end_def block_def by simp_all
    have ba: "blocks_apart k (insert ?x ?S)" using inv(4) fresh assms(4) by (intro blocks_apart_insert) simp_all
    have xS: "?x \<notin> ?S"
    proof
      assume "?x \<in> ?S"
      then have "block k ?x \<in> block k ` ?S" by blast
      then have "block_end k ?x \<le> unat a" using fresh(2) by (auto simp: block_def block_end_def)
      then show False using rounded_ge[of "unat n" k] assms(4) by (simp add: block_end_def unat_eq_0)
    qed
    then have "\<forall>y \<in> ?S. rg_addr y \<noteq> rg_addr ?x" using apart_addr_neq[OF blocks_apart_apart[OF ba]] by blast
    then obtain t where t: "gcip_mem_pool_add_region_locked K ?x (mp_regions pool) = Some t" "region_bst t"
        "set_tree t = insert ?x ?S"
      using rb.add_new[OF assms(1) inv(3)] by blast
    have "pool_inv k used (pool\<lparr>mp_gen_pool := Some g', mp_regions := t\<rparr>)"
      using inv(1,2) ba used t(2,3) by (simp add: pool_inv_def)
    moreover have "gcip_mem_pool_alloc K kz pool n = Returns (a, pool\<lparr>mp_gen_pool := Some g', mp_regions := t\<rparr>)"
      using True g(1) a t(1) False by (simp add: gcip_mem_pool_alloc_def)
    ultimately show ?thesis using False xS t(3) by force
  qed
next
  case False
  then have "gcip_mem_pool_alloc K kz pool n = Returns (0, pool)" by (simp add: gcip_mem_pool_alloc_def)
  then show ?thesis using assms(3) by force
qed

text \<open>What freeing does under the invariant.\<close>

lemma free_removes:
  assumes "rb_ok K" "gen_pool_ok K k used" "pool_inv k used pool"
    and r: "r \<in> set_tree (mp_regions pool)" "contains r (rg_addr r) n"
  shows "\<exists>pool'. gcip_mem_pool_free K pool (rg_addr r) n = Returns pool' \<and> pool_inv k used pool' \<and>
    set_tree (mp_regions pool') = set_tree (mp_regions pool) - {r}"
proof -
  let ?S = "set_tree (mp_regions pool)" and ?a = "rg_addr r"
  obtain g where g: "mp_gen_pool pool = Some g" "used g = block k ` ?S" using pool_inv_gen[OF assms(3)] by blast
  have inv: "k < 64" "mp_granule pool = 2 ^ k" "region_bst (mp_regions pool)" "blocks_apart k ?S"
    using assms(3) by (simp_all add: pool_inv_def)
  have f: "gcip_mem_pool_find_region_locked (mp_regions pool) ?a n = Some (r, ?a - rg_addr r)"
    using rb.lookup_exact[OF inv(3) blocks_apart_apart[OF inv(4)], of ?a n r] r by blast
  let ?t = "gcip_mem_pool_remove_region_locked K r (mp_regions pool)"
  let ?g = "gen_pool_free K g ?a (ALIGN (rg_size r) (2 ^ k))"
  have t: "region_bst ?t" "set_tree ?t = ?S - {r}" using rb.del_regions[OF assms(1) inv(3) r(1)] by blast+
  have b: "block_end k r < 2 ^ 64" using inv(4) r(1) unfolding blocks_apart_def by blast
  then have al: "unat (ALIGN (rg_size r) (2 ^ k)) = rounded k (unat (rg_size r))"
    using inv(1) by (intro ALIGN_rounded) (simp_all add: block_end_def)
  then have eq: "(unat ?a, unat (ALIGN (rg_size r) (2 ^ k))) = block k r" by (simp add: block_def)
  have "used ?g = used g - {block k r}"
    using gen_pool_okD(6)[OF assms(2), of ?a "ALIGN (rg_size r) (2 ^ k)" g] g(2) r(1) unfolding eq by blast
  also have "\<dots> = block k ` (?S - {r})" using block_inj[OF inv(4)] r(1) unfolding g(2) by blast
  finally have "pool_inv k used (pool\<lparr>mp_regions := ?t, mp_gen_pool := Some ?g\<rparr>)"
    using inv(1,2) t blocks_apart_mono[OF inv(4), of "?S - {r}"] by (simp add: pool_inv_def)
  moreover have "gcip_mem_pool_free K pool ?a n = Returns (pool\<lparr>mp_regions := ?t, mp_gen_pool := Some ?g\<rparr>)"
    using f g(1) inv(2) by (simp add: gcip_mem_pool_free_def)
  ultimately show ?thesis using t(2) by force
qed

lemma free_absent:
  assumes "pool_inv k used pool"
    and "\<forall>r \<in> set_tree (mp_regions pool). rg_addr r = a \<longrightarrow> \<not> contains r a n"
  shows "gcip_mem_pool_free K pool a n = Returns pool"
proof (cases "gcip_mem_pool_find_region_locked (mp_regions pool) a n")
  case (Some p)
  then obtain r off where p: "gcip_mem_pool_find_region_locked (mp_regions pool) a n = Some (r, off)"
    by (cases p) auto
  have inv: "region_bst (mp_regions pool)" "apart (set_tree (mp_regions pool))"
    using assms(1) blocks_apart_apart by (auto simp: pool_inv_def)
  have "rg_addr r \<noteq> a" using p rb.lookup_exact[OF inv] assms(2) by blast
  then show ?thesis using p by (simp add: gcip_mem_pool_free_def)
qed (simp add: gcip_mem_pool_free_def)

lemma mp_step_inv:
  assumes K: "rb_ok K" "gen_pool_ok K k used" and inv: "pool_inv k used pool" and n: "mp_op_bytes op \<noteq> 0"
  shows "\<exists>pool'. mp_step K op pool = Returns pool' \<and> pool_inv k used pool'"
proof (cases op)
  case (Mp_Alloc kz n)
  then obtain a pool' where "gcip_mem_pool_alloc K kz pool n = Returns (a, pool')" "pool_inv k used pool'"
    using alloc_adds[OF K inv, of n kz] n by auto
  then show ?thesis using Mp_Alloc by simp
next
  case (Mp_Free a n)
  show ?thesis
  proof (cases "\<exists>r \<in> set_tree (mp_regions pool). rg_addr r = a \<and> contains r a n")
    case True
    then show ?thesis using free_removes[OF K inv] Mp_Free by fastforce
  next
    case False
    then show ?thesis using free_absent[OF inv, of a n K] inv Mp_Free by fastforce
  qed
next
  case (Mp_Find_Or_Alloc kz a n)
  then obtain b pool' where "gcip_mem_pool_alloc K kz pool n = Returns (b, pool')" "pool_inv k used pool'"
    using alloc_adds[OF K inv, of n kz] n by auto
  then show ?thesis
    using inv Mp_Find_Or_Alloc by (auto simp: gcip_mem_pool_find_or_alloc_def split: prod.splits)
qed

lemma mp_run_inv:
  assumes "rb_ok K" "gen_pool_ok K k used"
  shows "pool_inv k used pool \<Longrightarrow> \<forall>op \<in> set ops. mp_op_bytes op \<noteq> 0 \<Longrightarrow>
    \<exists>pool'. mp_run K ops pool = Returns pool' \<and> pool_inv k used pool'"
proof (induction ops arbitrary: pool)
  case (Cons op ops)
  obtain p where p: "mp_step K op pool = Returns p" "pool_inv k used p"
    using mp_step_inv[OF assms Cons.prems(1), of op] Cons.prems(2) by auto
  then show ?case using Cons.IH[OF p(2)] Cons.prems(2) by simp
qed simp

lemma ilog2_exp: "ilog2 (2 ^ k) = k"
proof (induction k)
  case (Suc k)
  have "\<not> (2::nat) ^ Suc k \<le> 1" using one_less_power[of "2::nat" "Suc k"] by simp
  then show ?case using Suc by (subst ilog2.simps) simp
qed (subst ilog2.simps, simp)

lemma init_inv:
  assumes "gen_pool_ok K k used" "k < 64" "gcip_mem_pool_init K pool0 base sz (2 ^ k) = (0, pool)"
  shows "pool_inv k used pool"
proof -
  have o: "ilog2 (unat (2 ^ k :: u64)) = k" using assms(2) by (simp add: unat_exp ilog2_exp)
  obtain g g' where g: "gen_pool_create K k = Some g" "gen_pool_add K g base sz = (0, g')"
    and pool: "pool = pool0\<lparr>mp_gen_pool := Some g', mp_granule := 2 ^ k, mp_base_addr := base, mp_regions := Leaf\<rparr>"
    using assms(3) unfolding gcip_mem_pool_init_def o
    by (auto simp: Let_def split: if_splits option.splits prod.splits)
  then show ?thesis
    using gen_pool_okD(1)[OF assms(1) g] assms(2) by (simp add: pool_inv_def blocks_apart_def)
qed

text \<open>C31: Over any sequence of allocations of at least a byte, frees (of any address and size) and
  find-or-allocates, after a successful set-up: every call returns; the regions in the tree are in the order
  of their addresses and lie apart in whole granules; and the blocks that the kernel's allocator has in
  use are exactly theirs, so nothing leaks and nothing is given back twice.
\<close>

theorem mem_pool_keeps_books:
  assumes "rb_ok K" "gen_pool_ok K k used" "k < 64"
    and "gcip_mem_pool_init K pool0 base sz (2 ^ k) = (0, pool)"
    and "\<forall>op \<in> set ops. mp_op_bytes op \<noteq> 0"
  shows "\<exists>pool'. mp_run K ops pool = Returns pool' \<and> pool_inv k used pool'"
  by (rule mp_run_inv[OF assms(1,2) init_inv[OF assms(2-4)] assms(5)])

text \<open>C32: A fresh region is found again by every range inside it, with its offset, and freeing it by its
  address restores the set of regions, after which no range that starts in it is found.
\<close>

theorem alloc_find_free:
  assumes K: "rb_ok K" "gen_pool_ok K k used" and inv: "pool_inv k used pool" and n: "n \<noteq> 0"
    and alloc: "gcip_mem_pool_alloc K kz pool n = Returns (a, pool')" "a \<noteq> 0"
    and off: "off < n" "unat off + unat m \<le> unat n"
  shows "gcip_mem_pool_find pool' (a + off) m = (a, Some off) \<and>
    (\<exists>pool''. gcip_mem_pool_free K pool' a n = Returns pool'' \<and>
      set_tree (mp_regions pool'') = set_tree (mp_regions pool) \<and>
      gcip_mem_pool_find pool'' (a + off) m = (0, None))"
proof
  let ?x = "\<lparr>rg_addr = a, rg_size = n\<rparr>" and ?S = "set_tree (mp_regions pool)" and ?S' = "set_tree (mp_regions pool')"
  have new: "pool_inv k used pool'" "?x \<notin> ?S" "?S' = insert ?x ?S"
    using alloc_adds[OF K inv n, of kz] alloc by auto
  have tree: "region_bst (mp_regions pool')" "apart ?S'" "region_bst (mp_regions pool)" "apart ?S"
    using new(1) inv blocks_apart_apart by (auto simp: pool_inv_def)
  have "region_end ?x < 2 ^ 64" using apartD(1)[OF tree(2), of ?x] new(3) by simp
  then have ao: "unat (a + off) = unat a + unat off"
    using off(1) by (subst unat_add_lem[THEN iffD1]) (simp_all add: region_end_def word_less_nat_alt)
  have c: "contains ?x (a + off) m" "contains ?x a n"
    using off ao n by (simp_all add: contains_def region_end_def word_le_nat_alt word_less_nat_alt unat_eq_0 unat_gt_0)
  have "gcip_mem_pool_find_region_locked (mp_regions pool') (a + off) m = Some (?x, off)"
    using rb.lookup_exact[OF tree(1,2), of "a + off" m ?x off] c(1) new(3) by simp
  then show "gcip_mem_pool_find pool' (a + off) m = (a, Some off)" by (simp add: gcip_mem_pool_find_def)
  obtain p where p: "gcip_mem_pool_free K pool' a n = Returns p" "pool_inv k used p"
      "set_tree (mp_regions p) = ?S' - {?x}"
    using free_removes[OF K new(1), of ?x n] new(3) c(2) by auto
  then have S: "set_tree (mp_regions p) = ?S" using new by auto
  have "\<not> contains r (a + off) m" if "r \<in> ?S" for r
  proof -
    have "?x \<in> ?S'" "r \<in> ?S'" "?x \<noteq> r" using that new(2,3) by auto
    then have "region_end ?x \<le> unat (rg_addr r) \<or> region_end r \<le> unat a"
      using apartD(3)[OF tree(2)] by fastforce
    then show ?thesis using c(1) by (auto simp: contains_def word_le_nat_alt)
  qed
  then have "gcip_mem_pool_find_region_locked (mp_regions p) (a + off) m = None"
    using rb.lookup_None[of "mp_regions p" "a + off" m] p(2) S tree(4) by (simp add: pool_inv_def)
  then show "\<exists>pool''. gcip_mem_pool_free K pool' a n = Returns pool'' \<and>
      set_tree (mp_regions pool'') = ?S \<and> gcip_mem_pool_find pool'' (a + off) m = (0, None)"
    using p(1) S by (auto simp: gcip_mem_pool_find_def)
qed


section \<open>A concrete allocator\<close>

text \<open>
  An allocator that puts each block behind all others, up to a limit, and a tree without balance, as an
  instance of what is assumed of the kernel.
\<close>

record bump_pool =
  bp_start :: nat
  bp_blocks :: "(nat \<times> nat) list"

definition bump_next :: "bump_pool \<Rightarrow> nat" where
  "bump_next g = foldr (\<lambda>(b, m) x. max (b + m) x) (bp_blocks g) (bp_start g)"

fun region_spine :: "gcip_mem_pool_region list \<Rightarrow> gcip_mem_pool_region tree" where
  "region_spine [] = Leaf"
| "region_spine (x # xs) = Node Leaf x (region_spine xs)"

definition bump_ext :: "nat \<Rightarrow> bump_pool mem_ext" where
  "bump_ext k =
    \<lparr>gen_pool_create = (\<lambda>_. Some \<lparr>bp_start = 0, bp_blocks = []\<rparr>),
     gen_pool_add = (\<lambda>g base _. (0, \<lparr>bp_start = unat base, bp_blocks = []\<rparr>)),
     gen_pool_alloc = (\<lambda>g n.
       if n = 0 \<or> bump_next g = 0 \<or> 1048576 \<le> bump_next g + rounded k (unat n) then (0, g)
       else (of_nat (bump_next g), g\<lparr>bp_blocks := (bump_next g, rounded k (unat n)) # bp_blocks g\<rparr>)),
     gen_pool_free = (\<lambda>g a n. g\<lparr>bp_blocks := removeAll (unat a, unat n) (bp_blocks g)\<rparr>),
     rb_insert_color = (\<lambda>_ t. t),
     rb_erase = (\<lambda>x t. region_spine (remove1 x (inorder t)))\<rparr>"

lemma bump_next_ge: "(b, m) \<in> set (bp_blocks g) \<Longrightarrow> b + m \<le> bump_next g"
proof -
  have "(b, m) \<in> set xs \<Longrightarrow> b + m \<le> foldr (\<lambda>(b, m) x. max (b + m) x) xs y" for xs y
    by (induction xs) fastforce+
  then show "(b, m) \<in> set (bp_blocks g) \<Longrightarrow> b + m \<le> bump_next g" by (simp add: bump_next_def)
qed

lemma bump_rb_ok: "rb_ok (bump_ext k)"
proof -
  have "inorder (region_spine xs) = xs" for xs by (induction xs) simp_all
  then show ?thesis by (simp add: rb_ok_def bump_ext_def)
qed

lemma bump_alloc_ok:
  assumes "gen_pool_alloc (bump_ext k) g n = (a, g')" "a \<noteq> 0"
  shows "unat a = bump_next g \<and> bump_next g + rounded k (unat n) < 2 ^ 64 \<and>
    set (bp_blocks g') = insert (unat a, rounded k (unat n)) (set (bp_blocks g))"
proof -
  have c: "\<not> (n = 0 \<or> bump_next g = 0 \<or> 1048576 \<le> bump_next g + rounded k (unat n))"
    "a = of_nat (bump_next g)" "g' = g\<lparr>bp_blocks := (bump_next g, rounded k (unat n)) # bp_blocks g\<rparr>"
    using assms by (auto simp: bump_ext_def split: if_splits)
  have "unat a = bump_next g" unfolding c(2) by (rule unat_of_nat_lt) (use c(1) in simp)
  then show ?thesis using c by simp
qed

lemma bump_gen_pool_ok: "gen_pool_ok (bump_ext k) k (\<lambda>g. set (bp_blocks g))"
  unfolding gen_pool_ok_def
proof (intro conjI allI impI)
  fix g n a g'
  assume a: "gen_pool_alloc (bump_ext k) g n = (a, g')" "a \<noteq> 0"
  note ok = bump_alloc_ok[OF a]
  show "unat a + rounded k (unat n) < 2 ^ 64"
    "set (bp_blocks g') = insert (unat a, rounded k (unat n)) (set (bp_blocks g))"
    using ok by auto
  show "\<forall>(b, m) \<in> set (bp_blocks g). unat a + rounded k (unat n) \<le> b \<or> b + m \<le> unat a"
    using ok bump_next_ge by auto
next
  fix g n g'
  assume a: "gen_pool_alloc (bump_ext k) g n = (0, g')"
  show "set (bp_blocks g') = set (bp_blocks g)"
  proof (cases "n = 0 \<or> bump_next g = 0 \<or> 1048576 \<le> bump_next g + rounded k (unat n)")
    case False
    then have z: "(of_nat (bump_next g) :: u64) = 0" using a by (simp add: bump_ext_def)
    have "unat (of_nat (bump_next g) :: u64) = bump_next g" by (rule unat_of_nat_lt) (use False in simp)
    then show ?thesis using False z by simp
  qed (use a in \<open>simp add: bump_ext_def\<close>)
qed (auto simp: bump_ext_def)

definition demo_pool :: "bump_pool gcip_mem_pool" where
  "demo_pool = \<lparr>mp_gen_pool = Some \<lparr>bp_start = 65536, bp_blocks = []\<rparr>, mp_base_addr = 65536, mp_granule = 4096,
     mp_regions = Leaf\<rparr>"

lemma demo_pool_init: "gcip_mem_pool_init (bump_ext 12) demo_pool 65536 65536 (2 ^ 12) = (0, demo_pool)"
proof -
  have "ilog2 (unat (2 ^ 12 :: u64)) = 12" using ilog2_exp[of 12] by simp
  then show ?thesis by (simp add: gcip_mem_pool_init_def bump_ext_def demo_pool_def)
qed

theorem mem_pool_keeps_books_witness:
  "\<exists>pool'. mp_run (bump_ext 12) [Mp_Alloc True 5000, Mp_Find_Or_Alloc True 65600 8, Mp_Free 65536 5000, Mp_Alloc True 1] demo_pool =
      Returns pool' \<and> pool_inv 12 (\<lambda>g. set (bp_blocks g)) pool'"
  by (rule mem_pool_keeps_books[OF bump_rb_ok bump_gen_pool_ok _ demo_pool_init]) simp_all

lemma demo_alloc:
  "gcip_mem_pool_alloc (bump_ext 12) True demo_pool 5000 =
    Returns (65536, demo_pool\<lparr>mp_gen_pool := Some \<lparr>bp_start = 65536, bp_blocks = [(65536, 8192)]\<rparr>,
      mp_regions := Node Leaf \<lparr>rg_addr = 65536, rg_size = 5000\<rparr> Leaf\<rparr>)"
  by (simp add: gcip_mem_pool_alloc_def gcip_mem_pool_add_region_locked_def bump_ext_def demo_pool_def bump_next_def rounded_def)

theorem alloc_find_free_witness:
  "gcip_mem_pool_find (demo_pool\<lparr>mp_gen_pool := Some \<lparr>bp_start = 65536, bp_blocks = [(65536, 8192)]\<rparr>,
      mp_regions := Node Leaf \<lparr>rg_addr = 65536, rg_size = 5000\<rparr> Leaf\<rparr>) (65536 + 4000) 1000 = (65536, Some 4000)"
  by (rule alloc_find_free[OF bump_rb_ok bump_gen_pool_ok
        init_inv[OF bump_gen_pool_ok _ demo_pool_init] _ demo_alloc, THEN conjunct1]) simp_all

end
