(* ===== verification/Domain_Pool.thy ===== *)
theory Domain_Pool
  imports Gcip_Prelude
begin

text \<open>
  The pool of IOMMU domains (gcip-domain-pool.c, gcip-domain-pool.h): a table of domains made in advance with
  an allocator of their numbers, or domains made on demand when the pool has size zero.

  The allocator of numbers (\<open>ida\<close>), the memory allocator and the IOMMU layer belong to the kernel and are
  arguments of the model: \<open>'i\<close> is the state of an allocator of numbers, \<open>'m\<close> that of the IOMMU layer, \<open>'d\<close> a
  domain. A null entry of the table is \<open>None\<close>.
\<close>

section \<open>State\<close>

record ('d, 'i) gcip_domain_pool =
  dp_idp :: 'i
  dp_size :: nat
  dp_array :: "'d option list"
  dynamic_domains :: "'d list"

record ('d, 'i, 'm) dp_ext =
  ida_empty :: 'i
  ida_alloc_max :: "'i \<Rightarrow> nat \<Rightarrow> int \<times> 'i"
  ida_free :: "'i \<Rightarrow> nat \<Rightarrow> 'i"
  iommu_domain_alloc :: "'m \<Rightarrow> 'd option \<times> 'm"
  iommu_domain_free :: "'d \<Rightarrow> 'm \<Rightarrow> 'm"

section \<open>Operations\<close>

fun free_entries :: "('d, 'i, 'm) dp_ext \<Rightarrow> 'd option list \<Rightarrow> 'm \<Rightarrow> 'm" where
  "free_entries K [] m = m"
| "free_entries K (None # ds) m = free_entries K ds m"
| "free_entries K (Some d # ds) m = free_entries K ds (iommu_domain_free K d m)"

text \<open>Afterwards the table and the numbers are gone; the dynamic list is empty.\<close>

definition gcip_domain_pool_destroy ::
    "('d, 'i, 'm) dp_ext \<Rightarrow> ('d, 'i) gcip_domain_pool \<Rightarrow> 'm \<Rightarrow> ('d, 'i) gcip_domain_pool \<times> 'm" where
  "gcip_domain_pool_destroy K pool m =
    (if dp_size pool = 0
     then (pool\<lparr>dynamic_domains := []\<rparr>, free_entries K (map Some (dynamic_domains pool)) m)
     else (pool\<lparr>dp_idp := ida_empty K, dp_array := []\<rparr>, free_entries K (dp_array pool) m))"

text \<open>The loop that fills the table from entry \<open>i\<close> on: whether it got to the end, the table and the IOMMU layer.\<close>

fun fill_array :: "('d, 'i, 'm) dp_ext \<Rightarrow> nat \<Rightarrow> nat \<Rightarrow> 'd option list \<Rightarrow> 'm \<Rightarrow> bool \<times> 'd option list \<times> 'm" where
  "fill_array K i 0 arr m = (True, arr, m)"
| "fill_array K i (Suc n) arr m =
    (let (dom, m) = iommu_domain_alloc K m in
     case dom of
       None \<Rightarrow> (False, arr, m)
     | Some d \<Rightarrow> fill_array K (Suc i) n (arr[i := Some d]) m)"

text \<open>\<open>vz\<close> tells whether \<open>vzalloc\<close> has memory for the table.\<close>

definition gcip_domain_pool_init ::
    "('d, 'i, 'm) dp_ext \<Rightarrow> bool \<Rightarrow> ('d, 'i) gcip_domain_pool \<Rightarrow> nat \<Rightarrow> 'm \<Rightarrow>
      int \<times> ('d, 'i) gcip_domain_pool \<times> 'm" where
  "gcip_domain_pool_init K vz pool sz m =
    (let pool = pool\<lparr>dp_size := sz, dynamic_domains := []\<rparr> in
     if sz = 0 then (0, pool, m)
     else
       let pool = pool\<lparr>dp_idp := ida_empty K\<rparr> in
       if \<not> vz then (- ENOMEM, pool\<lparr>dp_array := []\<rparr>, m)
       else
         let (done, arr, m) = fill_array K 0 sz (replicate sz None) m;
             pool = pool\<lparr>dp_array := arr\<rparr>
         in if done then (0, pool, m)
            else let (pool, m) = gcip_domain_pool_destroy K pool m in (- ENOMEM, pool, m))"

definition gcip_domain_pool_alloc ::
    "('d, 'i, 'm) dp_ext \<Rightarrow> bool \<Rightarrow> ('d, 'i) gcip_domain_pool \<Rightarrow> 'm \<Rightarrow>
      'd option \<times> ('d, 'i) gcip_domain_pool \<times> 'm" where
  "gcip_domain_pool_alloc K vz pool m =
    (if dp_size pool = 0 then
       if \<not> vz then (None, pool, m)
       else
         (case iommu_domain_alloc K m of
            (None, m) \<Rightarrow> (None, pool, m)
          | (Some d, m) \<Rightarrow> (Some d, pool\<lparr>dynamic_domains := dynamic_domains pool @ [d]\<rparr>, m))
     else
       let (i, idp) = ida_alloc_max K (dp_idp pool) (dp_size pool - 1); pool = pool\<lparr>dp_idp := idp\<rparr> in
       if i < 0 then (None, pool, m) else (dp_array pool ! nat i, pool, m))"

text \<open>The first entry of the table that is the domain.\<close>

fun find_entry :: "nat \<Rightarrow> 'd option list \<Rightarrow> 'd \<Rightarrow> nat option" where
  "find_entry i [] d = None"
| "find_entry i (x # xs) d = (if x = Some d then Some i else find_entry (Suc i) xs d)"

definition gcip_domain_pool_free ::
    "('d, 'i, 'm) dp_ext \<Rightarrow> ('d, 'i) gcip_domain_pool \<Rightarrow> 'd \<Rightarrow> 'm \<Rightarrow> ('d, 'i) gcip_domain_pool \<times> 'm" where
  "gcip_domain_pool_free K pool d m =
    (if dp_size pool = 0 then
       if d \<in> set (dynamic_domains pool)
       then (pool\<lparr>dynamic_domains := remove1 d (dynamic_domains pool)\<rparr>, iommu_domain_free K d m)
       else (pool, m)
     else
       (case find_entry 0 (dp_array pool) d of
          None \<Rightarrow> (pool, m)
        | Some i \<Rightarrow> (pool\<lparr>dp_idp := ida_free K (dp_idp pool) i\<rparr>, m)))"

section \<open>Laws\<close>

text \<open>
  What the kernel documents. \<open>ids\<close> are the numbers in use and \<open>live\<close> the domains that exist: a number handed
  out was free and is at most the limit, and one is handed out while there is a free one and memory for it; a new domain is new.
\<close>

definition ida_ok :: "('d, 'i, 'm) dp_ext \<Rightarrow> ('i \<Rightarrow> nat set) \<Rightarrow> bool" where
  "ida_ok K ids \<longleftrightarrow>
    ids (ida_empty K) = {} \<and>
    (\<forall>i n r i'. ida_alloc_max K i n = (r, i') \<longrightarrow>
       (if r < 0 then ids i' = ids i
        else nat r \<le> n \<and> nat r \<notin> ids i \<and> ids i' = insert (nat r) (ids i))) \<and>
    (\<forall>i n. ids (ida_free K i n) = ids i - {n})"

definition iommu_ok :: "('d, 'i, 'm) dp_ext \<Rightarrow> ('m \<Rightarrow> 'd set) \<Rightarrow> bool" where
  "iommu_ok K live \<longleftrightarrow>
    (\<forall>m. live (snd (iommu_domain_alloc K m)) =
       (case fst (iommu_domain_alloc K m) of None \<Rightarrow> live m | Some d \<Rightarrow> insert d (live m))) \<and>
    (\<forall>m d. fst (iommu_domain_alloc K m) = Some d \<longrightarrow> d \<notin> live m) \<and>
    (\<forall>m d. live (iommu_domain_free K d m) = live m - {d})"

text \<open>Domains handed out: those of the table whose number is in use, or the dynamic ones.\<close>

definition dp_held :: "('i \<Rightarrow> nat set) \<Rightarrow> ('d, 'i) gcip_domain_pool \<Rightarrow> 'd set" where
  "dp_held ids pool =
    (if dp_size pool = 0 then set (dynamic_domains pool)
     else {d. \<exists>i \<in> ids (dp_idp pool). i < dp_size pool \<and> dp_array pool ! i = Some d})"

text \<open>The domains the pool owns.\<close>

definition dp_owned :: "('d, 'i) gcip_domain_pool \<Rightarrow> 'd set" where
  "dp_owned pool =
    (if dp_size pool = 0 then set (dynamic_domains pool) else {d. Some d \<in> set (dp_array pool)})"

text \<open>The invariant of a pool in an IOMMU layer where others own the domains \<open>L\<close>.\<close>

definition dp_inv ::
    "('i \<Rightarrow> nat set) \<Rightarrow> ('m \<Rightarrow> 'd set) \<Rightarrow> 'd set \<Rightarrow> ('d, 'i) gcip_domain_pool \<Rightarrow> 'm \<Rightarrow> bool" where
  "dp_inv ids live L pool m \<longleftrightarrow>
    (if dp_size pool = 0 then distinct (dynamic_domains pool)
     else length (dp_array pool) = dp_size pool \<and> None \<notin> set (dp_array pool) \<and> distinct (dp_array pool) \<and>
       (\<forall>i \<in> ids (dp_idp pool). i < dp_size pool)) \<and>
    live m = L \<union> dp_owned pool \<and> L \<inter> dp_owned pool = {}"

lemma find_entry_nth:
  "i < length xs \<Longrightarrow> distinct xs \<Longrightarrow> xs ! i = Some d \<Longrightarrow> find_entry k xs d = Some (k + i)"
proof (induction xs arbitrary: i k)
  case (Cons x xs)
  then show ?case by (cases i) (auto dest: nth_mem)
qed simp

lemma find_entry_Some: "find_entry k xs d = Some j \<Longrightarrow> k \<le> j \<and> j - k < length xs \<and> xs ! (j - k) = Some d"
proof (induction xs arbitrary: k)
  case (Cons x xs)
  then show ?case by (cases "x = Some d") (auto simp: nth_Cons' dest: Cons.IH)
qed simp

lemma find_entry_None: "find_entry k xs d = None \<longleftrightarrow> Some d \<notin> set xs"
  by (induction xs arbitrary: k) auto

lemma ida_okD:
  assumes "ida_ok K ids" "ida_alloc_max K i n = (r, i')"
  shows "r < 0 \<Longrightarrow> ids i' = ids i"
    and "\<not> r < 0 \<Longrightarrow> nat r \<le> n" "\<not> r < 0 \<Longrightarrow> nat r \<notin> ids i" "\<not> r < 0 \<Longrightarrow> ids i' = insert (nat r) (ids i)"
  using assms unfolding ida_ok_def by metis+

lemma iommu_okD:
  assumes "iommu_ok K live"
  shows "iommu_domain_alloc K m = (None, m') \<Longrightarrow> live m' = live m"
    and "iommu_domain_alloc K m = (Some d, m') \<Longrightarrow> d \<notin> live m \<and> live m' = insert d (live m)"
    and "live (iommu_domain_free K d m) = live m - {d}"
  using assms unfolding iommu_ok_def by (metis fst_conv snd_conv option.simps(4,5))+

lemma alloc_keeps:
  assumes "ida_ok K ids" "iommu_ok K live" "dp_inv ids live L pool m"
    and "gcip_domain_pool_alloc K vz pool m = (d, pool', m')"
  shows "dp_inv ids live L pool' m' \<and>
    (case d of
       None \<Rightarrow> dp_held ids pool' = dp_held ids pool
     | Some d \<Rightarrow> d \<notin> dp_held ids pool \<and> d \<in> dp_owned pool' \<and> dp_held ids pool' = insert d (dp_held ids pool))"
proof (cases "dp_size pool = 0")
  case True
  have own: "live m = L \<union> set (dynamic_domains pool)" "L \<inter> set (dynamic_domains pool) = {}"
      "distinct (dynamic_domains pool)"
    using assms(3) True by (auto simp: dp_inv_def dp_owned_def)
  obtain e m1 where e: "iommu_domain_alloc K m = (e, m1)" by fastforce
  show ?thesis
  proof (cases "vz \<and> e \<noteq> None")
    case False
    then have "pool' = pool" "d = None" "m' = m \<or> (m' = m1 \<and> e = None)"
      using assms(4) True e by (auto simp: gcip_domain_pool_alloc_def split: if_splits option.splits)
    then show ?thesis using assms(3) iommu_okD(1)[OF assms(2)] e by (auto simp: dp_inv_def)
  next
    case vz: True
    then obtain c where c: "e = Some c" by blast
    then have r: "d = Some c" "pool' = pool\<lparr>dynamic_domains := dynamic_domains pool @ [c]\<rparr>" "m' = m1"
      using assms(4) True vz e by (auto simp: gcip_domain_pool_alloc_def)
    have "c \<notin> live m" "live m1 = insert c (live m)" using iommu_okD(2)[OF assms(2)] e c by blast+
    then show ?thesis
      using own True r by (auto simp: dp_inv_def dp_held_def dp_owned_def)
  qed
next
  case False
  obtain i idp where i: "ida_alloc_max K (dp_idp pool) (dp_size pool - 1) = (i, idp)" by fastforce
  have arr: "length (dp_array pool) = dp_size pool" "None \<notin> set (dp_array pool)" "distinct (dp_array pool)"
      "\<forall>i \<in> ids (dp_idp pool). i < dp_size pool" "live m = L \<union> dp_owned pool" "L \<inter> dp_owned pool = {}"
    using assms(3) False by (auto simp: dp_inv_def)
  note ok = ida_okD[OF assms(1) i]
  show ?thesis
  proof (cases "i < 0")
    case True
    then have "pool' = pool\<lparr>dp_idp := idp\<rparr>" "d = None" "m' = m"
      using assms(4) i False by (auto simp: gcip_domain_pool_alloc_def)
    then show ?thesis using assms(3) False ok(1)[OF True] by (simp add: dp_inv_def dp_held_def dp_owned_def)
  next
    case ge: False
    have n: "nat i < dp_size pool" "nat i \<notin> ids (dp_idp pool)" "ids idp = insert (nat i) (ids (dp_idp pool))"
      using ok(2-4)[OF ge] False by auto
    have r: "pool' = pool\<lparr>dp_idp := idp\<rparr>" "d = dp_array pool ! nat i" "m' = m"
      using assms(4) i False ge by (auto simp: gcip_domain_pool_alloc_def)
    have "d \<noteq> None" using arr(1,2) n(1) r(2) by (metis nth_mem)
    then obtain c where c: "d = Some c" by blast
    have new: "c \<notin> dp_held ids pool"
      using arr(1,3) n c r(2) False nth_eq_iff_index_eq[OF arr(3)] by (auto simp: dp_held_def) metis
    have "c \<in> dp_owned pool'" using n(1) arr(1) c r False by (auto simp: dp_owned_def) (metis nth_mem)
    moreover have "dp_inv ids live L pool' m'" using arr n r False by (simp add: dp_inv_def dp_owned_def)
    moreover have "dp_held ids pool' = insert c (dp_held ids pool)"
      using n c r False by (auto simp: dp_held_def)
    ultimately show ?thesis using new c by simp
  qed
qed

lemma domain_free_held:
  assumes "ida_ok K ids" "iommu_ok K live" "dp_inv ids live L pool m"
    and "gcip_domain_pool_free K pool d m = (pool', m')"
  shows "dp_inv ids live L pool' m' \<and> dp_held ids pool' = dp_held ids pool - {d}"
proof (cases "dp_size pool = 0")
  case True
  then show ?thesis
    using assms(3,4) iommu_okD(3)[OF assms(2)]
    by (auto simp: gcip_domain_pool_free_def dp_inv_def dp_held_def dp_owned_def split: if_splits)
next
  case False
  have arr: "length (dp_array pool) = dp_size pool" "distinct (dp_array pool)"
    using assms(3) False by (auto simp: dp_inv_def)
  have ids: "ids (ida_free K i n) = ids i - {n}" for i n using assms(1) by (simp add: ida_ok_def)
  show ?thesis
  proof (cases "find_entry 0 (dp_array pool) d")
    case None
    then have "Some d \<notin> set (dp_array pool)" by (simp add: find_entry_None)
    then have "d \<notin> dp_held ids pool" using False arr(1) by (auto simp: dp_held_def) (metis nth_mem)
    then show ?thesis using assms(3,4) None False by (auto simp: gcip_domain_pool_free_def)
  next
    case (Some i)
    have i: "i < dp_size pool" "dp_array pool ! i = Some d" using find_entry_Some[OF Some] arr(1) by auto
    have same: "dp_array pool ! j = Some d \<longleftrightarrow> j = i" if "j < dp_size pool" for j
      using that i arr nth_eq_iff_index_eq[OF arr(2)] by metis
    have r: "pool' = pool\<lparr>dp_idp := ida_free K (dp_idp pool) i\<rparr>" "m' = m"
      using assms(4) Some False by (auto simp: gcip_domain_pool_free_def)
    have "dp_held ids pool' = dp_held ids pool - {d}"
      using same i False unfolding r(1) by (fastforce simp: dp_held_def ids)
    then show ?thesis using assms(3) False r ids by (auto simp: dp_inv_def dp_owned_def)
  qed
qed

lemma free_entries_live:
  assumes "iommu_ok K live"
  shows "live (free_entries K ds m) = live m - {d. Some d \<in> set ds}"
proof (induction ds arbitrary: m)
  case (Cons x ds)
  then show ?case by (cases x) (auto simp: iommu_okD(3)[OF assms])
qed simp

lemma fill_array_fills:
  assumes "iommu_ok K live"
  shows "fill_array K i n arr m = (ok, arr', m') \<Longrightarrow> length arr = i + n \<Longrightarrow>
      distinct (take i arr) \<Longrightarrow> None \<notin> set (take i arr) \<Longrightarrow> set (drop i arr) \<subseteq> {None} \<Longrightarrow>
      L \<inter> {d. Some d \<in> set arr} = {} \<Longrightarrow> live m = L \<union> {d. Some d \<in> set arr} \<Longrightarrow>
      live m' = L \<union> {d. Some d \<in> set arr'} \<and> L \<inter> {d. Some d \<in> set arr'} = {} \<and>
      (ok \<longrightarrow> distinct arr' \<and> None \<notin> set arr' \<and> length arr' = length arr)"
proof (induction n arbitrary: i arr m)
  case 0
  then show ?case by auto
next
  case (Suc n)
  obtain e m1 where e: "iommu_domain_alloc K m = (e, m1)" by fastforce
  show ?case
  proof (cases e)
    case None
    then show ?thesis using Suc.prems e iommu_okD(1)[OF assms] by auto
  next
    case (Some d)
    have d: "d \<notin> live m" "live m1 = insert d (live m)" using iommu_okD(2)[OF assms] e Some by blast+
    let ?arr = "arr[i := Some d]"
    have i: "i < length arr" using Suc.prems(2) by simp
    have take: "take (Suc i) ?arr = take i arr @ [Some d]" using i by (simp add: take_Suc_conv_app_nth)
    have drop: "drop (Suc i) ?arr = drop (Suc i) arr" by simp
    have none: "arr ! i = None" using Suc.prems(5) i by (simp add: Cons_nth_drop_Suc[symmetric])
    have "set arr = set (take i arr) \<union> {arr ! i} \<union> set (drop (Suc i) arr)"
      by (subst id_take_nth_drop[OF i]) simp
    note split = this none
    have "set ?arr = set (take (Suc i) ?arr) \<union> set (drop (Suc i) ?arr)"
      by (metis append_take_drop_id set_append)
    then have s: "{x. Some x \<in> set ?arr} = insert d {x. Some x \<in> set arr}"
      unfolding take drop using split by auto
    have "distinct (take (Suc i) ?arr)" "None \<notin> set (take (Suc i) ?arr)" "set (drop (Suc i) ?arr) \<subseteq> {None}"
      unfolding take drop using Suc.prems(3-5) d Suc.prems(7) split
      by (auto simp: Cons_nth_drop_Suc[OF i, symmetric] dest: in_set_takeD)
    moreover have "L \<inter> {x. Some x \<in> set ?arr} = {}" "live m1 = L \<union> {x. Some x \<in> set ?arr}"
      unfolding s using Suc.prems(6,7) d by auto
    moreover have "fill_array K (Suc i) n ?arr m1 = (ok, arr', m')" using Suc.prems(1) e Some by simp
    moreover have "length ?arr = Suc i + n" using Suc.prems(2) by simp
    ultimately show ?thesis using Suc.IH[of "Suc i" ?arr m1] by simp
  qed
qed

lemma destroy_releases:
  assumes "iommu_ok K live" "live m = L \<union> dp_owned pool" "L \<inter> dp_owned pool = {}"
  shows "live (snd (gcip_domain_pool_destroy K pool m)) = L"
  using assms(2,3) free_entries_live[OF assms(1)]
  by (auto simp: gcip_domain_pool_destroy_def dp_owned_def)

lemma init_outcome:
  assumes "ida_ok K ids" "iommu_ok K live" "gcip_domain_pool_init K vz pool0 sz m0 = (ret, pool, m)"
  shows "if ret = 0 then dp_inv ids live (live m0) pool m \<and> dp_held ids pool = {} else live m = live m0"
proof (cases "sz = 0 \<or> \<not> vz")
  case True
  then show ?thesis
    using assms(3) by (auto simp: gcip_domain_pool_init_def Let_def dp_inv_def dp_owned_def dp_held_def split: if_splits)
next
  case False
  obtain ok arr m1 where f: "fill_array K 0 sz (replicate sz None) m0 = (ok, arr, m1)" using prod_cases3 by blast
  have a: "live m1 = live m0 \<union> {d. Some d \<in> set arr}" "live m0 \<inter> {d. Some d \<in> set arr} = {}"
      "ok \<Longrightarrow> distinct arr \<and> None \<notin> set arr \<and> length arr = sz"
    using fill_array_fills[OF assms(2) f, of "live m0"] by (auto simp: set_replicate_conv_if)
  let ?p = "pool0\<lparr>dp_size := sz, dynamic_domains := [], dp_idp := ida_empty K, dp_array := arr\<rparr>"
  have own: "dp_owned ?p = {d. Some d \<in> set arr}" using False by (simp add: dp_owned_def)
  have e: "ids (ida_empty K) = {}" using assms(1) by (simp add: ida_ok_def)
  show ?thesis
  proof (cases ok)
    case True
    then have "ret = 0" "pool = ?p" "m = m1" using assms(3) f False by (auto simp: gcip_domain_pool_init_def Let_def)
    then show ?thesis using a own e True False by (auto simp: dp_inv_def dp_held_def)
  next
    case ok: False
    then have "ret = - ENOMEM" "m = snd (gcip_domain_pool_destroy K ?p m1)"
      using assms(3) f False by (auto simp: gcip_domain_pool_init_def Let_def split: prod.splits)
    then show ?thesis using destroy_releases[OF assms(2), of m1 "live m0" ?p] a own by simp
  qed
qed

text \<open>The life of a pool: set-up, allocations and frees in any order, and its end.\<close>

datatype 'd dp_op = Dp_Alloc bool | Dp_Free 'd

fun dp_run ::
    "('d, 'i, 'm) dp_ext \<Rightarrow> 'd dp_op list \<Rightarrow> ('d, 'i) gcip_domain_pool \<times> 'm \<Rightarrow> ('d, 'i) gcip_domain_pool \<times> 'm" where
  "dp_run K [] pm = pm"
| "dp_run K (Dp_Alloc vz # ops) (pool, m) = dp_run K ops (snd (gcip_domain_pool_alloc K vz pool m))"
| "dp_run K (Dp_Free d # ops) (pool, m) = dp_run K ops (gcip_domain_pool_free K pool d m)"

definition dp_life ::
    "('d, 'i, 'm) dp_ext \<Rightarrow> bool \<Rightarrow> ('d, 'i) gcip_domain_pool \<Rightarrow> nat \<Rightarrow> 'd dp_op list \<Rightarrow> 'm \<Rightarrow> 'm" where
  "dp_life K vz pool0 sz ops m =
    (case gcip_domain_pool_init K vz pool0 sz m of
       (ret, pool, m) \<Rightarrow>
         if ret \<noteq> 0 then m else let (pool, m) = dp_run K ops (pool, m) in snd (gcip_domain_pool_destroy K pool m))"

lemma alloc_inv:
  assumes "ida_ok K ids" "iommu_ok K live" "dp_inv ids live L pool m"
  shows "dp_inv ids live L (fst (snd (gcip_domain_pool_alloc K vz pool m))) (snd (snd (gcip_domain_pool_alloc K vz pool m)))"
  using alloc_keeps[OF assms, of vz] by (metis prod.collapse)

lemma dp_run_inv:
  assumes "ida_ok K ids" "iommu_ok K live"
  shows "dp_inv ids live L (fst pm) (snd pm) \<Longrightarrow> dp_inv ids live L (fst (dp_run K ops pm)) (snd (dp_run K ops pm))"
proof (induction ops arbitrary: pm)
  case (Cons op ops)
  obtain pool m where pm: "pm = (pool, m)" by fastforce
  then have inv: "dp_inv ids live L pool m" using Cons.prems by simp
  show ?case
  proof (cases op)
    case (Dp_Alloc vz)
    then show ?thesis using Cons.IH[of "snd (gcip_domain_pool_alloc K vz pool m)"] alloc_inv[OF assms inv] pm by simp
  next
    case (Dp_Free d)
    obtain p' m' where "gcip_domain_pool_free K pool d m = (p', m')" by fastforce
    then show ?thesis using Cons.IH[of "(p', m')"] domain_free_held[OF assms inv] pm Dp_Free by simp
  qed
qed simp


text \<open>C35: Whatever is allocated and freed in between, and whether or not the set-up succeeds, the domains that
  exist at the end of a pool's life are those that existed before it.
\<close>

theorem domain_pool_no_leak:
  assumes "ida_ok K ids" "iommu_ok K live"
  shows "live (dp_life K vz pool0 sz ops m) = live m"
proof -
  obtain ret pool m1 where i: "gcip_domain_pool_init K vz pool0 sz m = (ret, pool, m1)" using prod_cases3 by blast
  note init = init_outcome[OF assms i]
  show ?thesis
  proof (cases "ret = 0")
    case True
    let ?r = "dp_run K ops (pool, m1)"
    have "dp_inv ids live (live m) (fst ?r) (snd ?r)" using dp_run_inv[OF assms, of "live m" "(pool, m1)"] init True by simp
    then have "live (snd (gcip_domain_pool_destroy K (fst ?r) (snd ?r))) = live m"
      by (intro destroy_releases[OF assms(2)]) (simp_all add: dp_inv_def)
    then show ?thesis using i True by (simp add: dp_life_def case_prod_beta Let_def)
  next
    case False
    then show ?thesis using i init by (simp add: dp_life_def)
  qed
qed

section \<open>Instances\<close>

text \<open>Numbers as a list, the lowest free one first; domains as the natural numbers, ten at most.\<close>

definition demo_dp_ext :: "(nat, nat list, nat list) dp_ext" where
  "demo_dp_ext =
    \<lparr>ida_empty = [],
     ida_alloc_max = (\<lambda>used n. case filter (\<lambda>i. i \<notin> set used) [0..<Suc n] of
         [] \<Rightarrow> (- 28, used) | i # _ \<Rightarrow> (int i, i # used)),
     ida_free = (\<lambda>used i. removeAll i used),
     iommu_domain_alloc = (\<lambda>l. case filter (\<lambda>d. d \<notin> set l) [0..<10] of [] \<Rightarrow> (None, l) | d # _ \<Rightarrow> (Some d, d # l)),
     iommu_domain_free = (\<lambda>d l. removeAll d l)\<rparr>"

lemma filter_ConsD: "filter P xs = y # ys \<Longrightarrow> P y \<and> y \<in> set xs"
  by (auto dest!: filter_eq_ConsD)

lemma demo_ida_ok: "ida_ok demo_dp_ext set"
  by (auto simp: ida_ok_def demo_dp_ext_def split: list.splits dest: filter_ConsD)

lemma demo_iommu_ok: "iommu_ok demo_dp_ext set"
  by (auto simp: iommu_ok_def demo_dp_ext_def split: list.splits dest: filter_ConsD)


theorem domain_pool_no_leak_witness:
  "set (dp_life demo_dp_ext True \<lparr>dp_idp = [], dp_size = 0, dp_array = [], dynamic_domains = []\<rparr> 3
     [Dp_Alloc True, Dp_Alloc True, Dp_Free 7, Dp_Alloc True] [6, 2]) = {2, 6}"
  using domain_pool_no_leak[OF demo_ida_ok demo_iommu_ok] by auto

end
