(* ===== verification/Thermal.thy ===== *)
theory Thermal
  imports Gcip_Pm_Laws
begin

text \<open>
  Thermal throttling of a GCIP device (gcip-thermal.c, gcip-thermal.h): three voters ask for a cooling state, the highest
  one is in effect, and its clock rate is sent to the device if that is powered. The power interface is the
  one of \<open>Gcip_Pm\<close>; the callbacks that get and set the rate and switch the control act on the same device data.

  \<open>gcip_pm_get_if_powered\<close> is called without blocking: \<open>seen\<close> is the counter it reads first and \<open>free\<close> whether
  it gets the lock (see \<open>Gcip_Pm\<close>). Numbers of states are \<open>unsigned long\<close>. The table of states is
  a global of the file and a field here. The thermal framework and the device tree belong to the kernel;
  what they answer is an argument.
\<close>

section \<open>State\<close>

definition GCIP_THERMAL_MAX_NUM_STATES :: nat where "GCIP_THERMAL_MAX_NUM_STATES = 16"
definition OF_DATA_NUM_MAX :: nat where "OF_DATA_NUM_MAX = GCIP_THERMAL_MAX_NUM_STATES * 2"

abbreviation (input) GCIP_THERMAL_COOLING_DEVICE :: nat where "GCIP_THERMAL_COOLING_DEVICE \<equiv> 0"
abbreviation (input) GCIP_THERMAL_SYSFS :: nat where "GCIP_THERMAL_SYSFS \<equiv> 1"
abbreviation (input) GCIP_THERMAL_NOTIFIER_BLOCK :: nat where "GCIP_THERMAL_NOTIFIER_BLOCK \<equiv> 2"

record gcip_rate_pwr =
  rp_rate :: u64
  rp_power :: u32

record 'w gcip_thermal =
  th_pm :: "'w gcip_pm"
  num_states :: u64
  th_state :: u64
  th_vote :: "u64 list"
  device_suspended :: bool
  th_enabled :: bool
  th_get_rate :: "'w \<Rightarrow> int \<times> u64 \<times> 'w"
  th_set_rate :: "u64 \<Rightarrow> 'w \<Rightarrow> int \<times> 'w"
  th_control :: "bool \<Rightarrow> 'w \<Rightarrow> int \<times> 'w"
  state_map :: "gcip_rate_pwr list"
  cdev_registered :: int \<comment> \<open>registrations minus unregistrations of the cooling device\<close>

record 'w gcip_thermal_args =
  ta_dev :: bool
  ta_pm :: "'w gcip_pm"
  ta_get_rate :: "('w \<Rightarrow> int \<times> u64 \<times> 'w) option"
  ta_set_rate :: "(u64 \<Rightarrow> 'w \<Rightarrow> int \<times> 'w) option"
  ta_control :: "(bool \<Rightarrow> 'w \<Rightarrow> int \<times> 'w) option"

text \<open>A callback on the device's data.\<close>

definition call_dev :: "('w \<Rightarrow> int \<times> 'w) \<Rightarrow> 'w gcip_thermal \<Rightarrow> int \<times> 'w gcip_thermal" where
  "call_dev f th =
    (let (ret, w) = f (pm_data (th_pm th)) in (ret, th\<lparr>th_pm := (th_pm th)\<lparr>pm_data := w\<rparr>\<rparr>))"

text \<open>Whether the power is held now, and the object.\<close>

definition get_pm :: "int \<Rightarrow> bool \<Rightarrow> 'w gcip_thermal \<Rightarrow> bool \<times> 'w gcip_thermal" where
  "get_pm seen free th =
    (let (ret, pm) = gcip_pm_get_if_powered seen free (th_pm th) False in (ret = 0, th\<lparr>th_pm := pm\<rparr>))"

definition put_pm :: "'w gcip_thermal \<Rightarrow> 'w gcip_thermal" where
  "put_pm th = th\<lparr>th_pm := gcip_pm_put_async (th_pm th)\<rparr>"

section \<open>The cooling device\<close>

definition gcip_thermal_get_max_state :: "'w gcip_thermal \<Rightarrow> int + u64" where
  "gcip_thermal_get_max_state th = (if num_states th = 0 then Inl (- ENODEV) else Inr (num_states th - 1))"

definition gcip_thermal_get_cur_state :: "'w gcip_thermal \<Rightarrow> u64" where
  "gcip_thermal_get_cur_state th = th_state th"

definition max_vote :: "u64 \<Rightarrow> u64 list \<Rightarrow> u64" where
  "max_vote st votes = fold (\<lambda>v st. max st v) votes st"

definition rate_of_state :: "'w gcip_thermal \<Rightarrow> u64 \<Rightarrow> u64" where
  "rate_of_state th st = rp_rate (state_map th ! unat st)"

definition gcip_thermal_set_cur_state ::
    "int \<Rightarrow> bool \<Rightarrow> 'w gcip_thermal \<Rightarrow> u64 \<Rightarrow> int \<times> 'w gcip_thermal" where
  "gcip_thermal_set_cur_state seen free th state =
    (if state \<ge> num_states th then (- EINVAL, th)
     else
       let th = th\<lparr>th_vote := (th_vote th)[GCIP_THERMAL_COOLING_DEVICE := state]\<rparr>;
           state = max_vote state (th_vote th)
       in if state = th_state th then (0, th)
          else
            let (got_pm, th) = get_pm seen free th;
                (ret, th) = (if got_pm then call_dev (th_set_rate th (rate_of_state th state)) th else (0, th));
                th = (if ret \<noteq> 0 then th else th\<lparr>th_state := state\<rparr>)
            in (ret, if got_pm then put_pm th else th))"

text \<open>The result and the power: the first state among those given with that rate.\<close>

fun rate2power :: "gcip_rate_pwr list \<Rightarrow> u64 \<Rightarrow> int \<times> u32" where
  "rate2power [] rate = (- EINVAL, 0)"
| "rate2power (s # ss) rate = (if rate = rp_rate s then (0, rp_power s) else rate2power ss rate)"

definition gcip_thermal_rate2power_internal :: "'w gcip_thermal \<Rightarrow> u64 \<Rightarrow> int \<times> u32" where
  "gcip_thermal_rate2power_internal th rate = rate2power (take (unat (num_states th)) (state_map th)) rate"

text \<open>The result, the power where it is written, and the object.\<close>

definition gcip_thermal_get_requested_power ::
    "int \<Rightarrow> bool \<Rightarrow> 'w gcip_thermal \<Rightarrow> int \<times> u32 option \<times> 'w gcip_thermal" where
  "gcip_thermal_get_requested_power seen free th =
    (let (got_pm, th) = get_pm seen free th in
     if \<not> got_pm then (0, Some 0, th)
     else
       let (ret, rate, w) = th_get_rate th (pm_data (th_pm th));
           th = put_pm (th\<lparr>th_pm := (th_pm th)\<lparr>pm_data := w\<rparr>\<rparr>)
       in if ret \<noteq> 0 then (ret, None, th)
          else let (ret, pw) = gcip_thermal_rate2power_internal th rate in (ret, Some pw, th))"

definition gcip_thermal_state2power :: "'w gcip_thermal \<Rightarrow> u64 \<Rightarrow> int \<times> u32 option" where
  "gcip_thermal_state2power th state =
    (if state \<ge> num_states th then (- EINVAL, None)
     else let (ret, pw) = gcip_thermal_rate2power_internal th (rate_of_state th state) in (ret, Some pw))"

text \<open>The first state from \<open>i\<close> on that fits.\<close>

fun first_state :: "(gcip_rate_pwr \<Rightarrow> bool) \<Rightarrow> gcip_rate_pwr list \<Rightarrow> nat \<Rightarrow> nat option" where
  "first_state P [] i = None"
| "first_state P (s # ss) i = (if P s then Some i else first_state P ss (Suc i))"

definition gcip_thermal_power2state :: "'w gcip_thermal \<Rightarrow> u32 \<Rightarrow> int + u64" where
  "gcip_thermal_power2state th pw =
    (if num_states th = 0 then Inl (- ENODEV)
     else
       (case first_state (\<lambda>s. pw \<ge> rp_power s) (take (unat (num_states th)) (state_map th)) 0 of
          Some i \<Rightarrow> Inr (of_nat i)
        | None \<Rightarrow> Inr (num_states th - 1)))"

text \<open>
  The framework's update asks the cooling device for the highest state that its zones want, \<open>target\<close>; the result is
  not looked at.
\<close>

definition gcip_thermal_update :: "u64 \<Rightarrow> int \<Rightarrow> bool \<Rightarrow> 'w gcip_thermal \<Rightarrow> 'w gcip_thermal" where
  "gcip_thermal_update target seen free th = snd (gcip_thermal_set_cur_state seen free th target)"

text \<open>The other two voters. \<open>parsed\<close> is the outcome of \<open>kstrtoul\<close> on the text of \<open>cnt\<close> bytes.\<close>

definition user_vote_show :: "'w gcip_thermal option \<Rightarrow> int + u64" where
  "user_vote_show th = (case th of None \<Rightarrow> Inl (- ENODEV) | Some th \<Rightarrow> Inr (th_vote th ! GCIP_THERMAL_SYSFS))"

definition user_vote_store ::
    "u64 \<Rightarrow> int \<Rightarrow> bool \<Rightarrow> 'w gcip_thermal \<Rightarrow> (int + u64) \<Rightarrow> int \<Rightarrow> int \<times> 'w gcip_thermal" where
  "user_vote_store target seen free th parsed cnt =
    (case parsed of
       Inl ret \<Rightarrow> (ret, th)
     | Inr state \<Rightarrow>
         if state \<ge> num_states th then (- EINVAL, th)
         else
           let th = th\<lparr>th_vote := (th_vote th)[GCIP_THERMAL_SYSFS := state]\<rparr> in
           (cnt, gcip_thermal_update target seen free th))"

definition gcip_thermal_rate2state :: "'w gcip_thermal \<Rightarrow> u64 \<Rightarrow> u64" where
  "gcip_thermal_rate2state th rate =
    (case first_state (\<lambda>s. rp_rate s \<le> rate) (take (unat (num_states th)) (state_map th)) 0 of
       Some i \<Rightarrow> of_nat i
     | None \<Rightarrow> scast (ucast (num_states th - 1) :: u32))"

definition gcip_thermal_notifier ::
    "u64 \<Rightarrow> int \<Rightarrow> bool \<Rightarrow> 'w gcip_thermal \<Rightarrow> u64 \<Rightarrow> 'w gcip_thermal" where
  "gcip_thermal_notifier target seen free th rate =
    (let state = gcip_thermal_rate2state th rate;
         th = th\<lparr>th_vote := (th_vote th)[GCIP_THERMAL_NOTIFIER_BLOCK := state]\<rparr>
     in gcip_thermal_update target seen free th)"

section \<open>Enabling, suspension, restoration\<close>

definition gcip_thermal_enable_get :: "'w gcip_thermal \<Rightarrow> u64" where
  "gcip_thermal_enable_get th = of_bool (th_enabled th)"

definition gcip_thermal_enable_set ::
    "int \<Rightarrow> bool \<Rightarrow> 'w gcip_thermal \<Rightarrow> u64 \<Rightarrow> int \<times> 'w gcip_thermal" where
  "gcip_thermal_enable_set seen free th val =
    (if th_enabled th \<noteq> (val \<noteq> 0) then
       let (got_pm, th) = get_pm seen free th;
           (ret, th) = (if got_pm then call_dev (th_control th (val \<noteq> 0)) th else (0, th));
           th = (if ret = 0 then th\<lparr>th_enabled := val \<noteq> 0\<rparr> else th)
       in (ret, if got_pm then put_pm th else th)
     else (0, th))"

text \<open>The next functions do nothing for a null or failed object, which is \<open>None\<close>.\<close>

definition gcip_thermal_suspend_device ::
    "int \<Rightarrow> bool \<Rightarrow> 'w gcip_thermal option \<Rightarrow> int \<times> 'w gcip_thermal option" where
  "gcip_thermal_suspend_device seen free tho =
    (case tho of
       None \<Rightarrow> (0, None)
     | Some th \<Rightarrow>
         let th = th\<lparr>device_suspended := True\<rparr>;
             (got_pm, th) = get_pm seen free th;
             (ret, th) = (if got_pm then call_dev (th_set_rate th 0) th else (0, th))
         in (ret, Some (if got_pm then put_pm th else th)))"

definition gcip_thermal_resume_device ::
    "int \<Rightarrow> bool \<Rightarrow> 'w gcip_thermal option \<Rightarrow> int \<times> 'w gcip_thermal option" where
  "gcip_thermal_resume_device seen free tho =
    (case tho of
       None \<Rightarrow> (0, None)
     | Some th \<Rightarrow>
         let (got_pm, th) = get_pm seen free th;
             (ret, th) = (if got_pm then call_dev (th_set_rate th (rate_of_state th (th_state th))) th else (0, th));
             th = (if ret = 0 then th\<lparr>device_suspended := False\<rparr> else th)
         in (ret, Some (if got_pm then put_pm th else th)))"

definition gcip_thermal_is_device_suspended :: "'w gcip_thermal option \<Rightarrow> bool" where
  "gcip_thermal_is_device_suspended tho = (case tho of None \<Rightarrow> False | Some th \<Rightarrow> device_suspended th)"

definition gcip_thermal_restore_on_powering :: "'w gcip_thermal option \<Rightarrow> int \<times> 'w gcip_thermal option" where
  "gcip_thermal_restore_on_powering tho =
    (case tho of
       None \<Rightarrow> (0, None)
     | Some th \<Rightarrow>
         let (ret, th) =
           (if \<not> th_enabled th then call_dev (th_control th (th_enabled th)) th
            else if device_suspended th then call_dev (th_set_rate th 0) th
            else if th_state th \<noteq> 0 then call_dev (th_set_rate th (rate_of_state th (th_state th))) th
            else (0, th))
         in (ret, Some th))"

section \<open>Creation\<close>

text \<open>
  The table of the device tree. \<open>dims\<close> and \<open>dt_table n\<close> are what \<open>of_property_read_u32_array\<close> gives for the two
  properties; \<open>stack\<close> is what the array on the stack holds at first. Products are of type \<open>int\<close> and wrap.
\<close>

definition fill_state_map :: "nat \<Rightarrow> (nat \<Rightarrow> int) \<Rightarrow> u32 list \<Rightarrow> gcip_rate_pwr list \<Rightarrow> gcip_rate_pwr list option" where
  "fill_state_map rows idx arr smap =
    (if list_ex (\<lambda>i. idx i < 0 \<or> idx i + 1 \<ge> int (length arr)) [0..<rows] then None
     else Some (fold (\<lambda>i m. m[i := \<lparr>rp_rate = scast (arr ! nat (idx i)), rp_power = arr ! nat (idx i + 1)\<rparr>]) [0..<rows] smap))"

definition gcip_thermal_parse_dvfs_table ::
    "u32 list \<Rightarrow> (u32 \<times> u32) option \<Rightarrow> (int \<Rightarrow> u32 list option) \<Rightarrow> 'w gcip_thermal \<Rightarrow>
      (int \<times> 'w gcip_thermal) option" where
  "gcip_thermal_parse_dvfs_table stack dims dt_table th =
    (case dims of
       None \<Rightarrow> Some (- EINVAL, th)
     | Some (row_size, col_size) \<Rightarrow>
         let tbl_size = sint (row_size * col_size) in
         if sint row_size > int GCIP_THERMAL_MAX_NUM_STATES then Some (- EINVAL, th)
         else if tbl_size > int OF_DATA_NUM_MAX then Some (- EINVAL, th)
         else
           (case dt_table tbl_size of
              None \<Rightarrow> Some (- EINVAL, th)
            | Some tbl \<Rightarrow>
                let arr = tbl @ drop (length tbl) (row_size # col_size # drop 2 stack);
                    th = th\<lparr>num_states := scast row_size\<rparr>
                in map_option (\<lambda>m. (0, th\<lparr>state_map := m\<rparr>))
                     (fill_state_map (nat (sint row_size)) (\<lambda>i. sint (col_size * of_nat i)) arr (state_map th))))"

text \<open>\<open>reg\<close>, \<open>file1\<close> and \<open>file2\<close> are the results of registering and of creating the two files.\<close>

definition gcip_thermal_cooling_register ::
    "u32 list \<Rightarrow> (u32 \<times> u32) option \<Rightarrow> (int \<Rightarrow> u32 list option) \<Rightarrow> int \<Rightarrow> int \<Rightarrow> int \<Rightarrow> 'w gcip_thermal \<Rightarrow>
      (int \<times> 'w gcip_thermal) option" where
  "gcip_thermal_cooling_register stack dims dt_table reg file1 file2 th =
    (case gcip_thermal_parse_dvfs_table stack dims dt_table th of
       None \<Rightarrow> None
     | Some (ret, th) \<Rightarrow>
         if ret \<noteq> 0 then Some (ret, th)
         else if reg \<noteq> 0 then Some (reg, th)
         else
           let th = th\<lparr>cdev_registered := cdev_registered th + 1\<rparr>;
               th = (if file1 \<noteq> 0 then th\<lparr>cdev_registered := cdev_registered th - 1\<rparr> else th);
               th = (if file2 \<noteq> 0 then th\<lparr>cdev_registered := cdev_registered th - 1\<rparr> else th)
           in Some (file2, th))"

definition gcip_thermal_create ::
    "u32 list \<Rightarrow> (u32 \<times> u32) option \<Rightarrow> (int \<Rightarrow> u32 list option) \<Rightarrow> int \<Rightarrow> int \<Rightarrow> int \<Rightarrow> bool \<Rightarrow> gcip_rate_pwr list \<Rightarrow>
      'w gcip_thermal_args \<Rightarrow> (int + 'w gcip_thermal) option" where
  "gcip_thermal_create stack dims dt_table reg file1 file2 kz smap args =
    (case (ta_get_rate args, ta_set_rate args, ta_control args) of
       (Some get_rate, Some set_rate, Some control) \<Rightarrow>
         if \<not> ta_dev args then Some (Inl (- EINVAL))
         else if \<not> kz then Some (Inl (- ENOMEM))
         else
           let th = \<lparr>th_pm = ta_pm args, num_states = 0, th_state = 0, th_vote = replicate 3 0, device_suspended = False,
                     th_enabled = True, th_get_rate = get_rate, th_set_rate = set_rate, th_control = control,
                     state_map = smap, cdev_registered = 0\<rparr>
           in (case gcip_thermal_cooling_register stack dims dt_table reg file1 file2 th of
                 None \<Rightarrow> None
               | Some (ret, th) \<Rightarrow> Some (if ret \<noteq> 0 then Inl ret else Inr th))
     | _ \<Rightarrow> Some (Inl (- EINVAL)))"

definition gcip_thermal_destroy :: "'w gcip_thermal option \<Rightarrow> 'w gcip_thermal option" where
  "gcip_thermal_destroy tho = map_option (\<lambda>th. th\<lparr>cdev_registered := cdev_registered th - 1\<rparr>) tho"

end
