(* ===== verification/Thermal_Laws.thy ===== *)
theory Thermal_Laws
  imports Thermal
begin

text \<open>
  Laws of thermal throttling: what a cooling request does, that all states stay inside the table over any sequence of
  calls, and what happens when the power interface is busy.
\<close>

section \<open>Requests\<close>

lemma max_vote_ge: "st \<le> max_vote st vs" "v \<in> set vs \<Longrightarrow> v \<le> max_vote st vs"
  unfolding max_vote_def
proof -
  have mono: "st \<le> fold (\<lambda>v st. max st v) vs st" for st :: u64 and vs
  proof (induction vs arbitrary: st)
    case (Cons a vs)
    have "st \<le> max st a" by simp
    also have "\<dots> \<le> fold (\<lambda>v st. max st v) vs (max st a)" by (rule Cons.IH)
    finally show ?case by simp
  qed simp
  then show "st \<le> fold (\<lambda>v st. max st v) vs st" .
  show "v \<in> set vs \<Longrightarrow> v \<le> fold (\<lambda>v st. max st v) vs st"
  proof (induction vs arbitrary: st)
    case (Cons a vs)
    show ?case
    proof (cases "v = a")
      case True
      then show ?thesis using mono[of "max st a" vs] by simp
    next
      case False
      then show ?thesis using Cons by simp
    qed
  qed simp
qed

lemma max_vote_in: "max_vote st vs \<in> insert st (set vs)"
  unfolding max_vote_def
proof (induction vs arbitrary: st)
  case (Cons a vs)
  then show ?case using Cons.IH[of "max st a"] by (auto simp: max_def split: if_splits)
qed simp

lemma max_vote_Max: "st \<in> set vs \<Longrightarrow> max_vote st vs = Max (set vs)"
  using max_vote_ge(2)[of _ vs st] max_vote_in[of st vs] by (intro Max_eqI[symmetric]) auto

text \<open>A device that is on, with the lock of its power interface free, is got hold of.\<close>

lemma get_pm_on:
  assumes "count (th_pm th) > 0" "seen \<noteq> 0"
  shows "get_pm seen True th = (True, th\<lparr>th_pm := (th_pm th)\<lparr>count := count (th_pm th) + 1\<rparr>\<rparr>)"
  using assms by (simp add: get_pm_def gcip_pm_get_if_powered_def gcip_pm_get_locked_def)

lemma get_pm_busy: "get_pm seen False th = (False, th)"
  by (simp add: get_pm_def gcip_pm_get_if_powered_def)

lemma get_pm_off: "count (th_pm th) = 0 \<Longrightarrow> get_pm seen free th = (False, th)"
  by (simp add: get_pm_def gcip_pm_get_if_powered_def)


section \<open>States stay inside the table\<close>

definition thermal_inv :: "'w gcip_thermal \<Rightarrow> bool" where
  "thermal_inv th \<longleftrightarrow>
    0 < num_states th \<and> unat (num_states th) \<le> GCIP_THERMAL_MAX_NUM_STATES \<and>
    length (state_map th) = GCIP_THERMAL_MAX_NUM_STATES \<and>
    length (th_vote th) = 3 \<and> (\<forall>v \<in> set (th_vote th). v < num_states th) \<and> th_state th < num_states th"

text \<open>The steps of the voters and of the rest of the driver, with any answers of the kernel and the device.\<close>

inductive thermal_step :: "'w gcip_thermal \<Rightarrow> 'w gcip_thermal \<Rightarrow> bool" where
  cooling: "thermal_step th (snd (gcip_thermal_set_cur_state seen free th st))"
| user: "thermal_step th (snd (user_vote_store target seen free th parsed cnt))"
| notifier: "thermal_step th (gcip_thermal_notifier target seen free th rate)"
| power: "thermal_step th (snd (snd (gcip_thermal_get_requested_power seen free th)))"
| enable: "thermal_step th (snd (gcip_thermal_enable_set seen free th val))"
| suspend: "gcip_thermal_suspend_device seen free (Some th) = (ret, Some th') \<Longrightarrow> thermal_step th th'"
| resume: "gcip_thermal_resume_device seen free (Some th) = (ret, Some th') \<Longrightarrow> thermal_step th th'"
| restore: "gcip_thermal_restore_on_powering (Some th) = (ret, Some th') \<Longrightarrow> thermal_step th th'"
| pm: "thermal_step th (th\<lparr>th_pm := pm\<rparr>)"

text \<open>What no function changes, and what only votes change.\<close>

definition same_table :: "'w gcip_thermal \<Rightarrow> 'w gcip_thermal \<Rightarrow> bool" where
  "same_table th th' \<longleftrightarrow> num_states th' = num_states th \<and> state_map th' = state_map th \<and>
    th_vote th' = th_vote th \<and> th_state th' = th_state th"

lemma same_table_inv: "same_table th th' \<Longrightarrow> thermal_inv th \<Longrightarrow> thermal_inv th'"
  by (simp add: same_table_def thermal_inv_def)

lemma same_table_trans: "same_table a b \<Longrightarrow> same_table b c \<Longrightarrow> same_table a c"
  by (simp add: same_table_def)

lemma same_table_simps [simp]:
  "same_table th th"
  "same_table th (th\<lparr>th_pm := pm\<rparr>)"
  "same_table th (th\<lparr>device_suspended := b\<rparr>)"
  "same_table th (th\<lparr>th_enabled := b\<rparr>)"
  "same_table th (put_pm th)"
  "same_table th (snd (get_pm seen free th))"
  "same_table th (snd (call_dev f th))"
  by (simp_all add: same_table_def put_pm_def get_pm_def call_dev_def case_prod_beta Let_def)

lemma thermal_inv_vote:
  "thermal_inv th \<Longrightarrow> v < num_states th \<Longrightarrow> thermal_inv (th\<lparr>th_vote := (th_vote th)[i := v]\<rparr>)"
  by (auto simp: thermal_inv_def dest: set_update_subset_insert[THEN subsetD])

lemma thermal_inv_state: "thermal_inv th \<Longrightarrow> v < num_states th \<Longrightarrow> thermal_inv (th\<lparr>th_state := v\<rparr>)"
  by (simp add: thermal_inv_def)

lemma set_cur_state_inv:
  assumes "thermal_inv th"
  shows "thermal_inv (snd (gcip_thermal_set_cur_state seen free th st))"
proof (cases "num_states th \<le> st")
  case False
  let ?t = "th\<lparr>th_vote := (th_vote th)[0 := st]\<rparr>"
  let ?m = "max_vote st (th_vote ?t)"
  have t: "thermal_inv ?t" using assms False by (intro thermal_inv_vote) simp_all
  have "?m \<in> insert st (set (th_vote ?t))" by (rule max_vote_in)
  then have m: "?m < num_states th" using t False by (auto simp: thermal_inv_def)
  define g where "g = get_pm seen free ?t"
  define r where "r = (if fst g then call_dev (th_set_rate (snd g) (rate_of_state (snd g) ?m)) (snd g) else (0, snd g))"
  have same: "same_table ?t (snd r)"
    unfolding r_def g_def by (simp add: same_table_trans[OF same_table_simps(6) same_table_simps(7)])
  have inv: "thermal_inv (snd r)" "num_states (snd r) = num_states th"
    using same_table_inv[OF same t] same by (simp_all add: same_table_def)
  then have put: "thermal_inv (put_pm x)" if "x = snd r \<or> x = (snd r)\<lparr>th_state := ?m\<rparr>" for x
    using that m same_table_inv[OF same_table_simps(5)] thermal_inv_state[of "snd r" ?m] by metis
  have new: "thermal_inv ((snd r)\<lparr>th_state := ?m\<rparr>)" using inv m thermal_inv_state by metis
  have "snd (gcip_thermal_set_cur_state seen free th st) =
      (if ?m = th_state th then ?t
       else let t = (if fst r \<noteq> 0 then snd r else (snd r)\<lparr>th_state := ?m\<rparr>) in if fst g then put_pm t else t)"
    using False by (simp add: gcip_thermal_set_cur_state_def Let_def case_prod_beta g_def r_def)
  then show ?thesis using t inv(1) new put by (simp add: Let_def)
qed (use assms in \<open>simp add: gcip_thermal_set_cur_state_def\<close>)

lemma first_state_bound: "first_state P ss i = Some j \<Longrightarrow> j < i + length ss"
proof (induction ss arbitrary: i)
  case (Cons s ss)
  then show ?case using Cons.IH[of "Suc i"] by (simp split: if_splits)
qed simp

lemma rate2state_bound:
  assumes "thermal_inv th"
  shows "gcip_thermal_rate2state th rate < num_states th"
proof (cases "first_state (\<lambda>s. rp_rate s \<le> rate) (take (unat (num_states th)) (state_map th)) 0")
  case (Some j)
  then have "j < unat (num_states th)" using first_state_bound[OF Some] by simp
  moreover have "unat (num_states th) \<le> 16" using assms by (simp add: thermal_inv_def GCIP_THERMAL_MAX_NUM_STATES_def)
  ultimately have "unat (of_nat j :: u64) < unat (num_states th)" by (simp add: unat_of_nat_lt)
  then show ?thesis using Some by (simp add: gcip_thermal_rate2state_def word_less_nat_alt)
next
  case None
  have n: "0 < unat (num_states th)" "unat (num_states th) \<le> 16"
    using assms by (simp_all add: thermal_inv_def GCIP_THERMAL_MAX_NUM_STATES_def word_less_nat_alt)
  then have u: "unat (num_states th - 1) = unat (num_states th) - 1" by (simp add: unat_minus_one unat_gt_0)
  have "num_states th - 1 = of_nat (unat (num_states th) - 1)" by (metis u of_nat_unat ucast_id)
  moreover have "(scast (ucast (of_nat k :: u64) :: u32) :: u64) = of_nat k" if "k \<le> 15" for k
    using that by (simp add: unsigned_of_nat signed_of_nat take_bit_nat_eq_self signed_take_bit_int_eq_self)
  moreover have "unat (num_states th) - 1 \<le> 15" using n by linarith
  ultimately have "(scast (ucast (num_states th - 1) :: u32) :: u64) = num_states th - 1" by simp
  then show ?thesis
    using None n by (simp add: gcip_thermal_rate2state_def word_less_nat_alt u)
qed

lemma update_inv: "thermal_inv th \<Longrightarrow> thermal_inv (gcip_thermal_update target seen free th)"
  by (simp add: gcip_thermal_update_def set_cur_state_inv)

lemma same_table_call_get: "same_table th (snd (call_dev f (snd (get_pm seen free th))))"
  by (rule same_table_trans[OF same_table_simps(6) same_table_simps(7)])

lemma same_table_put: "same_table th th' \<Longrightarrow> same_table th (put_pm th')"
  by (rule same_table_trans[OF _ same_table_simps(5)])

lemma requested_power_same: "same_table th (snd (snd (gcip_thermal_get_requested_power seen free th)))"
proof -
  have "same_table th (put_pm ((snd (get_pm seen free th))\<lparr>th_pm := pm\<rparr>))" for pm
    by (intro same_table_put same_table_trans[OF same_table_simps(6) same_table_simps(2)])
  then show ?thesis by (simp add: gcip_thermal_get_requested_power_def Let_def case_prod_beta)
qed

lemma enable_set_same: "same_table th (snd (gcip_thermal_enable_set seen free th val))"
proof -
  have "same_table th (t\<lparr>th_enabled := b\<rparr>)" if "same_table th t" for t b
    using that by (rule same_table_trans) simp
  then show ?thesis
    by (simp add: gcip_thermal_enable_set_def Let_def case_prod_beta same_table_put same_table_call_get)
qed

lemma suspend_same: "gcip_thermal_suspend_device seen free (Some th) = (ret, Some th') \<Longrightarrow> same_table th th'"
proof -
  let ?t = "th\<lparr>device_suspended := True\<rparr>"
  have "same_table th (snd (get_pm seen free ?t))" "same_table th (snd (call_dev f (snd (get_pm seen free ?t))))" for f
    using same_table_trans[OF same_table_simps(3)] same_table_simps(6) same_table_call_get by blast+
  then show "gcip_thermal_suspend_device seen free (Some th) = (ret, Some th') \<Longrightarrow> same_table th th'"
    by (auto simp: gcip_thermal_suspend_device_def Let_def case_prod_beta same_table_put)
qed

lemma resume_same: "gcip_thermal_resume_device seen free (Some th) = (ret, Some th') \<Longrightarrow> same_table th th'"
proof -
  have "same_table th (t\<lparr>device_suspended := False\<rparr>)" if "same_table th t" for t
    using that by (rule same_table_trans) simp
  then show "gcip_thermal_resume_device seen free (Some th) = (ret, Some th') \<Longrightarrow> same_table th th'"
    by (auto simp: gcip_thermal_resume_device_def Let_def case_prod_beta same_table_put same_table_call_get)
qed

lemma restore_same: "gcip_thermal_restore_on_powering (Some th) = (ret, Some th') \<Longrightarrow> same_table th th'"
  by (auto simp: gcip_thermal_restore_on_powering_def case_prod_beta Let_def)

lemma thermal_step_inv: "thermal_step th th' \<Longrightarrow> thermal_inv th \<Longrightarrow> thermal_inv th'"
proof (induction rule: thermal_step.induct)
  case (user th target seen free parsed cnt)
  then show ?case
    by (auto simp: user_vote_store_def Let_def intro!: update_inv thermal_inv_vote split: sum.splits)
next
  case (notifier th target seen free rate)
  then show ?case
    by (simp add: gcip_thermal_notifier_def Let_def update_inv thermal_inv_vote rate2state_bound)
next
  case (pm th pm)
  then show ?case by (rule same_table_inv[OF same_table_simps(2)])
qed (blast intro: set_cur_state_inv same_table_inv requested_power_same enable_set_same
    same_table_inv[OF suspend_same] same_table_inv[OF resume_same] same_table_inv[OF restore_same])+

lemma fill_state_map_length: "fill_state_map rows idx arr m = Some m' \<Longrightarrow> length m' = length m"
proof -
  have "length (fold (\<lambda>i m. m[i := f i]) xs m) = length m" for xs and f :: "nat \<Rightarrow> gcip_rate_pwr"
    by (induction xs arbitrary: m) simp_all
  then show "fill_state_map rows idx arr m = Some m' \<Longrightarrow> length m' = length m"
    by (auto simp: fill_state_map_def split: if_splits)
qed

lemma create_registered:
  assumes "gcip_thermal_create stack dims dt reg file1 file2 kz smap args = Some (Inr th)"
  shows "\<exists>th0. gcip_thermal_cooling_register stack dims dt reg file1 file2 th0 = Some (0, th) \<and>
    th_vote th0 = replicate 3 0 \<and> th_state th0 = 0 \<and> state_map th0 = smap"
proof -
  obtain g s c where a: "ta_get_rate args = Some g" "ta_set_rate args = Some s" "ta_control args = Some c"
    using assms by (auto simp: gcip_thermal_create_def split: option.splits)
  let ?th = "\<lparr>th_pm = ta_pm args, num_states = 0, th_state = 0, th_vote = replicate 3 0, device_suspended = False,
     th_enabled = True, th_get_rate = g, th_set_rate = s, th_control = c, state_map = smap, cdev_registered = 0\<rparr>"
  have "gcip_thermal_cooling_register stack dims dt reg file1 file2 ?th = Some (0, th)"
    using assms by (simp add: gcip_thermal_create_def a split: option.splits if_splits prod.splits)
  then show ?thesis by (intro exI[of _ ?th]) simp
qed

lemma register_parsed:
  assumes "gcip_thermal_cooling_register stack dims dt reg file1 file2 th0 = Some (0, th)"
  shows "\<exists>th1. gcip_thermal_parse_dvfs_table stack dims dt th0 = Some (0, th1) \<and> same_table th1 th"
proof (cases "gcip_thermal_parse_dvfs_table stack dims dt th0")
  case (Some p)
  then show ?thesis
    using assms by (cases p) (auto simp: gcip_thermal_cooling_register_def same_table_def Let_def split: if_splits)
qed (use assms in \<open>simp add: gcip_thermal_cooling_register_def\<close>)

lemma parse_facts:
  assumes "gcip_thermal_parse_dvfs_table stack (Some (rows, cols)) dt th0 = Some (0, th1)"
  shows "sint rows \<le> 16" "num_states th1 = scast rows" "length (state_map th1) = length (state_map th0)"
    "th_vote th1 = th_vote th0" "th_state th1 = th_state th0"
proof -
  obtain m arr idx where "sint rows \<le> 16" "fill_state_map (nat (sint rows)) idx arr (state_map th0) = Some m"
      "th1 = th0\<lparr>num_states := scast rows, state_map := m\<rparr>"
    using assms by (auto simp: gcip_thermal_parse_dvfs_table_def GCIP_THERMAL_MAX_NUM_STATES_def Let_def
        split: option.splits if_splits)
  then show "sint rows \<le> 16" "num_states th1 = scast rows" "length (state_map th1) = length (state_map th0)"
      "th_vote th1 = th_vote th0" "th_state th1 = th_state th0"
    using fill_state_map_length by auto
qed

lemma unat_scast_pos:
  assumes "0 \<le> sint (w :: u32)"
  shows "unat (scast w :: u64) = nat (sint w)"
proof -
  have "sint w < 2 ^ 31" using sint_lt[of w] by simp
  then have "take_bit 64 (sint w) = sint w" using assms by (simp add: take_bit_int_eq_self)
  moreover have "uint (scast w :: u64) = take_bit 64 (sint w)" by transfer simp
  ultimately show ?thesis by (simp add: unat_eq_nat_uint)
qed

lemma create_inv:
  assumes "gcip_thermal_create stack (Some (rows, cols)) dt reg file1 file2 kz smap args = Some (Inr th)"
    and "0 < sint rows" "length smap = GCIP_THERMAL_MAX_NUM_STATES"
  shows "thermal_inv th"
proof -
  obtain th0 th1 where p: "gcip_thermal_parse_dvfs_table stack (Some (rows, cols)) dt th0 = Some (0, th1)"
    and th0: "th_vote th0 = replicate 3 0" "th_state th0 = 0" "state_map th0 = smap" and th: "same_table th1 th"
    using create_registered[OF assms(1)] register_parsed by blast
  note r = parse_facts[OF p]
  have n: "unat (num_states th1) = nat (sint rows)" using unat_scast_pos[of rows] assms(2) r(2) by simp
  then have "0 < num_states th1" "unat (num_states th1) \<le> 16"
    using assms(2) r(1) by (simp_all add: word_less_nat_alt)
  then have "thermal_inv th1" using r th0 assms(3) by (simp add: thermal_inv_def GCIP_THERMAL_MAX_NUM_STATES_def)
  then show ?thesis by (rule same_table_inv[OF th])
qed

text \<open>C37: From a successful creation with a table of at least one state, over any sequence of requests,
  user votes, notifications, power queries, suspensions, resumptions, restorations and power changes, whatever the device, the
  framework and the power interface answer, the state in effect and all votes are states of the table.
\<close>

theorem thermal_states_in_table:
  assumes "gcip_thermal_create stack (Some (rows, cols)) dt reg file1 file2 kz smap args = Some (Inr th)"
    and "0 < sint rows" "length smap = GCIP_THERMAL_MAX_NUM_STATES" and "thermal_step\<^sup>*\<^sup>* th th'"
  shows "th_state th' < num_states th' \<and> (\<forall>v \<in> set (th_vote th'). v < num_states th') \<and>
    unat (num_states th') \<le> length (state_map th')"
proof -
  have "thermal_inv th'"
    using assms(4) create_inv[OF assms(1-3)] by (induction rule: rtranclp_induct) (blast intro: thermal_step_inv)+
  then show ?thesis by (auto simp: thermal_inv_def)
qed


text \<open>
  The first of the two files that cannot be created is forgotten: the cooling device is gone and the
  registration reports success.
\<close>

lemma register_hides_first_failure:
  assumes "gcip_thermal_parse_dvfs_table stack dims dt th = Some (0, th1)" "cdev_registered th1 = 0" "file1 \<noteq> 0"
  shows "\<exists>th'. gcip_thermal_cooling_register stack dims dt 0 file1 0 th = Some (0, th') \<and> cdev_registered th' = 0"
  using assms by (simp add: gcip_thermal_cooling_register_def)

section \<open>Instances\<close>

text \<open>A device whose data is its rate, with two states.\<close>

definition demo_thermal :: "u64 gcip_thermal" where
  "demo_thermal =
    \<lparr>th_pm = \<lparr>power_down_work = False, count = 1, suspendable_count = 0, power_down_pending = False, put_async_work = False,
        put_async_count = 0, pm_data = 1000, pm_before_destroy = None, power_up = (\<lambda>w. (0, w)), power_down = (\<lambda>w. (0, w))\<rparr>,
     num_states = 2, th_state = 0, th_vote = [0, 0, 0], device_suspended = False, th_enabled = True,
     th_get_rate = (\<lambda>w. (0, w, w)), th_set_rate = (\<lambda>r w. (0, r)), th_control = (\<lambda>_ w. (0, w)),
     state_map = [\<lparr>rp_rate = 1000, rp_power = 9\<rparr>, \<lparr>rp_rate = 500, rp_power = 4\<rparr>] @ replicate 14 \<lparr>rp_rate = 0, rp_power = 0\<rparr>,
     cdev_registered = 1\<rparr>"



definition demo_args :: "u64 gcip_thermal_args" where
  "demo_args = \<lparr>ta_dev = True, ta_pm = th_pm demo_thermal, ta_get_rate = Some (th_get_rate demo_thermal),
     ta_set_rate = Some (th_set_rate demo_thermal), ta_control = Some (th_control demo_thermal)\<rparr>"

lemma demo_table:
  "fill_state_map 2 (\<lambda>i. sint (2 * of_nat i :: u32)) ([1000, 9, 500, 4] @ replicate 28 0)
     (replicate 16 \<lparr>rp_rate = 0, rp_power = 0\<rparr>) = Some (state_map demo_thermal)"
  by code_simp

lemma demo_create:
  "gcip_thermal_create (replicate 32 0) (Some (2, 2)) (\<lambda>_. Some [1000, 9, 500, 4]) 0 0 0 True
     (replicate 16 \<lparr>rp_rate = 0, rp_power = 0\<rparr>) demo_args = Some (Inr demo_thermal)"
proof -
  have "gcip_thermal_parse_dvfs_table (replicate 32 0) (Some (2, 2)) (\<lambda>_. Some [1000, 9, 500, 4])
      (demo_thermal\<lparr>num_states := 0, state_map := replicate 16 \<lparr>rp_rate = 0, rp_power = 0\<rparr>, cdev_registered := 0\<rparr>) =
      Some (0, demo_thermal\<lparr>cdev_registered := 0\<rparr>)"
    using demo_table
    by (simp add: gcip_thermal_parse_dvfs_table_def GCIP_THERMAL_MAX_NUM_STATES_def OF_DATA_NUM_MAX_def demo_thermal_def Let_def)
  then show ?thesis
    by (simp add: gcip_thermal_create_def gcip_thermal_cooling_register_def demo_args_def demo_thermal_def numeral_3_eq_3)
qed

theorem thermal_states_in_table_witness:
  "th_state (gcip_thermal_notifier 0 1 True demo_thermal 600) < num_states (gcip_thermal_notifier 0 1 True demo_thermal 600)"
  by (rule thermal_states_in_table[OF demo_create, THEN conjunct1])
    (auto simp: GCIP_THERMAL_MAX_NUM_STATES_def intro: thermal_step.notifier)

end
