(* ===== verification/Image_Config.thy ===== *)
theory Image_Config
  imports Gcip_Prelude
begin

text \<open>
  The image configuration of signed firmware (gcip-image-config.c, gcip-image-config.h): the decoding of addresses and sizes, and
  the parser that adds the IOMMU mappings a configuration asks for after removing those of the last one.

  The callbacks \<open>map\<close> and \<open>unmap\<close> act on the private data of the IP driver, of type \<open>'w\<close>. The two tables have
  a fixed length; an index past the end of one of them, which the code does not exclude, is the result \<open>None\<close>.
\<close>

section \<open>State\<close>

definition GCIP_IMG_CFG_MAX_IOMMU_MAPPINGS :: nat where "GCIP_IMG_CFG_MAX_IOMMU_MAPPINGS = 18"
definition GCIP_IMG_CFG_MAX_NS_IOMMU_MAPPINGS :: nat where "GCIP_IMG_CFG_MAX_NS_IOMMU_MAPPINGS = 5"
definition GCIP_FW_PRIV_LEVEL_NS :: u32 where "GCIP_FW_PRIV_LEVEL_NS = 2"
definition GCIP_IMG_CFG_MAP_FLAGS_MASK :: u32 where "GCIP_IMG_CFG_MAP_FLAGS_MASK = 4096 - 1"
definition GCIP_IMAGE_CONFIG_MAP_SHARED_BIT :: u32 where "GCIP_IMAGE_CONFIG_MAP_SHARED_BIT = 2"
definition GCIP_IMAGE_CONFIG_MAP_36BIT_BIT :: u32 where "GCIP_IMAGE_CONFIG_MAP_36BIT_BIT = 8"
definition GCIP_IMAGE_CONFIG_FLAGS_SECURE :: u32 where "GCIP_IMAGE_CONFIG_FLAGS_SECURE = 1"
definition GCIP_IMG_CFG_PAGE_SHIFT :: nat where "GCIP_IMG_CFG_PAGE_SHIFT = 12"
definition GCIP_IMG_CFG_MB_SHIFT :: nat where "GCIP_IMG_CFG_MB_SHIFT = 20"
definition GCIP_IMG_CFG_SIZE_MODE_BIT :: u32 where "GCIP_IMG_CFG_SIZE_MODE_BIT = 2048"
definition GCIP_IMG_CFG_SECURE_SIZE_MASK :: u32 where
  "GCIP_IMG_CFG_SECURE_SIZE_MASK = GCIP_IMG_CFG_SIZE_MODE_BIT - 1"
definition GCIP_IMG_CFG_NS_SIZE_MASK :: u32 where
  "GCIP_IMG_CFG_NS_SIZE_MASK = GCIP_IMG_CFG_SIZE_MODE_BIT - 1"
definition GCIP_IMG_CFG_ADDR_MASK :: u32 where "GCIP_IMG_CFG_ADDR_MASK = NOT (4096 - 1)"

record gcip_image_config =
  carveout_base :: u32
  firmware_base :: u32
  firmware_size :: u32
  firmware_versions :: "u32 list"
  config_version :: u32
  privilege_level :: u32
  secure_data_start :: u32
  secure_data_size :: u32
  num_iommu_mappings :: u32
  iommu_mappings :: "(u32 \<times> u32) list" \<comment> \<open>virt_address and image_config_value\<close>
  cfg_reserved :: u32
  shared_data_iova :: u32
  telemetry_buffer_config :: u32
  sanitizer_config :: u32
  protected_memory_regions :: "u32 list"
  secure_telemetry_region_start :: u32
  shared_data_start :: u32
  shared_data_size :: u32
  num_ns_iommu_mappings :: u32
  ns_iommu_mappings :: "u32 list"

text \<open>What \<open>memset\<close> makes of it.\<close>

definition zero_config :: gcip_image_config where
  "zero_config =
    \<lparr>carveout_base = 0, firmware_base = 0, firmware_size = 0, firmware_versions = replicate 4 0, config_version = 0,
     privilege_level = 0, secure_data_start = 0, secure_data_size = 0, num_iommu_mappings = 0,
     iommu_mappings = replicate GCIP_IMG_CFG_MAX_IOMMU_MAPPINGS (0, 0), cfg_reserved = 0, shared_data_iova = 0,
     telemetry_buffer_config = 0, sanitizer_config = 0, protected_memory_regions = replicate 3 0,
     secure_telemetry_region_start = 0, shared_data_start = 0, shared_data_size = 0, num_ns_iommu_mappings = 0,
     ns_iommu_mappings = replicate GCIP_IMG_CFG_MAX_NS_IOMMU_MAPPINGS 0\<rparr>"

text \<open>The arguments are those of the code: device address, physical address, size, map flags and operation flags.\<close>

record 'w gcip_image_config_ops =
  ic_map :: "('w \<Rightarrow> u64 \<Rightarrow> u64 \<Rightarrow> u64 \<Rightarrow> u32 \<Rightarrow> u32 \<Rightarrow> int \<times> 'w) option"
  ic_unmap :: "('w \<Rightarrow> u64 \<Rightarrow> u64 \<Rightarrow> u32 \<Rightarrow> u32 \<Rightarrow> 'w) option"

record 'w gcip_image_config_parser =
  pr_data :: 'w
  pr_map :: "'w \<Rightarrow> u64 \<Rightarrow> u64 \<Rightarrow> u64 \<Rightarrow> u32 \<Rightarrow> u32 \<Rightarrow> int \<times> 'w"
  pr_unmap :: "'w \<Rightarrow> u64 \<Rightarrow> u64 \<Rightarrow> u32 \<Rightarrow> u32 \<Rightarrow> 'w"
  last_config :: gcip_image_config
  last_config_valid :: bool

record gcip_telemetry_buffer_config =
  tb_count :: u64
  log_buffer_size :: u64
  trace_buffer_size :: u64

section \<open>Decoding\<close>

definition GCIP_IMAGE_CONFIG_MAP_SHARED :: "u32 \<Rightarrow> bool" where
  "GCIP_IMAGE_CONFIG_MAP_SHARED flags = c_true (flags AND GCIP_IMAGE_CONFIG_MAP_SHARED_BIT)"

definition GCIP_IMAGE_CONFIG_MAP_36BIT :: "u32 \<Rightarrow> bool" where
  "GCIP_IMAGE_CONFIG_MAP_36BIT flags = c_true (flags AND GCIP_IMAGE_CONFIG_MAP_36BIT_BIT)"

definition gcip_ns_config_to_size :: "u32 \<Rightarrow> u32" where
  "gcip_ns_config_to_size cfg =
    (if c_true (cfg AND GCIP_IMG_CFG_SIZE_MODE_BIT)
     then push_bit GCIP_IMG_CFG_PAGE_SHIFT (cfg AND GCIP_IMG_CFG_NS_SIZE_MASK)
     else push_bit GCIP_IMG_CFG_MB_SHIFT (cfg AND GCIP_IMG_CFG_NS_SIZE_MASK))"

text \<open>
  The shift by the size field is done on 64 bits, where the hardware takes the shift count modulo 64, and the result
  is cut to 32 bits.
\<close>

definition gcip_config_to_size :: "u32 \<Rightarrow> u32" where
  "gcip_config_to_size cfg =
    (if c_true (cfg AND GCIP_IMG_CFG_SIZE_MODE_BIT)
     then push_bit GCIP_IMG_CFG_PAGE_SHIFT (cfg AND GCIP_IMG_CFG_SECURE_SIZE_MASK)
     else ucast (push_bit GCIP_IMG_CFG_PAGE_SHIFT
            (push_bit (unat (cfg AND GCIP_IMG_CFG_SECURE_SIZE_MASK) mod 64) 1 :: u64)))"

definition gcip_image_config_is_ns :: "gcip_image_config \<Rightarrow> bool" where
  "gcip_image_config_is_ns config \<longleftrightarrow> privilege_level config = GCIP_FW_PRIV_LEVEL_NS"

definition gcip_image_config_is_secure :: "gcip_image_config \<Rightarrow> bool" where
  "gcip_image_config_is_secure config \<longleftrightarrow> privilege_level config \<noteq> GCIP_FW_PRIV_LEVEL_NS"

definition gcip_image_config_get_telemetry_buffer_config ::
    "gcip_image_config \<Rightarrow> gcip_telemetry_buffer_config option" where
  "gcip_image_config_get_telemetry_buffer_config config =
    (let c = telemetry_buffer_config config in
     if c = 0 then None
     else Some \<lparr>tb_count = ucast (c AND 255), log_buffer_size = ucast ((drop_bit 8 c AND 255) * 4096),
               trace_buffer_size = ucast ((drop_bit 16 c AND 255) * 4096)\<rparr>)"

definition skip_secure_mapping :: "gcip_image_config \<Rightarrow> u32 \<Rightarrow> bool" where
  "skip_secure_mapping config map_flags \<longleftrightarrow>
    gcip_image_config_is_secure config \<and> \<not> GCIP_IMAGE_CONFIG_MAP_SHARED map_flags"

definition virt_address_to_dma :: "u32 \<Rightarrow> u64" where
  "virt_address_to_dma virt_address =
    (let daddr = ucast (virt_address AND NOT GCIP_IMG_CFG_MAP_FLAGS_MASK);
         flags = virt_address AND GCIP_IMG_CFG_MAP_FLAGS_MASK
     in if GCIP_IMAGE_CONFIG_MAP_36BIT flags then push_bit 4 daddr else daddr)"

section \<open>Secure mappings\<close>

text \<open>An element of a table, if the index is inside it.\<close>

definition elem_at :: "'a list \<Rightarrow> nat \<Rightarrow> 'a option" where
  "elem_at xs i = (if i < length xs then Some (xs ! i) else None)"

text \<open>
  The loop from entry \<open>i\<close> with \<open>n\<close> entries to go: the error or zero, the entry where it stopped, and the data.
\<close>

fun setup_iommu_loop ::
    "'w gcip_image_config_parser \<Rightarrow> gcip_image_config \<Rightarrow> nat \<Rightarrow> nat \<Rightarrow> 'w \<Rightarrow> (int \<times> nat \<times> 'w) option" where
  "setup_iommu_loop parser config i 0 w = Some (0, i, w)"
| "setup_iommu_loop parser config i (Suc n) w =
    (case elem_at (iommu_mappings config) i of
       None \<Rightarrow> None
     | Some (virt_address, value) \<Rightarrow>
         let daddr = virt_address_to_dma virt_address;
             map_flags = virt_address AND GCIP_IMG_CFG_MAP_FLAGS_MASK
         in if skip_secure_mapping config map_flags then setup_iommu_loop parser config (Suc i) n w
            else if daddr = 0 then Some (- EIO, i, w)
            else
              let sz = ucast (gcip_config_to_size value); paddr = ucast (value AND GCIP_IMG_CFG_ADDR_MASK) in
              if daddr + sz \<le> daddr \<or> paddr + sz \<le> paddr then Some (- EOVERFLOW, i, w)
              else
                let (ret, w) = pr_map parser w daddr paddr sz map_flags GCIP_IMAGE_CONFIG_FLAGS_SECURE in
                if ret \<noteq> 0 then Some (ret, i, w) else setup_iommu_loop parser config (Suc i) n w)"

text \<open>The error path: back from entry \<open>i\<close>, exclusive.\<close>

fun undo_iommu_loop :: "'w gcip_image_config_parser \<Rightarrow> gcip_image_config \<Rightarrow> nat \<Rightarrow> 'w \<Rightarrow> 'w option" where
  "undo_iommu_loop parser config 0 w = Some w"
| "undo_iommu_loop parser config (Suc i) w =
    (case elem_at (iommu_mappings config) i of
       None \<Rightarrow> None
     | Some (virt_address, value) \<Rightarrow>
         let daddr = ucast (virt_address AND NOT GCIP_IMG_CFG_MAP_FLAGS_MASK);
             map_flags = virt_address AND GCIP_IMG_CFG_MAP_FLAGS_MASK
         in if skip_secure_mapping config map_flags then undo_iommu_loop parser config i w
            else undo_iommu_loop parser config i
                   (pr_unmap parser w daddr (ucast (gcip_config_to_size value)) map_flags GCIP_IMAGE_CONFIG_FLAGS_SECURE))"

definition setup_iommu_mappings ::
    "'w gcip_image_config_parser \<Rightarrow> gcip_image_config \<Rightarrow> 'w \<Rightarrow> (int \<times> 'w) option" where
  "setup_iommu_mappings parser config w =
    (case setup_iommu_loop parser config 0 (unat (num_iommu_mappings config)) w of
       None \<Rightarrow> None
     | Some (ret, i, w) \<Rightarrow>
         if ret = 0 then Some (0, w) else map_option (Pair ret) (undo_iommu_loop parser config i w))"

fun clear_iommu_loop :: "'w gcip_image_config_parser \<Rightarrow> gcip_image_config \<Rightarrow> nat \<Rightarrow> 'w \<Rightarrow> 'w option" where
  "clear_iommu_loop parser config 0 w = Some w"
| "clear_iommu_loop parser config (Suc i) w =
    (case elem_at (iommu_mappings config) i of
       None \<Rightarrow> None
     | Some (virt_address, value) \<Rightarrow>
         let daddr = virt_address_to_dma virt_address;
             map_flags = virt_address AND GCIP_IMG_CFG_MAP_FLAGS_MASK
         in if skip_secure_mapping config map_flags then clear_iommu_loop parser config i w
            else clear_iommu_loop parser config i
                   (pr_unmap parser w daddr (ucast (gcip_config_to_size value)) map_flags GCIP_IMAGE_CONFIG_FLAGS_SECURE))"

text \<open>The index of the loop is an \<open>int\<close> that starts one below the number of entries.\<close>

definition clear_iommu_mappings :: "'w gcip_image_config_parser \<Rightarrow> gcip_image_config \<Rightarrow> 'w \<Rightarrow> 'w option" where
  "clear_iommu_mappings parser config w =
    clear_iommu_loop parser config (nat (sint (num_iommu_mappings config - 1) + 1)) w"

section \<open>Non-secure mappings\<close>

fun setup_ns_loop ::
    "'w gcip_image_config_parser \<Rightarrow> gcip_image_config \<Rightarrow> nat \<Rightarrow> nat \<Rightarrow> u64 \<Rightarrow> 'w \<Rightarrow> (int \<times> nat \<times> 'w) option" where
  "setup_ns_loop parser config i 0 paddr w = Some (0, i, w)"
| "setup_ns_loop parser config i (Suc n) paddr w =
    (case elem_at (ns_iommu_mappings config) i of
       None \<Rightarrow> None
     | Some cfg \<Rightarrow>
         let daddr = ucast (cfg AND GCIP_IMG_CFG_ADDR_MASK) in
         if daddr = 0 then Some (- EIO, i, w)
         else
           let sz = ucast (gcip_ns_config_to_size cfg) in
           if daddr + sz \<le> daddr \<or> paddr + sz \<le> paddr then Some (- EOVERFLOW, i, w)
           else
             let (ret, w) = pr_map parser w daddr paddr sz 0 0 in
             if ret \<noteq> 0 then Some (ret, i, w) else setup_ns_loop parser config (Suc i) n (paddr + sz) w)"

text \<open>The error path and the removal of the mappings run the same loop.\<close>

fun clear_ns_loop :: "'w gcip_image_config_parser \<Rightarrow> gcip_image_config \<Rightarrow> nat \<Rightarrow> 'w \<Rightarrow> 'w option" where
  "clear_ns_loop parser config 0 w = Some w"
| "clear_ns_loop parser config (Suc i) w =
    (case elem_at (ns_iommu_mappings config) i of
       None \<Rightarrow> None
     | Some cfg \<Rightarrow>
         clear_ns_loop parser config i
           (pr_unmap parser w (ucast (cfg AND GCIP_IMG_CFG_ADDR_MASK)) (ucast (gcip_ns_config_to_size cfg)) 0 0))"

definition setup_ns_iommu_mappings ::
    "'w gcip_image_config_parser \<Rightarrow> gcip_image_config \<Rightarrow> 'w \<Rightarrow> (int \<times> 'w) option" where
  "setup_ns_iommu_mappings parser config w =
    (case setup_ns_loop parser config 0 (unat (num_ns_iommu_mappings config)) 0 w of
       None \<Rightarrow> None
     | Some (ret, i, w) \<Rightarrow>
         if ret = 0 then Some (0, w) else map_option (Pair ret) (clear_ns_loop parser config i w))"

definition clear_ns_iommu_mappings :: "'w gcip_image_config_parser \<Rightarrow> gcip_image_config \<Rightarrow> 'w \<Rightarrow> 'w option" where
  "clear_ns_iommu_mappings parser config w =
    clear_ns_loop parser config (nat (sint (num_ns_iommu_mappings config - 1) + 1)) w"

section \<open>The parser\<close>

definition map_image_config ::
    "'w gcip_image_config_parser \<Rightarrow> gcip_image_config \<Rightarrow> 'w \<Rightarrow> (int \<times> 'w) option" where
  "map_image_config parser config w =
    (case setup_ns_iommu_mappings parser config w of
       None \<Rightarrow> None
     | Some (ret, w) \<Rightarrow>
         if ret \<noteq> 0 then Some (ret, w)
         else
           (case setup_iommu_mappings parser config w of
              None \<Rightarrow> None
            | Some (ret, w) \<Rightarrow>
                if ret \<noteq> 0 then map_option (Pair ret) (clear_ns_iommu_mappings parser config w) else Some (ret, w)))"

definition unmap_image_config :: "'w gcip_image_config_parser \<Rightarrow> gcip_image_config \<Rightarrow> 'w \<Rightarrow> 'w option" where
  "unmap_image_config parser config w =
    Option.bind (clear_iommu_mappings parser config w) (clear_ns_iommu_mappings parser config)"

definition gcip_image_config_parser_init ::
    "'w gcip_image_config_ops \<Rightarrow> 'w \<Rightarrow> int + 'w gcip_image_config_parser" where
  "gcip_image_config_parser_init ops data =
    (case (ic_map ops, ic_unmap ops) of
       (Some m, Some u) \<Rightarrow>
         Inr \<lparr>pr_data = data, pr_map = m, pr_unmap = u, last_config = zero_config, last_config_valid = False\<rparr>
     | _ \<Rightarrow> Inl (- EINVAL))"

definition gcip_image_config_parse ::
    "'w gcip_image_config_parser \<Rightarrow> gcip_image_config \<Rightarrow> (int \<times> 'w gcip_image_config_parser) option" where
  "gcip_image_config_parse parser config =
    (if config = last_config parser then Some (0, parser)
     else
       (case unmap_image_config parser (last_config parser) (pr_data parser) of
          None \<Rightarrow> None
        | Some w \<Rightarrow>
            (case map_image_config parser config w of
               None \<Rightarrow> None
             | Some (ret, w) \<Rightarrow>
                 if ret \<noteq> 0 then
                   map_option (\<lambda>(_, w). (ret, parser\<lparr>pr_data := w\<rparr>)) (map_image_config parser (last_config parser) w)
                 else Some (0, parser\<lparr>pr_data := w, last_config := config, last_config_valid := True\<rparr>))))"

definition gcip_image_config_clear :: "'w gcip_image_config_parser \<Rightarrow> 'w gcip_image_config_parser option" where
  "gcip_image_config_clear parser =
    map_option (\<lambda>w. parser\<lparr>pr_data := w, last_config := zero_config, last_config_valid := False\<rparr>)
      (unmap_image_config parser (last_config parser) (pr_data parser))"

end
