(* ===== verification/Image_Config_Laws.thy ===== *)
theory Image_Config_Laws
  imports Image_Config
begin

text \<open>
  Laws of the image configuration: after each call of the parser the mappings are those of the configuration it
  holds, provided that the configurations use no 36-bit addresses; and what the error path does with one that does.
\<close>

section \<open>Mappings of a configuration\<close>

type_synonym mapping_id = "u64 \<times> u64 \<times> u32 \<times> u32" \<comment> \<open>address, size, map flags, operation flags\<close>

definition ns_entry :: "gcip_image_config \<Rightarrow> nat \<Rightarrow> mapping_id" where
  "ns_entry config i =
    (let cfg = ns_iommu_mappings config ! i in
     (ucast (cfg AND GCIP_IMG_CFG_ADDR_MASK), ucast (gcip_ns_config_to_size cfg), 0, 0))"

definition sec_flags :: "gcip_image_config \<Rightarrow> nat \<Rightarrow> u32" where
  "sec_flags config i = fst (iommu_mappings config ! i) AND GCIP_IMG_CFG_MAP_FLAGS_MASK"

definition sec_entry :: "gcip_image_config \<Rightarrow> nat \<Rightarrow> mapping_id" where
  "sec_entry config i =
    (case iommu_mappings config ! i of
       (va, v) \<Rightarrow> (virt_address_to_dma va, ucast (gcip_config_to_size v), sec_flags config i, GCIP_IMAGE_CONFIG_FLAGS_SECURE))"

definition sec_kept :: "gcip_image_config \<Rightarrow> nat set \<Rightarrow> nat set" where
  "sec_kept config I = {i \<in> I. \<not> skip_secure_mapping config (sec_flags config i)}"

definition config_entries :: "gcip_image_config \<Rightarrow> mapping_id set" where
  "config_entries config =
    ns_entry config ` {..<unat (num_ns_iommu_mappings config)} \<union>
    sec_entry config ` sec_kept config {..<unat (num_iommu_mappings config)}"

text \<open>The shape of a configuration, and that the host handles no 36-bit address in it.\<close>

definition config_wf :: "gcip_image_config \<Rightarrow> bool" where
  "config_wf config \<longleftrightarrow>
    length (iommu_mappings config) = GCIP_IMG_CFG_MAX_IOMMU_MAPPINGS \<and>
    length (ns_iommu_mappings config) = GCIP_IMG_CFG_MAX_NS_IOMMU_MAPPINGS \<and>
    unat (num_iommu_mappings config) \<le> GCIP_IMG_CFG_MAX_IOMMU_MAPPINGS \<and>
    unat (num_ns_iommu_mappings config) \<le> GCIP_IMG_CFG_MAX_NS_IOMMU_MAPPINGS"

definition no_36bit :: "gcip_image_config \<Rightarrow> bool" where
  "no_36bit config \<longleftrightarrow>
    (\<forall>i \<in> sec_kept config {..<unat (num_iommu_mappings config)}. \<not> GCIP_IMAGE_CONFIG_MAP_36BIT (sec_flags config i))"

text \<open>
  What the callbacks promise: \<open>live\<close> are the mappings there are. Adding one either adds a new one or fails and changes nothing;
  removing one removes it.
\<close>

definition ops_ok :: "'w gcip_image_config_parser \<Rightarrow> ('w \<Rightarrow> mapping_id set) \<Rightarrow> bool" where
  "ops_ok parser live \<longleftrightarrow>
    (\<forall>w d p s f o'. fst (pr_map parser w d p s f o') = 0 \<longrightarrow>
       (d, s, f, o') \<notin> live w \<and> live (snd (pr_map parser w d p s f o')) = insert (d, s, f, o') (live w)) \<and>
    (\<forall>w d p s f o'. fst (pr_map parser w d p s f o') \<noteq> 0 \<longrightarrow> live (snd (pr_map parser w d p s f o')) = live w) \<and>
    (\<forall>w d s f o'. live (pr_unmap parser w d s f o') = live w - {(d, s, f, o')})"

lemma ops_okD:
  assumes "ops_ok parser live"
  shows "pr_map parser w d p s f o' = (0, w') \<Longrightarrow> (d, s, f, o') \<notin> live w"
    and "pr_map parser w d p s f o' = (0, w') \<Longrightarrow> live w' = insert (d, s, f, o') (live w)"
    and "pr_map parser w d p s f o' = (ret, w') \<Longrightarrow> ret \<noteq> 0 \<Longrightarrow> live w' = live w"
    and "live (pr_unmap parser w d s f o') = live w - {(d, s, f, o')}"
  using assms unfolding ops_ok_def by (metis fst_conv snd_conv)+

section \<open>The loops\<close>

text \<open>A loop that adds: it stops at \<open>j\<close> having added the mappings \<open>A\<close>, all new.\<close>

definition added :: "('w \<Rightarrow> mapping_id set) \<Rightarrow> 'w \<Rightarrow> mapping_id set \<Rightarrow> 'w \<Rightarrow> bool" where
  "added live w A w' \<longleftrightarrow> live w' = live w \<union> A \<and> live w \<inter> A = {}"

lemma added_refl [simp]: "added live w {} w"
  by (simp add: added_def)

lemma added_insert: "x \<notin> live w \<Longrightarrow> live w1 = insert x (live w) \<Longrightarrow> added live w1 A w' \<Longrightarrow> added live w (insert x A) w'"
  by (auto simp: added_def)

lemma added_same: "live w1 = live w \<Longrightarrow> added live w {} w1"
  by (simp add: added_def)

lemma atLeastLessThan_first: "i < j \<Longrightarrow> {i..<j} = insert i {Suc i..<j}" for i j :: nat
  by auto

lemma elem_at_in: "i < length xs \<Longrightarrow> elem_at xs i = Some (xs ! i)"
  by (simp add: elem_at_def)

lemma setup_ns_loop_adds:
  assumes ok: "ops_ok parser live"
  shows "i + n \<le> length (ns_iommu_mappings config) \<Longrightarrow>
    \<exists>ret j w'. setup_ns_loop parser config i n paddr w = Some (ret, j, w') \<and> i \<le> j \<and> j \<le> i + n \<and>
      (ret = 0 \<longrightarrow> j = i + n) \<and> added live w (ns_entry config ` {i..<j}) w'"
proof (induction n arbitrary: i paddr w)
  case 0
  then show ?case by simp
next
  case (Suc n)
  let ?cfg = "ns_iommu_mappings config ! i"
  let ?d = "ucast (?cfg AND GCIP_IMG_CFG_ADDR_MASK) :: u64" and ?s = "ucast (gcip_ns_config_to_size ?cfg) :: u64"
  have e: "elem_at (ns_iommu_mappings config) i = Some ?cfg" using Suc.prems by (intro elem_at_in) simp
  have x: "ns_entry config i = (?d, ?s, 0, 0)" by (simp add: ns_entry_def Let_def)
  obtain r w1 where m: "pr_map parser w ?d paddr ?s 0 0 = (r, w1)" by fastforce
  have eq: "setup_ns_loop parser config i (Suc n) paddr w =
      (if ?d = 0 then Some (- EIO, i, w)
       else if ?d + ?s \<le> ?d \<or> paddr + ?s \<le> paddr then Some (- EOVERFLOW, i, w)
       else if r \<noteq> 0 then Some (r, i, w1) else setup_ns_loop parser config (Suc i) n (paddr + ?s) w1)"
    by (simp add: e m Let_def)
  consider (stop) ret where "setup_ns_loop parser config i (Suc n) paddr w = Some (ret, i, w)" "ret \<noteq> 0"
    | (refuse) "setup_ns_loop parser config i (Suc n) paddr w = Some (r, i, w1)" "r \<noteq> 0"
    | (go) "r = 0" "setup_ns_loop parser config i (Suc n) paddr w = setup_ns_loop parser config (Suc i) n (paddr + ?s) w1"
    unfolding eq by (cases "?d = 0"; cases "?d + ?s \<le> ?d \<or> paddr + ?s \<le> paddr"; cases "r = 0") simp_all
  then show ?case
  proof cases
    case stop
    then show ?thesis by (intro exI[of _ ret] exI[of _ i] exI[of _ w]) simp
  next
    case refuse
    then show ?thesis using ops_okD(3)[OF ok m] by (intro exI[of _ r] exI[of _ i] exI[of _ w1]) (simp add: added_same)
  next
    case go
    have new: "ns_entry config i \<notin> live w" "live w1 = insert (ns_entry config i) (live w)"
      using ops_okD(1,2)[OF ok m[unfolded go(1)]] unfolding x by blast+
    obtain ret j w' where r: "setup_ns_loop parser config (Suc i) n (paddr + ?s) w1 = Some (ret, j, w')"
        "Suc i \<le> j" "j \<le> Suc i + n" "ret = 0 \<longrightarrow> j = Suc i + n" "added live w1 (ns_entry config ` {Suc i..<j}) w'"
      using Suc.IH[of "Suc i" "paddr + ?s" w1] Suc.prems by auto
    have "added live w (ns_entry config ` {i..<j}) w'"
      using added_insert[OF new r(5)] r(2) by (simp add: atLeastLessThan_first)
    then show ?thesis using r go by (intro exI[of _ ret] exI[of _ j] exI[of _ w']) auto
  qed
qed

lemma sec_kept_empty [simp]: "sec_kept config {} = {}"
  by (simp add: sec_kept_def)

lemma sec_kept_first:
  "i < j \<Longrightarrow> sec_kept config {i..<j} =
    (if skip_secure_mapping config (sec_flags config i) then {} else {i}) \<union> sec_kept config {Suc i..<j}"
  by (auto simp: sec_kept_def atLeastLessThan_first)

lemma setup_iommu_loop_adds:
  assumes ok: "ops_ok parser live"
  shows "i + n \<le> length (iommu_mappings config) \<Longrightarrow>
    \<exists>ret j w'. setup_iommu_loop parser config i n w = Some (ret, j, w') \<and> i \<le> j \<and> j \<le> i + n \<and>
      (ret = 0 \<longrightarrow> j = i + n) \<and> added live w (sec_entry config ` sec_kept config {i..<j}) w'"
proof (induction n arbitrary: i w)
  case 0
  then show ?case by simp
next
  case (Suc n)
  obtain va v where vv: "iommu_mappings config ! i = (va, v)" by fastforce
  let ?d = "virt_address_to_dma va" and ?s = "ucast (gcip_config_to_size v) :: u64" and ?f = "sec_flags config i"
    and ?p = "ucast (v AND GCIP_IMG_CFG_ADDR_MASK) :: u64"
  have e: "elem_at (iommu_mappings config) i = Some (va, v)" using Suc.prems vv by (simp add: elem_at_in)
  have f: "va AND GCIP_IMG_CFG_MAP_FLAGS_MASK = ?f" using vv by (simp add: sec_flags_def)
  have x: "sec_entry config i = (?d, ?s, ?f, GCIP_IMAGE_CONFIG_FLAGS_SECURE)" using vv by (simp add: sec_entry_def)
  obtain r w1 where m: "pr_map parser w ?d ?p ?s ?f GCIP_IMAGE_CONFIG_FLAGS_SECURE = (r, w1)" by fastforce
  let ?skip = "skip_secure_mapping config ?f"
  have eq: "setup_iommu_loop parser config i (Suc n) w =
      (if ?skip then setup_iommu_loop parser config (Suc i) n w
       else if ?d = 0 then Some (- EIO, i, w)
       else if ?d + ?s \<le> ?d \<or> ?p + ?s \<le> ?p then Some (- EOVERFLOW, i, w)
       else if r \<noteq> 0 then Some (r, i, w1) else setup_iommu_loop parser config (Suc i) n w1)"
    by (simp add: e m f Let_def)
  consider (skip) "?skip" "setup_iommu_loop parser config i (Suc n) w = setup_iommu_loop parser config (Suc i) n w"
    | (stop) ret where "setup_iommu_loop parser config i (Suc n) w = Some (ret, i, w)" "ret \<noteq> 0"
    | (refuse) "setup_iommu_loop parser config i (Suc n) w = Some (r, i, w1)" "r \<noteq> 0"
    | (go) "\<not> ?skip" "r = 0" "setup_iommu_loop parser config i (Suc n) w = setup_iommu_loop parser config (Suc i) n w1"
    unfolding eq by (cases ?skip; cases "?d = 0"; cases "?d + ?s \<le> ?d \<or> ?p + ?s \<le> ?p"; cases "r = 0") simp_all
  then show ?case
  proof cases
    case skip
    obtain ret j w' where r: "setup_iommu_loop parser config (Suc i) n w = Some (ret, j, w')"
        "Suc i \<le> j" "j \<le> Suc i + n" "ret = 0 \<longrightarrow> j = Suc i + n"
        "added live w (sec_entry config ` sec_kept config {Suc i..<j}) w'"
      using Suc.IH[of "Suc i" w] Suc.prems by auto
    then show ?thesis using skip by (intro exI[of _ ret] exI[of _ j] exI[of _ w']) (simp add: sec_kept_first)
  next
    case stop
    then show ?thesis by (intro exI[of _ ret] exI[of _ i] exI[of _ w]) simp
  next
    case refuse
    then show ?thesis
      using ops_okD(3)[OF ok m] by (intro exI[of _ r] exI[of _ i] exI[of _ w1]) (simp add: added_same)
  next
    case go
    have new: "sec_entry config i \<notin> live w" "live w1 = insert (sec_entry config i) (live w)"
      using ops_okD(1,2)[OF ok m[unfolded go(2)]] unfolding x by blast+
    obtain ret j w' where r: "setup_iommu_loop parser config (Suc i) n w1 = Some (ret, j, w')"
        "Suc i \<le> j" "j \<le> Suc i + n" "ret = 0 \<longrightarrow> j = Suc i + n"
        "added live w1 (sec_entry config ` sec_kept config {Suc i..<j}) w'"
      using Suc.IH[of "Suc i" w1] Suc.prems by auto
    have "added live w (sec_entry config ` sec_kept config {i..<j}) w'"
      using added_insert[OF new r(5)] r(2) go(1) by (simp add: sec_kept_first)
    then show ?thesis using r go by (intro exI[of _ ret] exI[of _ j] exI[of _ w']) auto
  qed
qed

lemma clear_ns_loop_removes:
  assumes ok: "ops_ok parser live"
  shows "i \<le> length (ns_iommu_mappings config) \<Longrightarrow>
    \<exists>w'. clear_ns_loop parser config i w = Some w' \<and> live w' = live w - ns_entry config ` {..<i}"
proof (induction i arbitrary: w)
  case (Suc i)
  let ?cfg = "ns_iommu_mappings config ! i"
  let ?w = "pr_unmap parser w (ucast (?cfg AND GCIP_IMG_CFG_ADDR_MASK)) (ucast (gcip_ns_config_to_size ?cfg)) 0 0"
  have "live ?w = live w - {ns_entry config i}" by (simp add: ops_okD(4)[OF ok] ns_entry_def Let_def)
  moreover obtain w' where "clear_ns_loop parser config i ?w = Some w'" "live w' = live ?w - ns_entry config ` {..<i}"
    using Suc by fastforce
  ultimately show ?case using Suc.prems by (auto simp: elem_at_in lessThan_Suc)
qed simp

lemma sec_kept_last:
  "sec_kept config {..<Suc i} =
    (if skip_secure_mapping config (sec_flags config i) then {} else {i}) \<union> sec_kept config {..<i}"
  by (auto simp: sec_kept_def lessThan_Suc)

text \<open>The error path differs from the removal of mappings in the address alone.\<close>

lemma undo_is_clear:
  "\<forall>k \<in> sec_kept config {..<i}. \<not> GCIP_IMAGE_CONFIG_MAP_36BIT (sec_flags config k) \<Longrightarrow>
    undo_iommu_loop parser config i w = clear_iommu_loop parser config i w"
proof (induction i arbitrary: w)
  case (Suc i)
  have "\<forall>k \<in> sec_kept config {..<i}. \<not> GCIP_IMAGE_CONFIG_MAP_36BIT (sec_flags config k)"
    using Suc.prems by (simp add: sec_kept_last)
  note IH = Suc.IH[OF this]
  show ?case
  proof (cases "elem_at (iommu_mappings config) i")
    case (Some p)
    then obtain va v where vv: "p = (va, v)" "iommu_mappings config ! i = (va, v)"
      by (cases p) (auto simp: elem_at_def split: if_splits)
    then have f: "va AND GCIP_IMG_CFG_MAP_FLAGS_MASK = sec_flags config i" by (simp add: sec_flags_def)
    show ?thesis
    proof (cases "skip_secure_mapping config (sec_flags config i)")
      case True
      then show ?thesis using Some vv f by (simp add: IH)
    next
      case False
      then have "\<not> GCIP_IMAGE_CONFIG_MAP_36BIT (sec_flags config i)" using Suc.prems by (simp add: sec_kept_last)
      then have "virt_address_to_dma va = ucast (va AND NOT GCIP_IMG_CFG_MAP_FLAGS_MASK)"
        by (simp add: virt_address_to_dma_def f)
      then show ?thesis using Some vv f False by (simp add: IH)
    qed
  qed simp
qed simp

lemma clear_iommu_loop_removes:
  assumes ok: "ops_ok parser live"
  shows "i \<le> length (iommu_mappings config) \<Longrightarrow>
    \<exists>w'. clear_iommu_loop parser config i w = Some w' \<and> live w' = live w - sec_entry config ` sec_kept config {..<i}"
proof (induction i arbitrary: w)
  case (Suc i)
  obtain va v where vv: "iommu_mappings config ! i = (va, v)" by fastforce
  have e: "elem_at (iommu_mappings config) i = Some (va, v)" using Suc.prems vv by (simp add: elem_at_in)
  have f: "va AND GCIP_IMG_CFG_MAP_FLAGS_MASK = sec_flags config i" using vv by (simp add: sec_flags_def)
  show ?case
  proof (cases "skip_secure_mapping config (sec_flags config i)")
    case True
    then show ?thesis using Suc e f by (simp add: sec_kept_last)
  next
    case False
    let ?w = "pr_unmap parser w (virt_address_to_dma va) (ucast (gcip_config_to_size v)) (sec_flags config i)
      GCIP_IMAGE_CONFIG_FLAGS_SECURE"
    have "live ?w = live w - {sec_entry config i}" using vv by (simp add: ops_okD(4)[OF ok] sec_entry_def)
    moreover obtain w' where "clear_iommu_loop parser config i ?w = Some w'"
        "live w' = live ?w - sec_entry config ` sec_kept config {..<i}"
      using Suc by fastforce
    ultimately show ?thesis using e f False by (auto simp: sec_kept_last)
  qed
qed simp

section \<open>Configurations\<close>

lemma loop_count: "unat n \<le> 18 \<Longrightarrow> nat (sint (n - 1) + 1) = unat n" for n :: u32
proof (cases "n = 0")
  case False
  assume n: "unat n \<le> 18"
  then have "n - 1 = of_nat (unat n - 1)" using False by (metis unat_minus_one of_nat_unat ucast_id)
  then have "sint (n - 1) = int (unat n - 1)"
    using n by (simp add: signed_of_nat signed_take_bit_int_eq_self)
  moreover have "0 < unat n" using False by (simp add: unat_gt_0)
  ultimately show ?thesis by simp
qed simp

lemma config_wfD:
  assumes "config_wf config"
  shows "unat (num_iommu_mappings config) \<le> length (iommu_mappings config)"
    "unat (num_ns_iommu_mappings config) \<le> length (ns_iommu_mappings config)"
    "nat (sint (num_iommu_mappings config - 1) + 1) = unat (num_iommu_mappings config)"
    "nat (sint (num_ns_iommu_mappings config - 1) + 1) = unat (num_ns_iommu_mappings config)"
  using assms loop_count
  by (simp_all add: config_wf_def GCIP_IMG_CFG_MAX_IOMMU_MAPPINGS_def GCIP_IMG_CFG_MAX_NS_IOMMU_MAPPINGS_def)

lemma added_undone: "added live w A w1 \<Longrightarrow> live w2 = live w1 - A \<Longrightarrow> live w2 = live w"
  by (auto simp: added_def)

lemma setup_ns_outcome:
  assumes ok: "ops_ok parser live" and wf: "config_wf config"
  shows "\<exists>ret w'. setup_ns_iommu_mappings parser config w = Some (ret, w') \<and>
    (if ret = 0 then added live w (ns_entry config ` {..<unat (num_ns_iommu_mappings config)}) w' else live w' = live w)"
proof -
  let ?n = "unat (num_ns_iommu_mappings config)"
  obtain ret j w1 where r: "setup_ns_loop parser config 0 ?n 0 w = Some (ret, j, w1)" "j \<le> ?n" "ret = 0 \<longrightarrow> j = ?n"
      "added live w (ns_entry config ` {..<j}) w1"
    using setup_ns_loop_adds[OF ok, of 0 ?n config 0 w] config_wfD(2)[OF wf] by (auto simp: lessThan_atLeast0)
  obtain w2 where c: "clear_ns_loop parser config j w1 = Some w2" "live w2 = live w1 - ns_entry config ` {..<j}"
    using clear_ns_loop_removes[OF ok, of j config w1] config_wfD(2)[OF wf] r(2) by auto
  show ?thesis
    using r c added_undone[OF r(4) c(2)] by (cases "ret = 0") (simp_all add: setup_ns_iommu_mappings_def)
qed

lemma setup_sec_outcome:
  assumes ok: "ops_ok parser live" and wf: "config_wf config" and plain: "no_36bit config"
  shows "\<exists>ret w'. setup_iommu_mappings parser config w = Some (ret, w') \<and>
    (if ret = 0 then added live w (sec_entry config ` sec_kept config {..<unat (num_iommu_mappings config)}) w'
     else live w' = live w)"
proof -
  let ?n = "unat (num_iommu_mappings config)"
  obtain ret j w1 where r: "setup_iommu_loop parser config 0 ?n w = Some (ret, j, w1)" "j \<le> ?n" "ret = 0 \<longrightarrow> j = ?n"
      "added live w (sec_entry config ` sec_kept config {..<j}) w1"
    using setup_iommu_loop_adds[OF ok, of 0 ?n config w] config_wfD(1)[OF wf] by (auto simp: lessThan_atLeast0)
  obtain w2 where c: "clear_iommu_loop parser config j w1 = Some w2"
      "live w2 = live w1 - sec_entry config ` sec_kept config {..<j}"
    using clear_iommu_loop_removes[OF ok, of j config w1] config_wfD(1)[OF wf] r(2) by auto
  have "\<forall>k \<in> sec_kept config {..<j}. \<not> GCIP_IMAGE_CONFIG_MAP_36BIT (sec_flags config k)"
    using plain r(2) by (auto simp: no_36bit_def sec_kept_def)
  then have u: "undo_iommu_loop parser config j w1 = Some w2" using c(1) by (simp add: undo_is_clear)
  show ?thesis
    using r u added_undone[OF r(4) c(2)] by (cases "ret = 0") (simp_all add: setup_iommu_mappings_def)
qed

lemma map_config_outcome:
  assumes ok: "ops_ok parser live" and wf: "config_wf config" and plain: "no_36bit config"
  shows "\<exists>ret w'. map_image_config parser config w = Some (ret, w') \<and>
    (if ret = 0 then added live w (config_entries config) w' else live w' = live w)"
proof -
  let ?N = "ns_entry config ` {..<unat (num_ns_iommu_mappings config)}"
  obtain r1 w1 where 1: "setup_ns_iommu_mappings parser config w = Some (r1, w1)"
      "if r1 = 0 then added live w ?N w1 else live w1 = live w"
    using setup_ns_outcome[OF ok wf] by blast
  show ?thesis
  proof (cases "r1 = 0")
    case True
    then have a1: "added live w ?N w1" using 1(2) by simp
    obtain r2 w2 where 2: "setup_iommu_mappings parser config w1 = Some (r2, w2)"
        "if r2 = 0 then added live w1 (sec_entry config ` sec_kept config {..<unat (num_iommu_mappings config)}) w2
         else live w2 = live w1"
      using setup_sec_outcome[OF ok wf plain] by blast
    obtain w3 where 3: "clear_ns_iommu_mappings parser config w2 = Some w3" "live w3 = live w2 - ?N"
      using clear_ns_loop_removes[OF ok config_wfD(2)[OF wf], of w2] config_wfD(4)[OF wf]
      by (auto simp: clear_ns_iommu_mappings_def)
    show ?thesis
    proof (cases "r2 = 0")
      case r2: True
      then have "added live w (config_entries config) w2" using a1 2(2) by (auto simp: added_def config_entries_def)
      then show ?thesis using 1(1) 2(1) True r2 by (simp add: map_image_config_def)
    next
      case r2: False
      then have "live w3 = live w" using added_undone[OF a1, of w3] 2(2) 3(2) by simp
      then show ?thesis using 1(1) 2(1) 3(1) True r2 by (simp add: map_image_config_def)
    qed
  next
    case False
    then show ?thesis using 1 by (simp add: map_image_config_def)
  qed
qed

lemma unmap_config_outcome:
  assumes ok: "ops_ok parser live" and wf: "config_wf config"
  shows "\<exists>w'. unmap_image_config parser config w = Some w' \<and> live w' = live w - config_entries config"
proof -
  let ?N = "ns_entry config ` {..<unat (num_ns_iommu_mappings config)}"
  let ?S = "sec_entry config ` sec_kept config {..<unat (num_iommu_mappings config)}"
  obtain w1 where 1: "clear_iommu_mappings parser config w = Some w1" "live w1 = live w - ?S"
    using clear_iommu_loop_removes[OF ok config_wfD(1)[OF wf], of w] config_wfD(3)[OF wf]
    by (auto simp: clear_iommu_mappings_def)
  obtain w2 where 2: "clear_ns_iommu_mappings parser config w1 = Some w2" "live w2 = live w1 - ?N"
    using clear_ns_loop_removes[OF ok config_wfD(2)[OF wf], of w1] config_wfD(4)[OF wf]
    by (auto simp: clear_ns_iommu_mappings_def)
  show ?thesis using 1 2 by (auto simp: unmap_image_config_def config_entries_def)
qed

lemma ops_ok_upd [simp]:
  "ops_ok (parser\<lparr>pr_data := w\<rparr>) live = ops_ok parser live"
  "ops_ok (parser\<lparr>last_config := c\<rparr>) live = ops_ok parser live"
  "ops_ok (parser\<lparr>last_config_valid := b\<rparr>) live = ops_ok parser live"
  by (simp_all add: ops_ok_def)


text \<open>C40: The error path forgets the shift of 36-bit addresses. When the second of two secure mappings is refused and the
  first has a 36-bit address, adding the configuration fails and the first mapping stays.
\<close>

theorem error_path_leaks_36bit:
  assumes ok: "ops_ok parser live" and wf: "config_wf config"
    and two: "num_iommu_mappings config = 2" "num_ns_iommu_mappings config = 0" "privilege_level config = GCIP_FW_PRIV_LEVEL_NS"
    and first: "iommu_mappings config ! 0 = (va, v)" "GCIP_IMAGE_CONFIG_MAP_36BIT (va AND GCIP_IMG_CFG_MAP_FLAGS_MASK)"
      "virt_address_to_dma va < virt_address_to_dma va + ucast (gcip_config_to_size v)"
      "(ucast (v AND GCIP_IMG_CFG_ADDR_MASK) :: u64) < ucast (v AND GCIP_IMG_CFG_ADDR_MASK) + ucast (gcip_config_to_size v)"
      "virt_address_to_dma va \<noteq> 0" "virt_address_to_dma va \<noteq> ucast (va AND NOT GCIP_IMG_CFG_MAP_FLAGS_MASK)"
      "\<And>d p s f o'. fst (pr_map parser w d p s f o') = 0"
    and second: "virt_address_to_dma (fst (iommu_mappings config ! 1)) = 0"
  shows "\<exists>w'. map_image_config parser config w = Some (- EIO, w') \<and> sec_entry config 0 \<in> live w'"
proof -
  let ?f = "va AND GCIP_IMG_CFG_MAP_FLAGS_MASK" and ?s = "ucast (gcip_config_to_size v) :: u64"
    and ?p = "ucast (v AND GCIP_IMG_CFG_ADDR_MASK) :: u64" and ?d = "virt_address_to_dma va"
  obtain va2 v2 where vv2: "iommu_mappings config ! 1 = (va2, v2)" by fastforce
  have len: "1 < length (iommu_mappings config)" using wf by (simp add: config_wf_def GCIP_IMG_CFG_MAX_IOMMU_MAPPINGS_def)
  then have e: "elem_at (iommu_mappings config) 0 = Some (va, v)" "elem_at (iommu_mappings config) (Suc 0) = Some (va2, v2)"
    using first(1) vv2 by (auto simp: elem_at_def)
  have skip: "\<not> skip_secure_mapping config f" for f
    using two(3) by (simp add: skip_secure_mapping_def gcip_image_config_is_secure_def)
  obtain w1 where m: "pr_map parser w ?d ?p ?s ?f GCIP_IMAGE_CONFIG_FLAGS_SECURE = (0, w1)"
    using first(7) by (metis prod.collapse)
  have x: "sec_entry config 0 = (?d, ?s, ?f, GCIP_IMAGE_CONFIG_FLAGS_SECURE)" using first(1) by (simp add: sec_entry_def sec_flags_def)
  have w1: "sec_entry config 0 \<in> live w1" using ops_okD(2)[OF ok m] x by simp
  let ?w2 = "pr_unmap parser w1 (ucast (va AND NOT GCIP_IMG_CFG_MAP_FLAGS_MASK)) ?s ?f GCIP_IMAGE_CONFIG_FLAGS_SECURE"
  have "sec_entry config 0 \<in> live ?w2" using w1 first(6) x by (simp add: ops_okD(4)[OF ok])
  moreover have n: "unat (num_iommu_mappings config) = Suc (Suc 0)" using two(1) by simp
  have "setup_iommu_loop parser config 0 (Suc (Suc 0)) w = Some (- EIO, Suc 0, w1)"
    using e skip m first(3-5) second vv2 by (simp add: Let_def not_le)
  then have "setup_iommu_mappings parser config w = Some (- EIO, ?w2)"
    unfolding setup_iommu_mappings_def n using e skip
    by (simp only: option.case prod.case) (simp add: Let_def)
  moreover have "setup_ns_iommu_mappings parser config w = Some (0, w)" using two(2) by (simp add: setup_ns_iommu_mappings_def)
  moreover have "clear_ns_iommu_mappings parser config u = Some u" for u
    using two(2) by (simp add: clear_ns_iommu_mappings_def)
  ultimately show ?thesis by (simp add: map_image_config_def)
qed

section \<open>Instances\<close>

text \<open>A driver that keeps its mappings in a list and refuses one that is there.\<close>

definition demo_parser :: "mapping_id list gcip_image_config_parser" where
  "demo_parser =
    \<lparr>pr_data = [(0, 0, 9, 9)],
     pr_map = (\<lambda>w d p s f o'. if (d, s, f, o') \<in> set w then (- 17, w) else (0, (d, s, f, o') # w)),
     pr_unmap = (\<lambda>w d s f o'. removeAll (d, s, f, o') w),
     last_config = zero_config, last_config_valid = False\<rparr>"

lemma demo_ops_ok: "ops_ok demo_parser set"
  by (auto simp: ops_ok_def demo_parser_def split: if_splits)

text \<open>One non-secure mapping of a megabyte and one shared secure mapping of a page.\<close>

definition demo_config :: gcip_image_config where
  "demo_config = zero_config\<lparr>num_ns_iommu_mappings := 1, ns_iommu_mappings := 0x10000001 # replicate 4 0,
     num_iommu_mappings := 1, iommu_mappings := (0x20000002, 0x90000801) # replicate 17 (0, 0)\<rparr>"

lemma demo_config_ok:
  "config_wf demo_config" "config_wf zero_config" "no_36bit demo_config" "no_36bit zero_config" "config_entries zero_config = {}"
  by (simp_all add: config_wf_def demo_config_def zero_config_def no_36bit_def sec_kept_def config_entries_def sec_flags_def
      GCIP_IMG_CFG_MAX_IOMMU_MAPPINGS_def GCIP_IMG_CFG_MAX_NS_IOMMU_MAPPINGS_def GCIP_IMAGE_CONFIG_MAP_36BIT_def
      GCIP_IMG_CFG_MAP_FLAGS_MASK_def GCIP_IMAGE_CONFIG_MAP_36BIT_BIT_def)


definition demo_config_36 :: gcip_image_config where
  "demo_config_36 = zero_config\<lparr>privilege_level := 2, num_iommu_mappings := 2,
     iommu_mappings := (0x20000008, 0x90000801) # replicate 17 (0, 0)\<rparr>"

theorem error_path_leaks_36bit_witness:
  "\<exists>w'. map_image_config demo_parser demo_config_36 [] = Some (- EIO, w') \<and> sec_entry demo_config_36 0 \<in> set w'"
proof (rule error_path_leaks_36bit[OF demo_ops_ok, of _ "0x20000008" "0x90000801"])
  show "config_wf demo_config_36"
    by (simp add: config_wf_def demo_config_36_def zero_config_def GCIP_IMG_CFG_MAX_IOMMU_MAPPINGS_def
        GCIP_IMG_CFG_MAX_NS_IOMMU_MAPPINGS_def)
  show "fst (pr_map demo_parser [] d p s f o') = 0" for d p s f o' by (simp add: demo_parser_def)
  show "virt_address_to_dma 0x20000008 < virt_address_to_dma 0x20000008 + ucast (gcip_config_to_size 0x90000801)"
    "(ucast ((0x90000801 :: u32) AND GCIP_IMG_CFG_ADDR_MASK) :: u64) <
      ucast ((0x90000801 :: u32) AND GCIP_IMG_CFG_ADDR_MASK) + ucast (gcip_config_to_size 0x90000801)"
    "virt_address_to_dma 0x20000008 \<noteq> 0"
    "virt_address_to_dma 0x20000008 \<noteq> ucast ((0x20000008 :: u32) AND NOT GCIP_IMG_CFG_MAP_FLAGS_MASK)"
    "GCIP_IMAGE_CONFIG_MAP_36BIT ((0x20000008 :: u32) AND GCIP_IMG_CFG_MAP_FLAGS_MASK)"
    "virt_address_to_dma (fst (iommu_mappings demo_config_36 ! 1)) = 0"
    by code_simp+
qed (simp_all add: demo_config_36_def zero_config_def GCIP_FW_PRIV_LEVEL_NS_def)

end
